(* ===== verification/Prelude.thy ===== *)
theory Prelude
  imports Main "HOL-Library.AList" "HOL-Library.Word" "HOL-Library.Sublist"
    "HOL-Library.Char_ord" "HOL-Library.List_Lexorder"
begin

text \<open>
  Shared vocabulary of the development. Timestamps are the integers that
  \<^verbatim>\<open>Date.now()\<close> returns (milliseconds since the epoch). A JavaScript
  \<^verbatim>\<open>Map\<close> is an association list with distinct keys in insertion order:
  \<^verbatim>\<open>Map.prototype.set\<close> replaces the value of a present key in place and
  appends a new key at the end, which is exactly \<open>AList.update\<close>;
  \<^verbatim>\<open>get\<close> is \<open>map_of\<close>, \<^verbatim>\<open>size\<close> is \<open>length\<close> and
  \<^verbatim>\<open>values()\<close> is \<open>map snd\<close>. The lemmas below are the facts about these
  maps and about counting with \<open>filter\<close> that the component theories share.
\<close>

named_theorems js_simps "evaluation rules of the JavaScript runtime primitives of the model"
named_theorems service_simps "characteristic equations of the invite service operations"

type_synonym ms = int
type_synonym ('k, 'v) js_map = "('k \<times> 'v) list"

abbreviation js_map_keys :: "('k, 'v) js_map \<Rightarrow> 'k set" where
  "js_map_keys m \<equiv> fst ` set m"

abbreviation js_map_wf :: "('k, 'v) js_map \<Rightarrow> bool" where
  "js_map_wf m \<equiv> distinct (map fst m)"

abbreviation count_where :: "('v \<Rightarrow> bool) \<Rightarrow> ('k, 'v) js_map \<Rightarrow> nat" where
  "count_where P m \<equiv> length (filter P (map snd m))"

subsection \<open>Maps as association lists\<close>

lemma map_of_None_keys: "map_of m k = None \<longleftrightarrow> k \<notin> js_map_keys m"
  by (simp add: map_of_eq_None_iff)

lemma length_update_new [simp]:
  "k \<notin> js_map_keys m \<Longrightarrow> length (AList.update k v m) = Suc (length m)"
  by (induction m) auto

lemma length_update_present [simp]:
  "k \<in> js_map_keys m \<Longrightarrow> length (AList.update k v m) = length m"
  by (induction m) auto

lemma update_new_append:
  "k \<notin> js_map_keys m \<Longrightarrow> AList.update k v m = m @ [(k, v)]"
  by (induction m) auto

lemma update_present_split:
  assumes "js_map_wf m" and "map_of m k = Some v'"
  shows "\<exists>xs ys. m = xs @ (k, v') # ys \<and> AList.update k v m = xs @ (k, v) # ys
           \<and> k \<notin> js_map_keys xs"
  using assms
proof (induction m)
  case Nil
  then show ?case by simp
next
  case (Cons p m)
  show ?case
  proof (cases "fst p = k")
    case True
    then obtain v0 where p: "p = (k, v0)" by (cases p) auto
    with Cons.prems have "v0 = v'" "k \<notin> js_map_keys m" by auto
    with p show ?thesis
      by (intro exI [where x = "[]"] exI [where x = m]) simp
  next
    case False
    with Cons.prems obtain xs ys where
      "m = xs @ (k, v') # ys" "AList.update k v m = xs @ (k, v) # ys" "k \<notin> js_map_keys xs"
      using Cons.IH by auto
    with False show ?thesis
      by (intro exI [where x = "p # xs"] exI [where x = ys]) (cases p, auto)
  qed
qed

lemma count_where_update_new:
  "k \<notin> js_map_keys m \<Longrightarrow>
     count_where P (AList.update k v m) = count_where P m + (if P v then 1 else 0)"
  by (simp add: update_new_append)

lemma count_where_update_present:
  assumes "js_map_wf m" and "map_of m k = Some v'"
  shows "count_where P (AList.update k v m) + (if P v' then 1 else 0)
           = count_where P m + (if P v then 1 else 0)"
proof -
  obtain xs ys where "m = xs @ (k, v') # ys" "AList.update k v m = xs @ (k, v) # ys"
    using update_present_split [OF assms] by blast
  then show ?thesis by simp
qed

lemma js_map_wf_update [simp]: "js_map_wf m \<Longrightarrow> js_map_wf (AList.update k v m)"
  by (rule distinct_update)

lemma count_where_le_length: "count_where P m \<le> length m"
  by (metis length_filter_le length_map)

lemma count_where_disjoint:
  "(\<And>x. P x \<Longrightarrow> Q x \<Longrightarrow> False) \<Longrightarrow>
     count_where P m + count_where Q m \<le> length m"
proof (induction m)
  case Nil
  then show ?case by simp
next
  case (Cons p m)
  from Cons.prems have "count_where P m + count_where Q m \<le> length m"
    by (rule Cons.IH)
  with Cons.prems show ?case by (cases "P (snd p)"; cases "Q (snd p)") auto
qed

lemma map_of_in_values: "map_of m k = Some v \<Longrightarrow> v \<in> set (map snd m)"
  by (force dest: map_of_SomeD)

subsection \<open>Lists\<close>

lemma length_filter_eq_one:
  "length (filter P xs) = 1 \<longleftrightarrow> (\<exists>ys x zs. xs = ys @ x # zs \<and> P x
      \<and> (\<forall>y\<in>set ys. \<not> P y) \<and> (\<forall>z\<in>set zs. \<not> P z))"
proof
  assume "length (filter P xs) = 1"
  then show "\<exists>ys x zs. xs = ys @ x # zs \<and> P x \<and> (\<forall>y\<in>set ys. \<not> P y) \<and> (\<forall>z\<in>set zs. \<not> P z)"
  proof (induction xs)
    case Nil
    then show ?case by simp
  next
    case (Cons a xs)
    show ?case
    proof (cases "P a")
      case True
      with Cons.prems have "filter P xs = []" by simp
      with True show ?thesis
        by (auto simp: filter_empty_conv intro!: exI [of _ "[]"])
    next
      case False
      with Cons obtain ys x zs where
        "xs = ys @ x # zs" "P x" "\<forall>y\<in>set ys. \<not> P y" "\<forall>z\<in>set zs. \<not> P z" by auto
      with False show ?thesis by (auto intro!: exI [of _ "a # ys"])
    qed
  qed
next
  assume "\<exists>ys x zs. xs = ys @ x # zs \<and> P x \<and> (\<forall>y\<in>set ys. \<not> P y) \<and> (\<forall>z\<in>set zs. \<not> P z)"
  then show "length (filter P xs) = 1"
    by (auto simp: filter_empty_conv)
qed

lemma set_update_subset: "set (AList.update k v m) \<subseteq> insert (k, v) (set m)"
  by (induction m) auto

lemma list_all_update:
  "list_all P m \<Longrightarrow> P (k, v) \<Longrightarrow> list_all P (AList.update k v m)"
  using set_update_subset [of k v m] by (auto simp: list_all_iff)

lemma keys_update [simp]: "js_map_keys (AList.update k v m) = insert k (js_map_keys m)"
  by (simp add: dom_update)

end
