(* ===== verification/JsString.thy ===== *)
theory JsString
  imports Prelude
begin

text \<open>
  The JavaScript string primitives the repository calls, on strings of 8-bit
  characters (\<open>char\<close>, code points 0 to 255, i.e.\ Latin-1): the class
  \<^verbatim>\<open>\s\<close> of regular expressions, \<^verbatim>\<open>String.prototype.toLowerCase\<close>,
  \<^verbatim>\<open>toUpperCase\<close>, \<^verbatim>\<open>trim\<close> and \<^verbatim>\<open>includes\<close>. Within Latin-1
  the whitespace class is exact (TAB, LF, VT, FF, CR, SPACE and NBSP) and so is
  \<^verbatim>\<open>toLowerCase\<close>. \<^verbatim>\<open>toUpperCase\<close> is exact except for the three
  Latin-1 letters whose upper case lies outside Latin-1 (the micro sign, sharp s
  and y with diaeresis), which the model leaves unchanged; characters beyond
  Latin-1 are outside the model.
\<close>

definition js_is_space :: "char \<Rightarrow> bool" where
  "js_is_space c \<longleftrightarrow>
     (let n = of_char c :: nat in (9 \<le> n \<and> n \<le> 13) \<or> n = 32 \<or> n = 160)"

definition js_lower_char :: "char \<Rightarrow> char" where
  "js_lower_char c =
     (let n = of_char c :: nat in
      if (65 \<le> n \<and> n \<le> 90) \<or> (192 \<le> n \<and> n \<le> 222 \<and> n \<noteq> 215)
      then char_of (n + 32) else c)"

definition js_upper_char :: "char \<Rightarrow> char" where
  "js_upper_char c =
     (let n = of_char c :: nat in
      if (97 \<le> n \<and> n \<le> 122) \<or> (224 \<le> n \<and> n \<le> 254 \<and> n \<noteq> 247)
      then char_of (n - 32) else c)"

definition js_toLowerCase :: "string \<Rightarrow> string" where
  "js_toLowerCase s = map js_lower_char s"

definition js_toUpperCase :: "string \<Rightarrow> string" where
  "js_toUpperCase s = map js_upper_char s"

definition js_trim :: "string \<Rightarrow> string" where
  "js_trim s = rev (dropWhile js_is_space (rev (dropWhile js_is_space s)))"

text \<open>\<^verbatim>\<open>s.includes(t)\<close>: \<open>t\<close> occurs contiguously in \<open>s\<close>.\<close>

definition js_includes :: "string \<Rightarrow> string \<Rightarrow> bool" where
  "js_includes s t \<longleftrightarrow> sublist t s"

declare js_toLowerCase_def [js_simps] js_toUpperCase_def [js_simps]
  js_includes_def [js_simps]

subsection \<open>Case mapping\<close>

lemma js_lower_char_idem [simp]: "js_lower_char (js_lower_char c) = js_lower_char c"
proof -
  define n where "n = (of_char c :: nat)"
  have "n < 256" by (simp add: n_def)
  show ?thesis
  proof (cases "(65 \<le> n \<and> n \<le> 90) \<or> (192 \<le> n \<and> n \<le> 222 \<and> n \<noteq> 215)")
    case True
    then have "js_lower_char c = char_of (n + 32)" by (auto simp: js_lower_char_def n_def)
    moreover have "(of_char (char_of (n + 32) :: char) :: nat) = n + 32" using True by auto
    ultimately show ?thesis using True by (auto simp: js_lower_char_def Let_def)
  next
    case False
    then show ?thesis by (auto simp: js_lower_char_def Let_def n_def)
  qed
qed

lemma js_toLowerCase_idem [simp]: "js_toLowerCase (js_toLowerCase s) = js_toLowerCase s"
  by (simp add: js_toLowerCase_def)

lemma length_js_toLowerCase [simp]: "length (js_toLowerCase s) = length s"
  by (simp add: js_toLowerCase_def)

lemma length_js_toUpperCase [simp]: "length (js_toUpperCase s) = length s"
  by (simp add: js_toUpperCase_def)

lemma js_toUpperCase_append [simp]:
  "js_toUpperCase (s @ t) = js_toUpperCase s @ js_toUpperCase t"
  by (simp add: js_toUpperCase_def)

lemma js_toLowerCase_append [simp]:
  "js_toLowerCase (s @ t) = js_toLowerCase s @ js_toLowerCase t"
  by (simp add: js_toLowerCase_def)

subsection \<open>Trimming\<close>

lemma dropWhile_all_iff: "(\<forall>x\<in>set (dropWhile P s). P x) \<longleftrightarrow> (\<forall>c\<in>set s. P c)"
proof
  assume a: "\<forall>x\<in>set (dropWhile P s). P x"
  have "dropWhile P s = []"
  proof (rule ccontr)
    assume "dropWhile P s \<noteq> []"
    then have "\<not> P (hd (dropWhile P s))" by (metis hd_dropWhile)
    with a \<open>dropWhile P s \<noteq> []\<close> show False by simp
  qed
  then show "\<forall>c\<in>set s. P c" by (simp add: dropWhile_eq_Nil_conv)
qed (auto dest: set_dropWhileD)

lemma js_trim_empty_iff: "js_trim s = [] \<longleftrightarrow> (\<forall>c\<in>set s. js_is_space c)"
  by (simp add: js_trim_def dropWhile_eq_Nil_conv dropWhile_all_iff)

lemma dropWhile_none: "(\<forall>c\<in>set s. \<not> P c) \<Longrightarrow> dropWhile P s = s"
  by (cases s) auto

lemma js_trim_no_space [simp]: "(\<forall>c\<in>set s. \<not> js_is_space c) \<Longrightarrow> js_trim s = s"
  by (simp add: js_trim_def dropWhile_none)

lemma js_includes_Nil [simp]: "js_includes s []"
  by (simp add: js_includes_def)


lemma Char_eq_char_of:
  "Char b0 b1 b2 b3 b4 b5 b6 b7 = char_of n \<longleftrightarrow> char_of n = Char b0 b1 b2 b3 b4 b5 b6 b7"
  by (rule eq_commute)

lemmas js_string_eval = js_toUpperCase_def js_upper_char_def js_toLowerCase_def js_lower_char_def
  js_trim_def js_is_space_def char_of_eq_iff Char_eq_char_of js_includes_def sublist_code prefix_code

end
