(* ===== verification/JsNumber.thy ===== *)
theory JsNumber
  imports JsString
begin

text \<open>
  The two number-to-text conversions \<^verbatim>\<open>generateInviteCode\<close> uses:
  \<^verbatim>\<open>Number.prototype.toString(36)\<close> on the integer \<^verbatim>\<open>Date.now()\<close>
  (most significant digit first, digits \<^verbatim>\<open>0-9a-z\<close>, a minus sign for a
  negative value) and Node's \<^verbatim>\<open>Buffer.toString('hex')\<close> (two lower-case hex
  digits per byte, high nibble first). The decoder \<open>parseInt36\<close>
  (\<^verbatim>\<open>parseInt(s, 36)\<close> on digit strings) is the inverse used to prove that
  the printing is injective and how long it is.
\<close>

definition digit36 :: "nat \<Rightarrow> char" where
  "digit36 d = (if d < 10 then char_of (48 + d) else char_of (87 + d))"

fun nat_toString36 :: "nat \<Rightarrow> string" where
  "nat_toString36 n =
     (if n < 36 then [digit36 n] else nat_toString36 (n div 36) @ [digit36 (n mod 36)])"

declare nat_toString36.simps [simp del]

definition js_toString36 :: "int \<Rightarrow> string" where
  "js_toString36 i =
     (if i < 0 then CHR ''-'' # nat_toString36 (nat (- i)) else nat_toString36 (nat i))"

definition byte_hex :: "8 word \<Rightarrow> string" where
  "byte_hex b = [digit36 (unat b div 16), digit36 (unat b mod 16)]"

definition buffer_toString_hex :: "8 word list \<Rightarrow> string" where
  "buffer_toString_hex bs = concat (map byte_hex bs)"

definition digit36_value :: "char \<Rightarrow> nat" where
  "digit36_value c = (let n = of_char c :: nat in if n < 58 then n - 48 else n - 87)"

definition parseInt36 :: "string \<Rightarrow> nat" where
  "parseInt36 s = foldl (\<lambda>acc c. 36 * acc + digit36_value c) 0 s"

subsection \<open>Base 36\<close>

lemma digit36_value_digit36 [simp]: "d < 36 \<Longrightarrow> digit36_value (digit36 d) = d"
  by (simp add: digit36_def digit36_value_def Let_def)

lemma parseInt36_snoc: "parseInt36 (s @ [c]) = 36 * parseInt36 s + digit36_value c"
  by (simp add: parseInt36_def)

lemma nat_toString36_small: "n < 36 \<Longrightarrow> nat_toString36 n = [digit36 n]"
  by (simp add: nat_toString36.simps)

lemma nat_toString36_big:
  "36 \<le> n \<Longrightarrow> nat_toString36 n = nat_toString36 (n div 36) @ [digit36 (n mod 36)]"
  by (simp add: nat_toString36.simps [of n])

text \<open>Round trip: reading the printed digits back gives the number.\<close>

theorem parseInt36_nat_toString36 [simp]: "parseInt36 (nat_toString36 n) = n"
proof (induction n rule: nat_toString36.induct)
  case (1 n)
  show ?case
  proof (cases "n < 36")
    case True
    then show ?thesis by (simp add: nat_toString36_small parseInt36_def)
  next
    case False
    with "1.IH" have "parseInt36 (nat_toString36 (n div 36)) = n div 36" by simp
    with False show ?thesis by (simp add: nat_toString36_big parseInt36_snoc)
  qed
qed

lemma nat_toString36_inj: "nat_toString36 m = nat_toString36 n \<longleftrightarrow> m = n"
  by (metis parseInt36_nat_toString36)

lemma nat_toString36_nonempty [simp]: "nat_toString36 n \<noteq> []"
  by (cases "n < 36") (simp_all add: nat_toString36_small nat_toString36_big)

lemma length_nat_toString36_le: "n < 36 ^ k \<Longrightarrow> 0 < k \<Longrightarrow> length (nat_toString36 n) \<le> k"
proof (induction n arbitrary: k rule: nat_toString36.induct)
  case (1 n)
  show ?case
  proof (cases "n < 36")
    case True
    with "1.prems" show ?thesis by (simp add: nat_toString36_small)
  next
    case False
    obtain j where k: "k = Suc j" using "1.prems" by (cases k) auto
    have "0 < j"
    proof (rule ccontr)
      assume "\<not> 0 < j"
      with k "1.prems" False show False by simp
    qed
    from "1.prems" k have "n < 36 ^ j * 36" by (simp add: mult.commute)
    then have "n div 36 < 36 ^ j" by (rule less_mult_imp_div_less)
    with "1.IH" False \<open>0 < j\<close> have "length (nat_toString36 (n div 36)) \<le> j" by simp
    with False k show ?thesis by (simp add: nat_toString36_big)
  qed
qed

lemma length_nat_toString36_ge: "36 ^ k \<le> n \<Longrightarrow> k < length (nat_toString36 n)"
proof (induction n arbitrary: k rule: nat_toString36.induct)
  case (1 n)
  show ?case
  proof (cases k)
    case 0
    then show ?thesis by simp
  next
    case (Suc j)
    from "1.prems" Suc have n_ge: "36 * 36 ^ j \<le> n" by simp
    have "(36::nat) \<le> 36 * 36 ^ j" using one_le_power [of "36::nat" j] by simp
    from this n_ge have big: "36 \<le> n" by (rule order_trans)
    from n_ge have "36 * 36 ^ j div 36 \<le> n div 36" by (rule div_le_mono)
    then have "36 ^ j \<le> n div 36" by simp
    with "1.IH" big have "j < length (nat_toString36 (n div 36))" by simp
    with big Suc show ?thesis by (simp add: nat_toString36_big)
  qed
qed

lemma length_nat_toString36_eq:
  "36 ^ k \<le> n \<Longrightarrow> n < 36 ^ Suc k \<Longrightarrow> length (nat_toString36 n) = Suc k"
  using length_nat_toString36_le [of n "Suc k"] length_nat_toString36_ge [of k n] by simp

subsection \<open>Hexadecimal bytes\<close>

lemma length_byte_hex [simp]: "length (byte_hex b) = 2"
  by (simp add: byte_hex_def)

lemma length_buffer_toString_hex [simp]:
  "length (buffer_toString_hex bs) = 2 * length bs"
  by (induction bs) (simp_all add: buffer_toString_hex_def)

lemma buffer_toString_hex_Cons:
  "buffer_toString_hex (b # bs) = digit36 (unat b div 16) # digit36 (unat b mod 16) # buffer_toString_hex bs"
  by (simp add: buffer_toString_hex_def byte_hex_def)

end
