(* ===== verification/InviteCode.thy ===== *)
theory InviteCode
  imports JsNumber
begin

text \<open>
  Code generation of the invite service, \<^verbatim>\<open>generateInviteCode\<close> in
  \<^verbatim>\<open>src/api/invite-service.js\<close>: the prefix \<^verbatim>\<open>C2C\<close>, the clock
  \<^verbatim>\<open>Date.now()\<close> in base 36, and the upper-cased hex rendering of
  \<^verbatim>\<open>crypto.randomBytes(4)\<close>, cut to 12 characters by
  \<^verbatim>\<open>substring(0, 12)\<close>. The clock reading and the random bytes are
  parameters, so that the generator is a function. The lemmas show that every
  code has 12 characters, and that for every clock value between
  \<open>36 ^ 7\<close> ms (June 1972) and \<open>36 ^ 8\<close> ms (May 2059) the clock fills 8 of
  them, so that of the 32 random bits only the high nibble of the first byte
  survives the cut: two codes drawn in the same millisecond collide with
  probability 1/16.
\<close>

definition generateInviteCode :: "ms \<Rightarrow> 8 word list \<Rightarrow> string" where
  "generateInviteCode now random =
     take 12 (''C2C'' @ js_toString36 now @ js_toUpperCase (buffer_toString_hex random))"

definition code_nibble :: "8 word list \<Rightarrow> nat" where
  "code_nibble random = unat (hd random) div 16"

lemma js_toString36_nonneg: "0 \<le> now \<Longrightarrow> js_toString36 now = nat_toString36 (nat now)"
  by (simp add: js_toString36_def)

lemma length_js_toString36_pos: "0 < length (js_toString36 now)"
  by (simp add: js_toString36_def)

lemma length_js_toString36_window:
  "36 ^ 7 \<le> now \<Longrightarrow> now < 36 ^ 8 \<Longrightarrow> length (js_toString36 now) = 8"
proof -
  assume lo: "36 ^ 7 \<le> now" and hi: "now < 36 ^ 8"
  then have "36 ^ 7 \<le> nat now" and "nat now < 36 ^ Suc 7"
    by (simp_all add: le_nat_iff nat_less_iff)
  then have "length (nat_toString36 (nat now)) = Suc 7" by (rule length_nat_toString36_eq)
  with lo show ?thesis by (simp add: js_toString36_def)
qed

lemma generateInviteCode_window:
  assumes "36 ^ 7 \<le> now" and "now < 36 ^ 8" and "random \<noteq> []"
  shows "generateInviteCode now random =
           ''C2C'' @ nat_toString36 (nat now) @ [js_upper_char (digit36 (code_nibble random))]"
proof -
  obtain b bs where r: "random = b # bs" using assms(3) by (cases random) auto
  have len: "length (js_toString36 now) = 8"
    using assms(1,2) by (rule length_js_toString36_window)
  have nonneg: "0 \<le> now" using assms(1) by simp
  have "take 12 (''C2C'' @ js_toString36 now @ js_toUpperCase (buffer_toString_hex random))
        = ''C2C'' @ js_toString36 now @ take 1 (js_toUpperCase (buffer_toString_hex random))"
    using len by simp
  also have "take 1 (js_toUpperCase (buffer_toString_hex random))
             = [js_upper_char (digit36 (code_nibble random))]"
    by (simp add: r buffer_toString_hex_Cons js_toUpperCase_def code_nibble_def)
  finally show ?thesis
    using nonneg by (simp add: generateInviteCode_def js_toString36_nonneg)
qed

lemmas code_eval = generateInviteCode_def js_toString36_def nat_toString36.simps digit36_def
  buffer_toString_hex_def byte_hex_def js_toUpperCase_def js_upper_char_def char_of_eq_iff

lemma js_upper_digit36_inj:
  assumes "a < 16" and "b < 16"
  shows "js_upper_char (digit36 a) = js_upper_char (digit36 b) \<longleftrightarrow> a = b"
  using assms
  by (auto simp: digit36_def js_upper_char_def Let_def split: if_splits)

lemma code_nibble_less: "code_nibble random < 16"
proof -
  have "unat (hd random) < 256" using unsigned_less [of "hd random", where ?'a = nat] by simp
  then show ?thesis by (simp add: code_nibble_def)
qed

lemma code_nibble_range: "code_nibble ` {r. length r = 4} = {0..<16}"
proof
  show "code_nibble ` {r. length r = 4} \<subseteq> {0..<16}"
    using code_nibble_less by auto
next
  show "{0..<16} \<subseteq> code_nibble ` {r. length r = 4}"
  proof
    fix n :: nat
    assume "n \<in> {0..<16}"
    then have n: "n < 16" by simp
    let ?r = "[word_of_nat (16 * n), 0, 0, 0] :: 8 word list"
    have "unat (word_of_nat (16 * n) :: 8 word) = (16 * n) mod 2 ^ LENGTH(8)"
      by (rule unat_of_nat)
    with n have "unat (word_of_nat (16 * n) :: 8 word) = 16 * n" by simp
    then have "code_nibble ?r = n" by (simp add: code_nibble_def)
    moreover have "?r \<in> {r. length r = 4}" by simp
    ultimately show "n \<in> code_nibble ` {r. length r = 4}" by (metis image_eqI)
  qed
qed

text \<open>
  C1. Every generated code has exactly 12 characters, whatever the clock reads,
  because the prefix, at least one base-36 digit and the eight hex digits of the
  four random bytes make at least 12 characters before the cut.
\<close>

theorem generateInviteCode_length:
  "length random = 4 \<Longrightarrow> length (generateInviteCode now random) = 12"
proof -
  assume "length random = 4"
  then have "12 \<le> length (''C2C'' @ js_toString36 now @ js_toUpperCase (buffer_toString_hex random))"
    using length_js_toString36_pos [of now] by (simp add: Suc_le_eq)
  then show ?thesis by (simp add: generateInviteCode_def)
qed

theorem generateInviteCode_length_witness:
  "length [0xAB, 0x12, 0x34, 0x56 :: 8 word] = 4
   \<and> length (generateInviteCode 1700000000000 [0xAB, 0x12, 0x34, 0x56]) = 12"
  using generateInviteCode_length [of "[0xAB, 0x12, 0x34, 0x56]" 1700000000000] by simp

text \<open>
  C2. Between 1972 and 2059 two generated codes are equal exactly when they were
  drawn in the same millisecond and the first random byte has the same high
  nibble: the other 28 random bits never reach the code.
\<close>

theorem generateInviteCode_collision:
  assumes "36 ^ 7 \<le> t1" and "t1 < 36 ^ 8" and "36 ^ 7 \<le> t2" and "t2 < 36 ^ 8"
    and "r1 \<noteq> []" and "r2 \<noteq> []"
  shows "generateInviteCode t1 r1 = generateInviteCode t2 r2
           \<longleftrightarrow> t1 = t2 \<and> code_nibble r1 = code_nibble r2"
proof -
  have l1: "length (nat_toString36 (nat t1)) = 8"
    using length_js_toString36_window [OF assms(1,2)] assms(1) by (simp add: js_toString36_def)
  have l2: "length (nat_toString36 (nat t2)) = 8"
    using length_js_toString36_window [OF assms(3,4)] assms(3) by (simp add: js_toString36_def)
  have "generateInviteCode t1 r1 = generateInviteCode t2 r2 \<longleftrightarrow>
        nat_toString36 (nat t1) = nat_toString36 (nat t2)
        \<and> js_upper_char (digit36 (code_nibble r1)) = js_upper_char (digit36 (code_nibble r2))"
    using l1 l2 by (simp add: generateInviteCode_window [OF assms(1,2,5)]
        generateInviteCode_window [OF assms(3,4,6)])
  also have "\<dots> \<longleftrightarrow> t1 = t2 \<and> code_nibble r1 = code_nibble r2"
    using assms(1,3)
    by (simp add: nat_toString36_inj js_upper_digit36_inj code_nibble_less eq_nat_nat_iff)
  finally show ?thesis .
qed

theorem generateInviteCode_collision_witness:
  "generateInviteCode 1700000000000 [0xAB, 0x12, 0x34, 0x56]
     = generateInviteCode 1700000000000 [0xA0, 0, 0, 0]"
proof -
  have "code_nibble [0xAB, 0x12, 0x34, 0x56] = code_nibble [0xA0, 0, 0, 0]"
    by (simp add: code_nibble_def)
  then show ?thesis
    using generateInviteCode_collision [of 1700000000000 1700000000000
        "[0xAB, 0x12, 0x34, 0x56]" "[0xA0, 0, 0, 0]"] by simp
qed

text \<open>
  C3. In one millisecond of that window the generator can produce only 16
  different codes from the \<open>2 ^ 32\<close> possible random inputs.
\<close>

theorem generateInviteCode_entropy:
  assumes "36 ^ 7 \<le> now" and "now < 36 ^ 8"
  shows "card (generateInviteCode now ` {r. length r = 4}) = 16"
proof -
  let ?f = "\<lambda>n. ''C2C'' @ nat_toString36 (nat now) @ [js_upper_char (digit36 n)]"
  have "generateInviteCode now ` {r. length r = 4} = (?f \<circ> code_nibble) ` {r. length r = 4}"
  proof (rule image_cong)
    fix r :: "8 word list"
    assume "r \<in> {r. length r = 4}"
    then have "r \<noteq> []" by auto
    then show "generateInviteCode now r = (?f \<circ> code_nibble) r"
      using generateInviteCode_window [OF assms] by simp
  qed simp
  also have "\<dots> = ?f ` (code_nibble ` {r. length r = 4})"
    by (rule image_comp [symmetric])
  also have "\<dots> = ?f ` {0..<16}"
    by (simp only: code_nibble_range)
  finally have img: "generateInviteCode now ` {r. length r = 4} = ?f ` {0..<16}" .
  have "inj_on ?f {0..<16}"
    by (auto simp: inj_on_def js_upper_digit36_inj)
  then show ?thesis by (simp add: img card_image)
qed

theorem generateInviteCode_entropy_witness:
  "card (generateInviteCode 1700000000000 ` {r. length r = 4}) = 16"
  using generateInviteCode_entropy [of 1700000000000] by simp

end
