(* ===== verification/EmailCheck.thy ===== *)
theory EmailCheck
  imports JsString
begin

text \<open>
  \<^verbatim>\<open>isValidEmail\<close> of \<^verbatim>\<open>src/api/invite-service.js\<close> tests the regular
  expression \<^verbatim>\<open>/^[^\s@]+@[^\s@]+\.[^\s@]+$/\<close>. Its language is the set of
  strings \<open>a @ ''@'' @ b @ ''.'' @ c\<close> with \<open>a\<close>, \<open>b\<close>, \<open>c\<close> nonempty
  and free of whitespace and \<^verbatim>\<open>@\<close>; \<open>isValidEmail\<close> states that
  membership by enumerating the ways to split the string, so it evaluates. The
  lemmas prove it equal to \<open>email_shape\<close>, a single-pass description: no
  whitespace, exactly one \<^verbatim>\<open>@\<close>, a nonempty local part, and a dot in the
  domain that is neither its first nor its last character.
\<close>

definition email_char :: "char \<Rightarrow> bool" where
  "email_char c \<longleftrightarrow> \<not> js_is_space c \<and> c \<noteq> CHR ''@''"

definition email_atom :: "string \<Rightarrow> bool" where
  "email_atom w \<longleftrightarrow> w \<noteq> [] \<and> list_all email_char w"

fun splits :: "'a list \<Rightarrow> ('a list \<times> 'a list) list" where
  "splits [] = [([], [])]"
| "splits (x # xs) = ([], x # xs) # map (\<lambda>(a, b). (x # a, b)) (splits xs)"

definition isValidEmail :: "string \<Rightarrow> bool" where
  "isValidEmail email \<longleftrightarrow>
     (\<exists>(a, r) \<in> set (splits email). email_atom a \<and>
        (case r of
           [] \<Rightarrow> False
         | at # r' \<Rightarrow> at = CHR ''@'' \<and>
             (\<exists>(b, r2) \<in> set (splits r'). email_atom b \<and>
                (case r2 of
                   [] \<Rightarrow> False
                 | dot # c \<Rightarrow> dot = CHR ''.'' \<and> email_atom c))))"

definition email_shape :: "string \<Rightarrow> bool" where
  "email_shape s \<longleftrightarrow>
     list_all (\<lambda>c. \<not> js_is_space c) s \<and> count_list s (CHR ''@'') = 1 \<and>
     takeWhile (\<lambda>c. c \<noteq> CHR ''@'') s \<noteq> [] \<and>
     CHR ''.'' \<in> set (butlast (tl (tl (dropWhile (\<lambda>c. c \<noteq> CHR ''@'') s))))"

lemmas email_eval = isValidEmail_def email_atom_def email_char_def js_is_space_def

lemma set_splits [simp]: "(a, b) \<in> set (splits s) \<longleftrightarrow> s = a @ b"
proof (induction s arbitrary: a)
  case Nil
  then show ?case by auto
next
  case (Cons x xs)
  then show ?case by (cases a) auto
qed

lemma isValidEmail_regex:
  "isValidEmail s \<longleftrightarrow>
     (\<exists>a b c. s = a @ CHR ''@'' # b @ CHR ''.'' # c
        \<and> email_atom a \<and> email_atom b \<and> email_atom c)"
proof
  assume "isValidEmail s"
  then obtain a r where s: "s = a @ r" and a: "email_atom a"
    and r: "case r of [] \<Rightarrow> False | at # r' \<Rightarrow> at = CHR ''@'' \<and>
             (\<exists>(b, r2) \<in> set (splits r'). email_atom b \<and>
                (case r2 of [] \<Rightarrow> False | dot # c \<Rightarrow> dot = CHR ''.'' \<and> email_atom c))"
    by (auto simp: isValidEmail_def)
  then obtain r' where r': "r = CHR ''@'' # r'" by (auto split: list.splits)
  with r obtain b r2 where b: "r' = b @ r2" "email_atom b"
    and r2: "case r2 of [] \<Rightarrow> False | dot # c \<Rightarrow> dot = CHR ''.'' \<and> email_atom c"
    by auto
  then obtain c where "r2 = CHR ''.'' # c" "email_atom c" by (auto split: list.splits)
  with s a r' b show "\<exists>a b c. s = a @ CHR ''@'' # b @ CHR ''.'' # c
        \<and> email_atom a \<and> email_atom b \<and> email_atom c" by auto
next
  assume "\<exists>a b c. s = a @ CHR ''@'' # b @ CHR ''.'' # c
        \<and> email_atom a \<and> email_atom b \<and> email_atom c"
  then obtain a b c where s: "s = a @ CHR ''@'' # b @ CHR ''.'' # c"
    and atoms: "email_atom a" "email_atom b" "email_atom c" by blast
  have inner: "\<exists>(b', r2) \<in> set (splits (b @ CHR ''.'' # c)). email_atom b' \<and>
      (case r2 of [] \<Rightarrow> False | dot # c' \<Rightarrow> dot = CHR ''.'' \<and> email_atom c')"
    using atoms by (intro bexI [where x = "(b, CHR ''.'' # c)"]) simp_all
  have "(a, CHR ''@'' # b @ CHR ''.'' # c) \<in> set (splits s)" using s by simp
  then show "isValidEmail s" using atoms inner unfolding isValidEmail_def
    by (intro bexI [where x = "(a, CHR ''@'' # b @ CHR ''.'' # c)"]) simp_all
qed

lemma count_list_0_iff: "count_list w x = 0 \<longleftrightarrow> x \<notin> set w"
  by (induction w) auto

lemma email_shape_if_regex:
  assumes "email_atom a" "email_atom b" "email_atom c"
  shows "email_shape (a @ CHR ''@'' # b @ CHR ''.'' # c)"
proof -
  have na: "CHR ''@'' \<notin> set a" "CHR ''@'' \<notin> set b" "CHR ''@'' \<notin> set c"
    using assms by (auto simp: email_atom_def email_char_def list_all_iff)
  have ne: "a \<noteq> []" "b \<noteq> []" "c \<noteq> []" using assms by (auto simp: email_atom_def)
  have tw: "takeWhile (\<lambda>ch. ch \<noteq> CHR ''@'') (a @ CHR ''@'' # b @ CHR ''.'' # c) = a"
    using na(1) by (subst takeWhile_append2) auto
  have dw: "dropWhile (\<lambda>ch. ch \<noteq> CHR ''@'') (a @ CHR ''@'' # b @ CHR ''.'' # c)
            = CHR ''@'' # b @ CHR ''.'' # c"
    using na(1) by (subst dropWhile_append2) auto
  have dot: "CHR ''.'' \<in> set (butlast (tl (b @ CHR ''.'' # c)))"
    using ne(2,3) by (cases b) (auto simp: butlast_append)
  have sp: "list_all (\<lambda>ch. \<not> js_is_space ch) (a @ CHR ''@'' # b @ CHR ''.'' # c)"
    using assms by (auto simp: email_atom_def email_char_def list_all_iff js_is_space_def)
  have cnt: "count_list (a @ CHR ''@'' # b @ CHR ''.'' # c) (CHR ''@'') = 1"
    using na by (simp add: count_list_0_iff)
  show ?thesis using sp cnt tw dw dot ne(1) by (simp add: email_shape_def)
qed

lemma email_atom_intro:
  "w \<noteq> [] \<Longrightarrow> \<forall>c\<in>set w. \<not> js_is_space c \<Longrightarrow> CHR ''@'' \<notin> set w \<Longrightarrow> email_atom w"
  unfolding email_atom_def email_char_def list_all_iff by blast

lemma regex_if_email_shape:
  assumes "email_shape s"
  shows "\<exists>a b c. s = a @ CHR ''@'' # b @ CHR ''.'' # c
           \<and> email_atom a \<and> email_atom b \<and> email_atom c"
proof -
  define a where "a = takeWhile (\<lambda>c. c \<noteq> CHR ''@'') s"
  define r where "r = dropWhile (\<lambda>c. c \<noteq> CHR ''@'') s"
  have sp: "\<forall>c\<in>set s. \<not> js_is_space c" and cnt: "count_list s (CHR ''@'') = 1"
    and a_ne: "a \<noteq> []" and dot: "CHR ''.'' \<in> set (butlast (tl (tl r)))"
    using assms unfolding email_shape_def a_def r_def list_all_iff by blast+
  have "CHR ''@'' \<in> set s"
  proof (rule ccontr)
    assume "CHR ''@'' \<notin> set s"
    then have "count_list s (CHR ''@'') = 0" by (simp add: count_list_0_iff)
    with cnt show False by simp
  qed
  then have r_ne: "r \<noteq> []" unfolding r_def by (simp add: dropWhile_eq_Nil_conv)
  then have "\<not> (\<lambda>c. c \<noteq> CHR ''@'') (hd r)"
    unfolding r_def by (rule hd_dropWhile)
  then have "hd r = CHR ''@''" by simp
  with r_ne obtain d where r: "r = CHR ''@'' # d" by (cases r) auto
  have s: "s = a @ CHR ''@'' # d"
    using takeWhile_dropWhile_id [of "\<lambda>c. c \<noteq> CHR ''@''" s] r unfolding a_def r_def by simp
  have a_no_at: "CHR ''@'' \<notin> set a" unfolding a_def by (auto dest: set_takeWhileD)
  have "count_list a (CHR ''@'') + 1 + count_list d (CHR ''@'') = 1"
    using cnt unfolding s by simp
  then have d_no_at: "CHR ''@'' \<notin> set d" by (simp add: count_list_0_iff [symmetric])
  from dot r have "CHR ''.'' \<in> set (butlast (tl d))" by simp
  then obtain u v where uv: "butlast (tl d) = u @ CHR ''.'' # v" by (meson split_list)
  then have "tl d \<noteq> []" by (metis butlast.simps(1) list.distinct(1) append_is_Nil_conv)
  then obtain x m where d: "d = x # m" and m_ne: "m \<noteq> []" by (cases d) auto
  obtain y where m: "m = u @ CHR ''.'' # v @ [y]"
    using append_butlast_last_id [OF m_ne] uv d by (metis append.assoc append_Cons list.sel(3))
  have s2: "s = a @ CHR ''@'' # (x # u) @ CHR ''.'' # (v @ [y])"
    using s d m by simp
  have sub: "set a \<subseteq> set s" "set (x # u) \<subseteq> set s" "set (v @ [y]) \<subseteq> set s"
    using s2 by auto
  have no_at: "CHR ''@'' \<notin> set (x # u)" "CHR ''@'' \<notin> set (v @ [y])"
    using d_no_at unfolding d m by auto
  have "email_atom a"
    using a_ne a_no_at sp sub(1) by (intro email_atom_intro) blast+
  moreover have "email_atom (x # u)"
    using no_at(1) sp sub(2) by (intro email_atom_intro) blast+
  moreover have "email_atom (v @ [y])"
    using no_at(2) sp sub(3) by (intro email_atom_intro) blast+
  ultimately show ?thesis using s2 by blast
qed

text \<open>
  C4. The regular expression of \<open>isValidEmail\<close> accepts exactly the strings
  without whitespace that contain one \<^verbatim>\<open>@\<close>, something before it, and a dot
  strictly inside the part after it.
\<close>

theorem isValidEmail_shape: "isValidEmail s \<longleftrightarrow> email_shape s"
proof
  assume "isValidEmail s"
  then have "\<exists>a b c. s = a @ CHR ''@'' # b @ CHR ''.'' # c
               \<and> email_atom a \<and> email_atom b \<and> email_atom c"
    by (simp only: isValidEmail_regex)
  then obtain a b c where s: "s = a @ CHR ''@'' # b @ CHR ''.'' # c"
    and atoms: "email_atom a" "email_atom b" "email_atom c"
    by blast
  show "email_shape s" unfolding s using atoms by (rule email_shape_if_regex)
next
  assume "email_shape s"
  then have "\<exists>a b c. s = a @ CHR ''@'' # b @ CHR ''.'' # c
               \<and> email_atom a \<and> email_atom b \<and> email_atom c"
    by (rule regex_if_email_shape)
  then show "isValidEmail s" by (simp only: isValidEmail_regex)
qed

theorem isValidEmail_shape_witness:
  "isValidEmail ''ana@curry2cakes.com'' \<and> email_shape ''ana@curry2cakes.com''
   \<and> \<not> isValidEmail ''no-at-sign'' \<and> \<not> email_shape ''no-at-sign''
   \<and> \<not> isValidEmail ''@missing-local.com'' \<and> \<not> isValidEmail ''missing-domain@''
   \<and> \<not> isValidEmail ''a@b.c@d.e'' \<and> \<not> isValidEmail ''a b@c.de''"
proof -
  have shapes: "email_shape ''ana@curry2cakes.com''" "\<not> email_shape ''no-at-sign''"
    "\<not> email_shape ''@missing-local.com''" "\<not> email_shape ''missing-domain@''"
    "\<not> email_shape ''a@b.c@d.e''" "\<not> email_shape ''a b@c.de''"
    by (simp_all add: email_shape_def js_is_space_def)
  then show ?thesis using isValidEmail_shape by blast
qed

end
