(* ===== verification/InviteService.thy ===== *)
theory InviteService
  imports InviteCode EmailCheck
begin

text \<open>
  The invite registry of \<^verbatim>\<open>src/api/invite-service.js\<close>. Its state is the two
  module-level maps \<^verbatim>\<open>inviteCodes\<close> (code to invite record) and
  \<^verbatim>\<open>emailRequests\<close> (email to the last issuance), a \<open>service_state\<close>
  record here. Each exported function is a function of the clock reading
  \<^verbatim>\<open>Date.now()\<close>, its arguments and the state, returning its result and the
  new state: \<open>requestInviteCode\<close> (validation, the five-minute rate limit,
  generation, the two map writes, then the mail), \<open>validateInviteCode\<close>
  (unknown, used, expired, else redeem) and \<open>getInviteStats\<close>. The random
  bytes of the code are a parameter. The mail is sent by the mock
  \<open>sendInviteEmail\<close>, awaited after both maps are written; it always reports
  success, so the \<^verbatim>\<open>SendEmailFailed\<close> branch and the \<^verbatim>\<open>catch\<close>
  (\<open>InternalServerError\<close>, for exceptions the model's total functions never
  raise) are unreachable. The
  source reads the clock several times within one synchronous block; the model
  reads it once per call. Every early \<^verbatim>\<open>return\<close> of the source is a value
  of the \<open>request_error\<close> or \<open>validate_error\<close> types.
\<close>

record invite =
  inv_email :: string
  inv_userName :: string
  createdAt :: ms
  expiresAt :: ms
  used :: bool
  usedAt :: "ms option"

record email_request =
  req_timestamp :: ms
  req_inviteCode :: string

record service_state =
  inviteCodes :: "(string, invite) js_map"
  emailRequests :: "(string, email_request) js_map"

definition initial_service :: service_state where
  "initial_service = \<lparr>inviteCodes = [], emailRequests = []\<rparr>"

definition rate_limit_ms :: ms where
  "rate_limit_ms = 300000"

definition invite_validity_ms :: ms where
  "invite_validity_ms = 30 * 24 * 60 * 60 * 1000"

datatype send_outcome = SendSucceeded | SendFailed

text \<open>The mock mailer builds the message, waits a second and always reports
  success; the message and its id are never read by the caller.\<close>

definition sendInviteEmail :: "string \<Rightarrow> string \<Rightarrow> string \<Rightarrow> send_outcome" where
  "sendInviteEmail email inviteCode userName = SendSucceeded"

datatype request_error = InvalidEmailFormat | RateLimited | SendEmailFailed | InternalServerError

fun request_error_message :: "request_error \<Rightarrow> string" where
  "request_error_message InvalidEmailFormat = ''Invalid email address format''"
| "request_error_message RateLimited =
     ''Please wait 5 minutes before requesting another invite code''"
| "request_error_message SendEmailFailed = ''Failed to send email. Please try again later.''"
| "request_error_message InternalServerError =
     ''Internal server error. Please try again later.''"

definition request_success_message :: string where
  "request_success_message = ''Invite code sent successfully! Check your email in a few minutes.''"

definition rate_limited :: "ms \<Rightarrow> string \<Rightarrow> service_state \<Rightarrow> bool" where
  "rate_limited now email st =
     (case map_of (emailRequests st) email of
        None \<Rightarrow> False
      | Some r \<Rightarrow> now - req_timestamp r < rate_limit_ms)"

definition new_invite :: "ms \<Rightarrow> string \<Rightarrow> string \<Rightarrow> invite" where
  "new_invite now email userName =
     \<lparr>inv_email = email, inv_userName = userName, createdAt = now,
      expiresAt = now + invite_validity_ms, used = False, usedAt = None\<rparr>"

definition store_invite :: "ms \<Rightarrow> string \<Rightarrow> string \<Rightarrow> string \<Rightarrow> service_state \<Rightarrow> service_state" where
  "store_invite now code email userName st =
     st\<lparr>inviteCodes := AList.update code (new_invite now email userName) (inviteCodes st),
        emailRequests := AList.update email \<lparr>req_timestamp = now, req_inviteCode = code\<rparr>
                           (emailRequests st)\<rparr>"

definition requestInviteCode ::
  "ms \<Rightarrow> 8 word list \<Rightarrow> string \<Rightarrow> string \<Rightarrow> service_state
     \<Rightarrow> (request_error + string) \<times> service_state" where
  "requestInviteCode now random email userName st =
     (if \<not> isValidEmail email then (Inl InvalidEmailFormat, st)
      else if rate_limited now email st then (Inl RateLimited, st)
      else
        (let code = generateInviteCode now random;
             st' = store_invite now code email userName st
         in (case sendInviteEmail email code userName of
               SendSucceeded \<Rightarrow> Inr code
             | SendFailed \<Rightarrow> Inl SendEmailFailed, st')))"

datatype validate_error = InvalidInviteCode | AlreadyUsed | CodeExpired

fun validate_error_message :: "validate_error \<Rightarrow> string" where
  "validate_error_message InvalidInviteCode = ''Invalid invite code''"
| "validate_error_message AlreadyUsed = ''This invite code has already been used''"
| "validate_error_message CodeExpired = ''This invite code has expired''"

definition redeem :: "ms \<Rightarrow> invite \<Rightarrow> invite" where
  "redeem now entry = entry\<lparr>used := True, usedAt := Some now\<rparr>"

definition validateInviteCode ::
  "ms \<Rightarrow> string \<Rightarrow> service_state
     \<Rightarrow> (validate_error + string \<times> string) \<times> service_state" where
  "validateInviteCode now code st =
     (case map_of (inviteCodes st) code of
        None \<Rightarrow> (Inl InvalidInviteCode, st)
      | Some entry \<Rightarrow>
          if used entry then (Inl AlreadyUsed, st)
          else if now > expiresAt entry then (Inl CodeExpired, st)
          else (Inr (inv_email entry, inv_userName entry),
                st\<lparr>inviteCodes := AList.update code (redeem now entry) (inviteCodes st)\<rparr>))"

record invite_stats =
  stat_total :: int
  stat_used :: int
  stat_expired :: int
  stat_active :: int

definition is_expired_unused :: "ms \<Rightarrow> invite \<Rightarrow> bool" where
  "is_expired_unused now entry \<longleftrightarrow> now > expiresAt entry \<and> \<not> used entry"

definition getInviteStats :: "ms \<Rightarrow> service_state \<Rightarrow> invite_stats" where
  "getInviteStats now st =
     (let total = int (length (inviteCodes st));
          usedN = int (count_where used (inviteCodes st));
          expired = int (count_where (is_expired_unused now) (inviteCodes st))
      in \<lparr>stat_total = total, stat_used = usedN, stat_expired = expired,
          stat_active = total - usedN - expired\<rparr>)"

lemmas service_defs [service_simps] = requestInviteCode_def validateInviteCode_def
  store_invite_def rate_limited_def new_invite_def redeem_def getInviteStats_def
  initial_service_def

subsection \<open>Characteristic equations\<close>

lemma validateInviteCode_None:
  "map_of (inviteCodes st) code = None \<Longrightarrow>
     validateInviteCode now code st = (Inl InvalidInviteCode, st)"
  by (simp add: validateInviteCode_def)

lemma validateInviteCode_Some:
  "map_of (inviteCodes st) code = Some entry \<Longrightarrow>
     validateInviteCode now code st =
       (if used entry then (Inl AlreadyUsed, st)
        else if now > expiresAt entry then (Inl CodeExpired, st)
        else (Inr (inv_email entry, inv_userName entry),
              st\<lparr>inviteCodes := AList.update code (redeem now entry) (inviteCodes st)\<rparr>))"
  by (simp add: validateInviteCode_def)

lemma requestInviteCode_issue:
  "isValidEmail email \<Longrightarrow> \<not> rate_limited now email st \<Longrightarrow>
     snd (requestInviteCode now random email userName st)
       = store_invite now (generateInviteCode now random) email userName st"
  by (simp add: requestInviteCode_def Let_def)

lemma requestInviteCode_no_issue:
  "\<not> isValidEmail email \<or> rate_limited now email st \<Longrightarrow>
     snd (requestInviteCode now random email userName st) = st"
  by (auto simp: requestInviteCode_def)

lemma map_of_store_invite_code:
  "map_of (inviteCodes (store_invite now code email userName st)) code
     = Some (new_invite now email userName)"
  by (simp add: store_invite_def update_conv')

lemma map_of_store_invite_other:
  "c \<noteq> code \<Longrightarrow>
     map_of (inviteCodes (store_invite now code email userName st)) c = map_of (inviteCodes st) c"
  by (simp add: store_invite_def update_conv')

lemma map_of_store_invite_request:
  "map_of (emailRequests (store_invite now code email userName st)) email
     = Some \<lparr>req_timestamp = now, req_inviteCode = code\<rparr>"
  by (simp add: store_invite_def update_conv')

lemma map_of_redeem_update:
  "map_of (AList.update code (redeem now entry) m) = (map_of m)(code \<mapsto> redeem now entry)"
  by (rule update_conv')

lemma used_redeem [simp]: "used (redeem now entry) \<and> usedAt (redeem now entry) = Some now"
  by (simp add: redeem_def)

fun validate_all ::
  "ms list \<Rightarrow> string \<Rightarrow> service_state \<Rightarrow> (validate_error + string \<times> string) list \<times> service_state"
where
  "validate_all [] code st = ([], st)"
| "validate_all (t # ts) code st =
     (let (r, st') = validateInviteCode t code st;
          (rs, st'') = validate_all ts code st'
      in (r # rs, st''))"

fun request_all ::
  "(ms \<times> 8 word list) list \<Rightarrow> string \<Rightarrow> string \<Rightarrow> service_state
     \<Rightarrow> (request_error + string) list \<times> service_state"
where
  "request_all [] email userName st = ([], st)"
| "request_all ((t, r) # rs) email userName st =
     (let (x, st') = requestInviteCode t r email userName st;
          (xs, st'') = request_all rs email userName st'
      in (x # xs, st''))"

lemma validate_all_used:
  "map_of (inviteCodes st) code = Some entry \<Longrightarrow> used entry \<Longrightarrow>
     validate_all ts code st = (replicate (length ts) (Inl AlreadyUsed), st)"
  by (induction ts) (simp_all add: validateInviteCode_Some)

subsection \<open>Redemption\<close>

text \<open>
  C5. Redeeming a string that was never issued fails with \<open>InvalidInviteCode\<close>
  and leaves the registry unchanged.
\<close>

theorem validateInviteCode_unknown:
  "code \<notin> js_map_keys (inviteCodes st) \<Longrightarrow>
     validateInviteCode now code st = (Inl InvalidInviteCode, st)"
  by (simp add: validateInviteCode_None map_of_None_keys)

theorem validateInviteCode_unknown_witness:
  "''C2Cloyw3v28A'' \<notin> js_map_keys (inviteCodes initial_service)
   \<and> validateInviteCode 1700000000000 ''C2Cloyw3v28A'' initial_service
       = (Inl InvalidInviteCode, initial_service)"
  using validateInviteCode_unknown [of "''C2Cloyw3v28A''" initial_service 1700000000000]
  by (simp add: initial_service_def)

text \<open>
  C6. A code that has been used reports \<open>AlreadyUsed\<close> whatever the clock
  reads, also after its expiry: the used check comes before the expiry check.
\<close>

theorem validateInviteCode_used_first:
  "map_of (inviteCodes st) code = Some entry \<Longrightarrow> used entry \<Longrightarrow>
     validateInviteCode now code st = (Inl AlreadyUsed, st)"
  by (simp add: validateInviteCode_Some)

definition sample_used_invite :: invite where
  "sample_used_invite =
     \<lparr>inv_email = ''ana@curry2cakes.com'', inv_userName = ''Ana'', createdAt = 0,
      expiresAt = invite_validity_ms, used = True, usedAt = Some 5\<rparr>"

theorem validateInviteCode_used_first_witness:
  "map_of [(''C2C0A'', sample_used_invite)] ''C2C0A'' = Some sample_used_invite
   \<and> used sample_used_invite \<and> expiresAt sample_used_invite < 1700000000000
   \<and> validateInviteCode 1700000000000 ''C2C0A''
        \<lparr>inviteCodes = [(''C2C0A'', sample_used_invite)], emailRequests = []\<rparr>
      = (Inl AlreadyUsed, \<lparr>inviteCodes = [(''C2C0A'', sample_used_invite)], emailRequests = []\<rparr>)"
  using validateInviteCode_used_first
    [of "\<lparr>inviteCodes = [(''C2C0A'', sample_used_invite)], emailRequests = []\<rparr>"
        "''C2C0A''" sample_used_invite 1700000000000]
  by (simp add: sample_used_invite_def invite_validity_ms_def)

text \<open>
  C7. An unused code whose expiry time has passed reports \<open>CodeExpired\<close> and
  stays unused.
\<close>

theorem validateInviteCode_expired:
  "map_of (inviteCodes st) code = Some entry \<Longrightarrow> \<not> used entry \<Longrightarrow> expiresAt entry < now \<Longrightarrow>
     validateInviteCode now code st = (Inl CodeExpired, st)"
  by (simp add: validateInviteCode_Some)

theorem validateInviteCode_expired_witness:
  "map_of [(''C2C0A'', new_invite 0 ''ana@curry2cakes.com'' ''Ana'')] ''C2C0A''
     = Some (new_invite 0 ''ana@curry2cakes.com'' ''Ana'')
   \<and> \<not> used (new_invite 0 ''ana@curry2cakes.com'' ''Ana'')
   \<and> expiresAt (new_invite 0 ''ana@curry2cakes.com'' ''Ana'') < 1700000000000
   \<and> validateInviteCode 1700000000000 ''C2C0A''
        \<lparr>inviteCodes = [(''C2C0A'', new_invite 0 ''ana@curry2cakes.com'' ''Ana'')],
         emailRequests = []\<rparr>
      = (Inl CodeExpired,
         \<lparr>inviteCodes = [(''C2C0A'', new_invite 0 ''ana@curry2cakes.com'' ''Ana'')],
          emailRequests = []\<rparr>)"
  using validateInviteCode_expired
    [of "\<lparr>inviteCodes = [(''C2C0A'', new_invite 0 ''ana@curry2cakes.com'' ''Ana'')],
          emailRequests = []\<rparr>" "''C2C0A''" "new_invite 0 ''ana@curry2cakes.com'' ''Ana''"
        1700000000000]
  by (simp add: new_invite_def invite_validity_ms_def)

text \<open>
  C8. Redeeming an unused, unexpired code returns the email and name it was
  issued for and marks exactly that record used at the current time; no other
  code and no throttle entry changes.
\<close>

theorem validateInviteCode_redeems:
  assumes "map_of (inviteCodes st) code = Some entry" and "\<not> used entry"
    and "now \<le> expiresAt entry"
  shows "fst (validateInviteCode now code st) = Inr (inv_email entry, inv_userName entry)
    \<and> map_of (inviteCodes (snd (validateInviteCode now code st)))
        = (map_of (inviteCodes st))(code \<mapsto> entry\<lparr>used := True, usedAt := Some now\<rparr>)
    \<and> emailRequests (snd (validateInviteCode now code st)) = emailRequests st"
  using assms by (simp add: validateInviteCode_Some update_conv' redeem_def)

theorem validateInviteCode_redeems_witness:
  "fst (validateInviteCode 1700000000000 ''C2C0A''
         \<lparr>inviteCodes = [(''C2C0A'', new_invite 1700000000000 ''ana@curry2cakes.com'' ''Ana'')],
          emailRequests = []\<rparr>)
     = Inr (''ana@curry2cakes.com'', ''Ana'')"
  using validateInviteCode_redeems
    [of "\<lparr>inviteCodes = [(''C2C0A'', new_invite 1700000000000 ''ana@curry2cakes.com'' ''Ana'')],
          emailRequests = []\<rparr>" "''C2C0A''" "new_invite 1700000000000 ''ana@curry2cakes.com'' ''Ana''"
        1700000000000]
  by (simp add: new_invite_def invite_validity_ms_def)

text \<open>
  C9. A code is single-use: once a redemption has succeeded, every later
  redemption of the same code, at any time, fails with \<open>AlreadyUsed\<close>.
\<close>

theorem validateInviteCode_single_use:
  assumes "fst (validateInviteCode t1 code st) = Inr r"
  shows "validateInviteCode t2 code (snd (validateInviteCode t1 code st))
           = (Inl AlreadyUsed, snd (validateInviteCode t1 code st))"
proof -
  obtain entry where e: "map_of (inviteCodes st) code = Some entry" and "\<not> used entry"
    and "t1 \<le> expiresAt entry"
    using assms by (cases "map_of (inviteCodes st) code")
      (auto simp: validateInviteCode_def split: if_splits)
  then have "map_of (inviteCodes (snd (validateInviteCode t1 code st))) code
               = Some (redeem t1 entry)"
    by (simp add: validateInviteCode_Some map_of_redeem_update)
  then show ?thesis by (simp add: validateInviteCode_Some)
qed

theorem validateInviteCode_single_use_witness:
  "fst (validateInviteCode 1700000000000 ''C2C0A''
         \<lparr>inviteCodes = [(''C2C0A'', new_invite 1700000000000 ''ana@curry2cakes.com'' ''Ana'')],
          emailRequests = []\<rparr>) = Inr (''ana@curry2cakes.com'', ''Ana'')
   \<and> fst (validateInviteCode 1800000000000 ''C2C0A''
         (snd (validateInviteCode 1700000000000 ''C2C0A''
           \<lparr>inviteCodes = [(''C2C0A'', new_invite 1700000000000 ''ana@curry2cakes.com'' ''Ana'')],
            emailRequests = []\<rparr>))) = Inl AlreadyUsed"
  using validateInviteCode_single_use
    [of 1700000000000 "''C2C0A''"
        "\<lparr>inviteCodes = [(''C2C0A'', new_invite 1700000000000 ''ana@curry2cakes.com'' ''Ana'')],
          emailRequests = []\<rparr>" "(''ana@curry2cakes.com'', ''Ana'')" 1800000000000]
  by (simp add: validateInviteCode_def new_invite_def invite_validity_ms_def)

text \<open>
  C10. Redemption requests are handled one after another (each call runs to
  completion on the event loop), so of any number of attempts on one valid code
  exactly the first succeeds and every other one reports \<open>AlreadyUsed\<close>.
\<close>

theorem validate_all_exactly_one:
  assumes "map_of (inviteCodes st) code = Some entry" and "\<not> used entry"
    and "t \<le> expiresAt entry"
  shows "fst (validate_all (t # ts) code st)
           = Inr (inv_email entry, inv_userName entry) # replicate (length ts) (Inl AlreadyUsed)"
proof -
  define st' where "st' = st\<lparr>inviteCodes := AList.update code (redeem t entry) (inviteCodes st)\<rparr>"
  have first: "validateInviteCode t code st = (Inr (inv_email entry, inv_userName entry), st')"
    using assms by (simp add: validateInviteCode_Some st'_def)
  have "map_of (inviteCodes st') code = Some (redeem t entry)"
    by (simp add: st'_def map_of_redeem_update)
  then have "validate_all ts code st' = (replicate (length ts) (Inl AlreadyUsed), st')"
    by (rule validate_all_used) simp
  then show ?thesis by (simp add: first)
qed

theorem validate_all_exactly_one_witness:
  "fst (validate_all [1700000000000, 1700000000000, 1700000000001] ''C2C0A''
         \<lparr>inviteCodes = [(''C2C0A'', new_invite 1700000000000 ''ana@curry2cakes.com'' ''Ana'')],
          emailRequests = []\<rparr>)
     = [Inr (''ana@curry2cakes.com'', ''Ana''), Inl AlreadyUsed, Inl AlreadyUsed]"
  using validate_all_exactly_one
      [of "\<lparr>inviteCodes = [(''C2C0A'', new_invite 1700000000000 ''ana@curry2cakes.com'' ''Ana'')],
            emailRequests = []\<rparr>" "''C2C0A''"
          "new_invite 1700000000000 ''ana@curry2cakes.com'' ''Ana''"
          1700000000000 "[1700000000000, 1700000000001]"]
  by (simp add: new_invite_def invite_validity_ms_def numeral_2_eq_2 del: validate_all.simps)

subsection \<open>Issuing codes\<close>

lemma rate_limited_store_same:
  "rate_limited t2 email (store_invite t1 code email userName st) \<longleftrightarrow> t2 - t1 < rate_limit_ms"
  by (simp add: rate_limited_def map_of_store_invite_request)

lemma requestInviteCode_fresh_result:
  "isValidEmail email \<Longrightarrow> \<not> rate_limited now email st \<Longrightarrow>
     fst (requestInviteCode now random email userName st)
       = Inr (generateInviteCode now random)"
  by (simp add: requestInviteCode_def Let_def sendInviteEmail_def)

text \<open>
  C11. A malformed address is rejected with \<open>InvalidEmailFormat\<close> before
  anything is written.
\<close>

theorem requestInviteCode_invalid_email:
  "\<not> isValidEmail email \<Longrightarrow>
     requestInviteCode now random email userName st = (Inl InvalidEmailFormat, st)"
  by (simp add: requestInviteCode_def)

theorem requestInviteCode_invalid_email_witness:
  "\<not> isValidEmail ''no-at-sign''
   \<and> requestInviteCode 1700000000000 [0xAB, 0x12, 0x34, 0x56] ''no-at-sign'' ''''
        initial_service = (Inl InvalidEmailFormat, initial_service)"
proof -
  have h: "\<not> isValidEmail ''no-at-sign''" by (simp add: email_eval)
  show ?thesis using h requestInviteCode_invalid_email [OF h] by simp
qed

text \<open>
  C12. A request with a well-formed address outside its cooldown stores a new
  record under the generated code (expiring 30 days = 2592000000 ms later,
  unused), records the issuance time for the address, and returns the code (the
  mock mailer always reports success).
\<close>

theorem requestInviteCode_issues:
  assumes "isValidEmail email" and "\<not> rate_limited now email st"
  shows "fst (requestInviteCode now random email userName st)
           = Inr (generateInviteCode now random)
    \<and> map_of (inviteCodes (snd (requestInviteCode now random email userName st)))
        = (map_of (inviteCodes st))(generateInviteCode now random \<mapsto>
            \<lparr>inv_email = email, inv_userName = userName, createdAt = now,
             expiresAt = now + 2592000000, used = False, usedAt = None\<rparr>)
    \<and> map_of (emailRequests (snd (requestInviteCode now random email userName st)))
        = (map_of (emailRequests st))(email \<mapsto>
            \<lparr>req_timestamp = now, req_inviteCode = generateInviteCode now random\<rparr>)"
  using assms
  by (simp add: requestInviteCode_def Let_def store_invite_def new_invite_def
      invite_validity_ms_def update_conv' sendInviteEmail_def)

theorem requestInviteCode_issues_witness:
  "fst (requestInviteCode 1700000000000 [0xAB, 0x12, 0x34, 0x56]
          ''ana@x.co'' ''Ana'' initial_service) = Inr ''C2Cloyw3v28A''"
proof -
  have h: "isValidEmail ''ana@x.co''" "\<not> rate_limited 1700000000000 ''ana@x.co'' initial_service"
    by (simp_all add: email_eval rate_limited_def initial_service_def)
  have "generateInviteCode 1700000000000 [0xAB, 0x12, 0x34, 0x56] = ''C2Cloyw3v28A''"
    by (simp add: code_eval)
  then show ?thesis
    using requestInviteCode_issues [OF h, of "[0xAB, 0x12, 0x34, 0x56]" "''Ana''"] by simp
qed

text \<open>
  C13. After a code has been issued for an address at time \<open>t1\<close>, a request for
  the same address at \<open>t2\<close> is refused with \<open>RateLimited\<close> exactly when
  \<open>t2 - t1 < 300000\<close> ms (also when the clock went back), and is served otherwise.
\<close>

theorem requestInviteCode_rate_limit:
  assumes "isValidEmail email" and "\<not> rate_limited t1 email st"
  shows "fst (requestInviteCode t2 r2 email n2
                (snd (requestInviteCode t1 r1 email n1 st))) = Inl RateLimited
         \<longleftrightarrow> t2 - t1 < 300000"
proof -
  let ?st1 = "store_invite t1 (generateInviteCode t1 r1) email n1 st"
  have st1: "snd (requestInviteCode t1 r1 email n1 st) = ?st1"
    using assms by (rule requestInviteCode_issue)
  show ?thesis
  proof (cases "t2 - t1 < 300000")
    case True
    then have "rate_limited t2 email ?st1" by (simp add: rate_limited_store_same rate_limit_ms_def)
    with assms(1) have "requestInviteCode t2 r2 email n2 ?st1 = (Inl RateLimited, ?st1)"
      by (simp add: requestInviteCode_def)
    with True show ?thesis by (simp add: st1)
  next
    case False
    then have "\<not> rate_limited t2 email ?st1"
      by (simp add: rate_limited_store_same rate_limit_ms_def)
    with False assms(1) show ?thesis by (simp add: st1 requestInviteCode_fresh_result)
  qed
qed

theorem requestInviteCode_rate_limit_witness:
  "fst (requestInviteCode 1700000060000 [0x10, 0, 0, 0] ''ana@x.co'' ''''
          (snd (requestInviteCode 1700000000000 [0xAB, 0x12, 0x34, 0x56]
                  ''ana@x.co'' '''' initial_service))) = Inl RateLimited
   \<and> fst (requestInviteCode 1700000300000 [0x10, 0, 0, 0] ''ana@x.co'' ''''
          (snd (requestInviteCode 1700000000000 [0xAB, 0x12, 0x34, 0x56]
                  ''ana@x.co'' '''' initial_service))) \<noteq> Inl RateLimited"
proof -
  have h: "isValidEmail ''ana@x.co''" "\<not> rate_limited 1700000000000 ''ana@x.co'' initial_service"
    by (simp_all add: email_eval rate_limited_def initial_service_def)
  show ?thesis
    using requestInviteCode_rate_limit [OF h, of 1700000060000 "[0x10, 0, 0, 0]" "''''"
          "[0xAB, 0x12, 0x34, 0x56]" "''''"]
      requestInviteCode_rate_limit [OF h, of 1700000300000 "[0x10, 0, 0, 0]" "''''"
          "[0xAB, 0x12, 0x34, 0x56]" "''''"]
    by simp
qed

lemma request_all_limited:
  "isValidEmail email \<Longrightarrow> \<forall>(t, r) \<in> set rs. rate_limited t email st \<Longrightarrow>
     request_all rs email userName st = (replicate (length rs) (Inl RateLimited), st)"
  by (induction rs) (auto simp: requestInviteCode_def)

text \<open>
  C14. Requests for one address are throttled as a unit. Of any number of requests
  for a well-formed address, handled one after another (the route checks and sets
  the throttle entry before its first \<^verbatim>\<open>await\<close>, so no two requests
  interleave between the check and the set) at clock readings less than five
  minutes after the first, exactly the first is served; every later one is refused
  with \<open>RateLimited\<close>, and the registry holds just what the first one wrote.
\<close>

theorem request_all_one_per_window:
  assumes "isValidEmail email" and "\<not> rate_limited t0 email st"
    and "\<forall>(t, r) \<in> set rs. t - t0 < 300000"
  shows "request_all ((t0, r0) # rs) email userName st =
           (Inr (generateInviteCode t0 r0) # replicate (length rs) (Inl RateLimited),
            store_invite t0 (generateInviteCode t0 r0) email userName st)"
proof -
  let ?st1 = "store_invite t0 (generateInviteCode t0 r0) email userName st"
  have first: "requestInviteCode t0 r0 email userName st = (Inr (generateInviteCode t0 r0), ?st1)"
    using requestInviteCode_issue [OF assms(1,2)] requestInviteCode_fresh_result [OF assms(1,2)]
    by (metis prod.collapse)
  have "\<forall>(t, r) \<in> set rs. rate_limited t email ?st1"
    using assms(3) by (auto simp: rate_limited_store_same rate_limit_ms_def)
  then have "request_all rs email userName ?st1 = (replicate (length rs) (Inl RateLimited), ?st1)"
    by (rule request_all_limited [OF assms(1)])
  then show ?thesis by (simp add: first)
qed

theorem request_all_one_per_window_witness:
  "fst (request_all [(1700000000000, [0xAB, 0x12, 0x34, 0x56]), (1700000000000, [0x10, 0, 0, 0]),
                     (1700000299999, [0x20, 0, 0, 0])] ''ana@x.co'' '''' initial_service)
     = [Inr ''C2Cloyw3v28A'', Inl RateLimited, Inl RateLimited]"
proof -
  have h: "isValidEmail ''ana@x.co''" "\<not> rate_limited 1700000000000 ''ana@x.co'' initial_service"
    "\<forall>(t, r) \<in> set [(1700000000000::ms, [0x10, 0, 0, 0::8 word]), (1700000299999, [0x20, 0, 0, 0])].
       t - 1700000000000 < 300000"
    by (simp_all add: email_eval rate_limited_def initial_service_def)
  have "generateInviteCode 1700000000000 [0xAB, 0x12, 0x34, 0x56] = ''C2Cloyw3v28A''"
    by (simp add: code_eval)
  then show ?thesis
    using request_all_one_per_window [OF h, of "[0xAB, 0x12, 0x34, 0x56]" "''''"]
    by (simp add: numeral_2_eq_2)
qed

subsection \<open>Statistics\<close>

text \<open>
  C15. The statistics partition the records: \<open>total = used + expired + active\<close>
  with all three counts non-negative, since no record counts as both used and
  expired-unused.
\<close>

theorem getInviteStats_partition:
  "stat_total (getInviteStats now st)
     = stat_used (getInviteStats now st) + stat_expired (getInviteStats now st)
       + stat_active (getInviteStats now st)
   \<and> 0 \<le> stat_used (getInviteStats now st) \<and> 0 \<le> stat_expired (getInviteStats now st)
   \<and> 0 \<le> stat_active (getInviteStats now st)"
proof -
  have "count_where used (inviteCodes st) + count_where (is_expired_unused now) (inviteCodes st)
          \<le> length (inviteCodes st)"
    by (rule count_where_disjoint) (simp add: is_expired_unused_def)
  then show ?thesis by (simp add: getInviteStats_def Let_def)
qed

end
