(* ===== verification/InviteLifecycle.thy ===== *)
theory InviteLifecycle
  imports InviteService
begin

text \<open>
  The registry over time. \<open>service_reach t st\<close> holds for every state the
  exported functions of \<^verbatim>\<open>src/api/invite-service.js\<close> can produce from the
  empty maps when the clock never runs backwards: each rule is one call (a
  request, a redemption) at a clock reading \<open>t' \<ge> t\<close>, or the clock advancing
  (a statistics query does not change the state). The invariant
  \<open>service_inv\<close> is what the code keeps true of the two maps; the one-step
  lemmas show each operation keeps it, and rule induction lifts them to all
  reachable states. The second group shows that a used flag is never cleared
  by a step whose generated code is fresh.
\<close>

inductive service_reach :: "ms \<Rightarrow> service_state \<Rightarrow> bool" where
  start: "service_reach t initial_service"
| request: "service_reach t st \<Longrightarrow> t \<le> t' \<Longrightarrow>
     service_reach t' (snd (requestInviteCode t' random email userName st))"
| validate: "service_reach t st \<Longrightarrow> t \<le> t' \<Longrightarrow>
     service_reach t' (snd (validateInviteCode t' code st))"
| tick: "service_reach t st \<Longrightarrow> t \<le> t' \<Longrightarrow> service_reach t' st"

definition invite_ok :: "ms \<Rightarrow> invite \<Rightarrow> bool" where
  "invite_ok t e \<longleftrightarrow>
     expiresAt e = createdAt e + invite_validity_ms \<and> createdAt e \<le> t \<and>
     (case usedAt e of
        None \<Rightarrow> \<not> used e
      | Some u \<Rightarrow> used e \<and> createdAt e \<le> u \<and> u \<le> expiresAt e \<and> u \<le> t)"

definition service_inv :: "ms \<Rightarrow> service_state \<Rightarrow> bool" where
  "service_inv t st \<longleftrightarrow>
     js_map_wf (inviteCodes st) \<and> js_map_wf (emailRequests st) \<and>
     list_all (\<lambda>(c, e). invite_ok t e) (inviteCodes st) \<and>
     list_all (\<lambda>(m, r). req_timestamp r \<le> t \<and> req_inviteCode r \<in> js_map_keys (inviteCodes st))
       (emailRequests st)"

definition registry_wf :: "service_state \<Rightarrow> bool" where
  "registry_wf st \<longleftrightarrow>
     list_all (\<lambda>(c, e). take 3 c = ''C2C'' \<and> length c \<le> 12 \<and> isValidEmail (inv_email e))
       (inviteCodes st) \<and>
     list_all (\<lambda>(m, r). isValidEmail m \<and> take 3 (req_inviteCode r) = ''C2C'') (emailRequests st)"

subsection \<open>One step at a time\<close>

lemma invite_ok_mono: "invite_ok t e \<Longrightarrow> t \<le> t' \<Longrightarrow> invite_ok t' e"
  by (auto simp: invite_ok_def split: option.splits)

lemma service_inv_mono: "service_inv t st \<Longrightarrow> t \<le> t' \<Longrightarrow> service_inv t' st"
  by (auto simp: service_inv_def list_all_iff intro: invite_ok_mono)

lemma service_inv_initial: "service_inv t initial_service"
  by (simp add: service_inv_def initial_service_def)

lemma invite_ok_new: "invite_ok now (new_invite now email userName)"
  by (simp add: invite_ok_def new_invite_def)

lemma invite_ok_redeem:
  "invite_ok t e \<Longrightarrow> \<not> used e \<Longrightarrow> t \<le> now \<Longrightarrow> now \<le> expiresAt e \<Longrightarrow> invite_ok now (redeem now e)"
  by (auto simp: invite_ok_def redeem_def split: option.splits)

lemma service_inv_store:
  assumes "service_inv t st" and "t \<le> now"
  shows "service_inv now (store_invite now code email userName st)"
proof -
  have old: "list_all (\<lambda>(c, e). invite_ok now e) (inviteCodes st)"
    using assms by (auto simp: service_inv_def list_all_iff intro: invite_ok_mono)
  have reqs: "list_all (\<lambda>(m, r). req_timestamp r \<le> now
                 \<and> req_inviteCode r \<in> insert code (js_map_keys (inviteCodes st))) (emailRequests st)"
    using assms by (auto simp: service_inv_def list_all_iff)
  show ?thesis
    using assms(1) old reqs invite_ok_new
    by (auto simp: service_inv_def store_invite_def intro!: list_all_update)
qed

lemma service_inv_validate:
  assumes "service_inv t st" and "t \<le> now"
  shows "service_inv now (snd (validateInviteCode now code st))"
proof (cases "map_of (inviteCodes st) code")
  case None
  with assms show ?thesis by (simp add: validateInviteCode_None service_inv_mono)
next
  case (Some e)
  have e_ok: "invite_ok t e"
    using assms(1) Some by (auto simp: service_inv_def list_all_iff dest: map_of_SomeD)
  have key: "code \<in> js_map_keys (inviteCodes st)"
    using Some by (auto dest: map_of_SomeD intro: rev_image_eqI)
  show ?thesis
  proof (cases "used e \<or> now > expiresAt e")
    case True
    with assms Some show ?thesis by (auto simp: validateInviteCode_Some service_inv_mono)
  next
    case False
    then have ok: "invite_ok now (redeem now e)"
      using e_ok assms(2) by (auto intro: invite_ok_redeem)
    have old: "list_all (\<lambda>(c, e). invite_ok now e) (inviteCodes st)"
      using assms by (auto simp: service_inv_def list_all_iff intro: invite_ok_mono)
    have new: "list_all (\<lambda>(c, e). invite_ok now e) (AList.update code (redeem now e) (inviteCodes st))"
      using old by (rule list_all_update) (simp add: ok)
    have reqs: "list_all (\<lambda>(m, r). req_timestamp r \<le> now
                 \<and> req_inviteCode r \<in> insert code (js_map_keys (inviteCodes st))) (emailRequests st)"
      using assms by (auto simp: service_inv_def list_all_iff)
    show ?thesis
      using False Some assms(1) new reqs
      by (simp add: validateInviteCode_Some service_inv_def)
  qed
qed

lemma service_inv_request:
  "service_inv t st \<Longrightarrow> t \<le> now \<Longrightarrow>
     service_inv now (snd (requestInviteCode now random email userName st))"
  by (cases "\<not> isValidEmail email \<or> rate_limited now email st")
    (auto simp: requestInviteCode_no_issue requestInviteCode_issue service_inv_store
      service_inv_mono)

subsection \<open>Reachable states\<close>

text \<open>
  C17. In every state reachable with a clock that never runs backwards both maps
  have distinct keys; every record expires exactly 30 days after its creation,
  was created no later than now, is used exactly when it carries a redemption
  time, and that time lies between its creation and its expiry; and every
  throttle entry is no later than now and names a code present in the registry.
\<close>

theorem service_reach_inv: "service_reach t st \<Longrightarrow> service_inv t st"
proof (induction rule: service_reach.induct)
  case (start t)
  show ?case by (rule service_inv_initial)
next
  case (request t st t' random email userName)
  then show ?case by (blast intro: service_inv_request)
next
  case (validate t st t' code)
  then show ?case by (blast intro: service_inv_validate)
next
  case (tick t st t')
  then show ?case by (blast intro: service_inv_mono)
qed

theorem service_reach_inv_witness:
  "service_inv 1700000000000
     (snd (validateInviteCode 1700000000000 ''C2Cloyw3v28A''
       (snd (requestInviteCode 1700000000000 [0xAB, 0x12, 0x34, 0x56]
               ''ana@x.co'' ''Ana'' initial_service))))"
proof -
  have r: "service_reach 1700000000000
     (snd (validateInviteCode 1700000000000 ''C2Cloyw3v28A''
       (snd (requestInviteCode 1700000000000 [0xAB, 0x12, 0x34, 0x56]
               ''ana@x.co'' ''Ana'' initial_service))))"
    by (rule service_reach.validate [OF service_reach.request [OF service_reach.start order_refl]
          order_refl])
  show ?thesis by (rule service_reach_inv [OF r])
qed

subsection \<open>Shape of the stored data\<close>

lemma generateInviteCode_shape:
  "take 3 (generateInviteCode now random) = ''C2C'' \<and> length (generateInviteCode now random) \<le> 12"
  by (simp add: generateInviteCode_def)

lemma registry_wf_request:
  "registry_wf st \<Longrightarrow> registry_wf (snd (requestInviteCode now random email userName st))"
  by (cases "\<not> isValidEmail email \<or> rate_limited now email st")
    (auto simp: requestInviteCode_no_issue requestInviteCode_issue registry_wf_def store_invite_def
      new_invite_def generateInviteCode_shape intro!: list_all_update)

lemma registry_wf_validate:
  "registry_wf st \<Longrightarrow> registry_wf (snd (validateInviteCode now code st))"
proof (cases "map_of (inviteCodes st) code")
  case (Some e)
  assume wf: "registry_wf st"
  then have "take 3 code = ''C2C'' \<and> length code \<le> 12 \<and> isValidEmail (inv_email e)"
    using Some by (auto simp: registry_wf_def list_all_iff dest: map_of_SomeD)
  with wf Some show ?thesis
    by (auto simp: validateInviteCode_Some registry_wf_def redeem_def intro!: list_all_update)
qed (simp add: validateInviteCode_None)

text \<open>
  C16. The registry only ever holds data of the shape the service produces: in
  every reachable state each code is a string of at most 12 characters beginning
  with \<^verbatim>\<open>C2C\<close> and its record's address passes \<open>isValidEmail\<close>;
  each throttle entry is keyed by an address that passes the check and names a
  code beginning with \<^verbatim>\<open>C2C\<close>. Redemption keeps the address of the record
  it updates, and issuance writes only after the address check.
\<close>

theorem service_reach_registry_wf: "service_reach t st \<Longrightarrow> registry_wf st"
proof (induction rule: service_reach.induct)
  case (start t)
  show ?case by (simp add: registry_wf_def initial_service_def)
next
  case (request t st t' random email userName)
  then show ?case by (blast intro: registry_wf_request)
next
  case (validate t st t' code)
  then show ?case by (blast intro: registry_wf_validate)
next
  case (tick t st t')
  then show ?case by blast
qed

theorem service_reach_registry_wf_witness:
  "registry_wf (snd (requestInviteCode 1700000000000 [0x10, 0, 0, 0] ''bob@x.co'' ''''
     (snd (validateInviteCode 1700000000000 ''C2Cloyw3v28A''
       (snd (requestInviteCode 1700000000000 [0xAB, 0x12, 0x34, 0x56]
               ''ana@x.co'' ''Ana'' initial_service))))))"
  by (rule service_reach_registry_wf [OF service_reach.request [OF service_reach.validate
        [OF service_reach.request [OF service_reach.start order_refl] order_refl] order_refl]])

subsection \<open>Used flags\<close>

text \<open>
  C18. A used flag is never cleared by a redemption, nor by a request whose
  generated code is not already a key of the registry: the record of a used
  code is left exactly as it is.
\<close>

theorem used_flag_stable:
  assumes "map_of (inviteCodes st) c = Some e" and "used e"
  shows "(generateInviteCode now random \<notin> js_map_keys (inviteCodes st) \<longrightarrow>
            map_of (inviteCodes (snd (requestInviteCode now random email userName st))) c
              = Some e)
         \<and> map_of (inviteCodes (snd (validateInviteCode t code st))) c = Some e"
proof
  show "generateInviteCode now random \<notin> js_map_keys (inviteCodes st) \<longrightarrow>
          map_of (inviteCodes (snd (requestInviteCode now random email userName st))) c = Some e"
  proof
    assume fresh: "generateInviteCode now random \<notin> js_map_keys (inviteCodes st)"
    have "c \<in> js_map_keys (inviteCodes st)"
      using assms(1) by (auto dest: map_of_SomeD intro: rev_image_eqI)
    with fresh have "c \<noteq> generateInviteCode now random" by blast
    then show "map_of (inviteCodes (snd (requestInviteCode now random email userName st))) c
                 = Some e"
      using assms(1)
      by (cases "\<not> isValidEmail email \<or> rate_limited now email st")
        (auto simp: requestInviteCode_no_issue requestInviteCode_issue map_of_store_invite_other)
  qed
next
  show "map_of (inviteCodes (snd (validateInviteCode t code st))) c = Some e"
    using assms
    by (cases "code = c")
      (auto simp: validateInviteCode_def update_conv' split: option.splits if_splits)
qed

theorem used_flag_stable_witness:
  "map_of (inviteCodes (snd (requestInviteCode 1700000000000 [0xAB, 0x12, 0x34, 0x56]
       ''bob@x.co'' '''' \<lparr>inviteCodes = [(''C2C0A'', sample_used_invite)], emailRequests = []\<rparr>)))
     ''C2C0A'' = Some sample_used_invite"
proof -
  have fresh: "generateInviteCode 1700000000000 [0xAB, 0x12, 0x34, 0x56]
                 \<notin> js_map_keys [(''C2C0A'', sample_used_invite)]"
    by (simp add: code_eval)
  have used: "used sample_used_invite" by (simp add: sample_used_invite_def)
  show ?thesis
    using used_flag_stable [of "\<lparr>inviteCodes = [(''C2C0A'', sample_used_invite)], emailRequests = []\<rparr>"
        "''C2C0A''" sample_used_invite 1700000000000 "[0xAB, 0x12, 0x34, 0x56]"
        "''bob@x.co''" "''''"] fresh used
    by simp
qed

end
