(* ===== verification/InviteScenarios.thy ===== *)
theory InviteScenarios
  imports InviteLifecycle
begin

text \<open>
  Concrete runs of the registry of \<^verbatim>\<open>src/api/invite-service.js\<close>, evaluated
  step by step: the statistics scenario of the specification (clock
  1700000000000 ms, 14 November 2023). Then, for any registry, two requests
  in the same millisecond whose random bytes share the nibble the code keeps:
  the second \<^verbatim>\<open>inviteCodes.set\<close> overwrites a redeemed record with a
  fresh one.
\<close>

definition day_ms :: ms where
  "day_ms = 24 * 60 * 60 * 1000"

subsection \<open>The statistics scenario\<close>

lemma scen_code1: "generateInviteCode 1700000000000 [0x10, 0, 0, 0] = ''C2Cloyw3v281''"
  by (simp add: code_eval)

lemma scen_code2: "generateInviteCode 1700000000000 [0x20, 0, 0, 0] = ''C2Cloyw3v282''"
  by (simp add: code_eval)

lemma scen_code3: "generateInviteCode (1700000000000 + 20 * day_ms) [0x30, 0, 0, 0] = ''C2Clprgwwe83''"
  by (simp add: code_eval day_ms_def)

lemma scen_st1: "snd (requestInviteCode 1700000000000 [0x10, 0, 0, 0] ''a@x.co'' '''' initial_service)
  = \<lparr>inviteCodes = [(''C2Cloyw3v281'', new_invite 1700000000000 ''a@x.co'' '''')],
     emailRequests = [(''a@x.co'', \<lparr>req_timestamp = 1700000000000, req_inviteCode = ''C2Cloyw3v281''\<rparr>)]\<rparr>"
  by (simp add: requestInviteCode_def Let_def scen_code1 email_eval rate_limited_def initial_service_def store_invite_def)

lemma scen_st2: "snd (validateInviteCode 1700000000000 ''C2Cloyw3v281''
   \<lparr>inviteCodes = [(''C2Cloyw3v281'', new_invite 1700000000000 ''a@x.co'' '''')],
     emailRequests = [(''a@x.co'', \<lparr>req_timestamp = 1700000000000, req_inviteCode = ''C2Cloyw3v281''\<rparr>)]\<rparr>)
  = \<lparr>inviteCodes = [(''C2Cloyw3v281'', redeem 1700000000000 (new_invite 1700000000000 ''a@x.co'' ''''))],
     emailRequests = [(''a@x.co'', \<lparr>req_timestamp = 1700000000000, req_inviteCode = ''C2Cloyw3v281''\<rparr>)]\<rparr>"
  by (simp add: validateInviteCode_def new_invite_def invite_validity_ms_def)
lemma scen_st3: "snd (requestInviteCode 1700000000000 [0x20, 0, 0, 0] ''b@x.co'' ''''
   \<lparr>inviteCodes = [(''C2Cloyw3v281'', redeem 1700000000000 (new_invite 1700000000000 ''a@x.co'' ''''))],
     emailRequests = [(''a@x.co'', \<lparr>req_timestamp = 1700000000000, req_inviteCode = ''C2Cloyw3v281''\<rparr>)]\<rparr>)
  = \<lparr>inviteCodes = [(''C2Cloyw3v281'', redeem 1700000000000 (new_invite 1700000000000 ''a@x.co'' '''')),
                    (''C2Cloyw3v282'', new_invite 1700000000000 ''b@x.co'' '''')],
     emailRequests = [(''a@x.co'', \<lparr>req_timestamp = 1700000000000, req_inviteCode = ''C2Cloyw3v281''\<rparr>),
                      (''b@x.co'', \<lparr>req_timestamp = 1700000000000, req_inviteCode = ''C2Cloyw3v282''\<rparr>)]\<rparr>"
  by (simp add: requestInviteCode_def Let_def scen_code2 email_eval rate_limited_def store_invite_def)

lemma scen_st4: "snd (requestInviteCode (1700000000000 + 20 * day_ms) [0x30, 0, 0, 0] ''c@x.co'' ''''
   \<lparr>inviteCodes = [(''C2Cloyw3v281'', redeem 1700000000000 (new_invite 1700000000000 ''a@x.co'' '''')),
                    (''C2Cloyw3v282'', new_invite 1700000000000 ''b@x.co'' '''')],
     emailRequests = [(''a@x.co'', \<lparr>req_timestamp = 1700000000000, req_inviteCode = ''C2Cloyw3v281''\<rparr>),
                      (''b@x.co'', \<lparr>req_timestamp = 1700000000000, req_inviteCode = ''C2Cloyw3v282''\<rparr>)]\<rparr>)
  = \<lparr>inviteCodes = [(''C2Cloyw3v281'', redeem 1700000000000 (new_invite 1700000000000 ''a@x.co'' '''')),
                    (''C2Cloyw3v282'', new_invite 1700000000000 ''b@x.co'' ''''),
                    (''C2Clprgwwe83'', new_invite (1700000000000 + 20 * day_ms) ''c@x.co'' '''')],
     emailRequests = [(''a@x.co'', \<lparr>req_timestamp = 1700000000000, req_inviteCode = ''C2Cloyw3v281''\<rparr>),
                      (''b@x.co'', \<lparr>req_timestamp = 1700000000000, req_inviteCode = ''C2Cloyw3v282''\<rparr>),
                      (''c@x.co'', \<lparr>req_timestamp = 1700000000000 + 20 * day_ms,
                                   req_inviteCode = ''C2Clprgwwe83''\<rparr>)]\<rparr>"
  by (simp add: requestInviteCode_def Let_def scen_code3 email_eval rate_limited_def store_invite_def)

lemma scen_stats4: "getInviteStats (1700000000000 + 31 * day_ms)
   \<lparr>inviteCodes = [(''C2Cloyw3v281'', redeem 1700000000000 (new_invite 1700000000000 ''a@x.co'' '''')),
                    (''C2Cloyw3v282'', new_invite 1700000000000 ''b@x.co'' ''''),
                    (''C2Clprgwwe83'', new_invite (1700000000000 + 20 * day_ms) ''c@x.co'' '''')],
     emailRequests = es\<rparr>
   = \<lparr>stat_total = 3, stat_used = 1, stat_expired = 1, stat_active = 1\<rparr>"
  by (simp add: getInviteStats_def Let_def is_expired_unused_def new_invite_def redeem_def
      invite_validity_ms_def day_ms_def)

text \<open>
  The scenario of the specification: an empty registry reports all zeros;
  after issuing three codes, redeeming one and letting one expire (31 days
  later, while the code issued on day 20 is still valid) it reports 3 in total,
  1 used, 1 expired and 1 active.
\<close>

theorem getInviteStats_scenario:
  "getInviteStats 1700000000000 initial_service
     = \<lparr>stat_total = 0, stat_used = 0, stat_expired = 0, stat_active = 0\<rparr>
   \<and> (let T = 1700000000000;
         st1 = snd (requestInviteCode T [0x10, 0, 0, 0] ''a@x.co'' '''' initial_service);
         st2 = snd (validateInviteCode T (generateInviteCode T [0x10, 0, 0, 0]) st1);
         st3 = snd (requestInviteCode T [0x20, 0, 0, 0] ''b@x.co'' '''' st2);
         st4 = snd (requestInviteCode (T + 20 * day_ms) [0x30, 0, 0, 0]
                      ''c@x.co'' '''' st3)
     in getInviteStats (T + 31 * day_ms) st4
          = \<lparr>stat_total = 3, stat_used = 1, stat_expired = 1, stat_active = 1\<rparr>)"
  by (simp only: Let_def scen_st1 scen_code1 scen_st2 scen_st3 scen_st4 scen_stats4)
     (simp add: getInviteStats_def initial_service_def)


subsection \<open>Codes drawn twice\<close>

lemma emailRequests_validate [simp]:
  "emailRequests (snd (validateInviteCode now code st)) = emailRequests st"
  by (simp add: validateInviteCode_def split: option.split)

lemma rate_limited_store_other:
  "b \<noteq> a \<Longrightarrow> rate_limited now b (store_invite t c a n st) = rate_limited now b st"
  by (simp add: rate_limited_def store_invite_def update_conv')

lemma rate_limited_validate [simp]:
  "rate_limited now b (snd (validateInviteCode t code st)) = rate_limited now b st"
  by (simp add: rate_limited_def)

text \<open>
  C19. Uniqueness of codes is not enforced. Whenever two well-formed addresses
  outside their cooldown request a code in the same millisecond of the
  1972-2059 window and the first random bytes share their high nibble, both are
  given the same code. If the first address redeems it in between, the second
  \<^verbatim>\<open>inviteCodes.set\<close> replaces the redeemed record by an unused one, so
  the one code string is redeemed a second time, now for the second address, and
  the first address's throttle entry names a record that is no longer its own.
\<close>

theorem reissued_code_redeemed_twice:
  assumes "isValidEmail a" and "isValidEmail b" and "a \<noteq> b"
    and "\<not> rate_limited now a st" and "\<not> rate_limited now b st"
    and "36 ^ 7 \<le> now" and "now < 36 ^ 8"
    and "r1 \<noteq> []" and "r2 \<noteq> []" and "code_nibble r1 = code_nibble r2"
  shows "let c = generateInviteCode now r1;
             st1 = snd (requestInviteCode now r1 a na st);
             st2 = snd (validateInviteCode now c st1);
             st3 = snd (requestInviteCode now r2 b nb st2)
         in fst (requestInviteCode now r1 a na st) = Inr c
          \<and> fst (validateInviteCode now c st1) = Inr (a, na)
          \<and> map_of (inviteCodes st2) c = Some (redeem now (new_invite now a na))
          \<and> fst (requestInviteCode now r2 b nb st2) = Inr c
          \<and> map_of (inviteCodes st3) c = Some (new_invite now b nb)
          \<and> fst (validateInviteCode now c st3) = Inr (b, nb)
          \<and> map_of (emailRequests st3) a = Some \<lparr>req_timestamp = now, req_inviteCode = c\<rparr>"
proof -
  let ?c = "generateInviteCode now r1"
  let ?st1 = "store_invite now ?c a na st"
  let ?st2 = "snd (validateInviteCode now ?c ?st1)"
  have same: "generateInviteCode now r2 = ?c"
    using generateInviteCode_window [OF assms(6,7,8)] generateInviteCode_window [OF assms(6,7,9)]
      assms(10) by simp
  have st1: "snd (requestInviteCode now r1 a na st) = ?st1"
    by (rule requestInviteCode_issue [OF assms(1,4)])
  have v1: "validateInviteCode now ?c ?st1 =
              (Inr (a, na), ?st1\<lparr>inviteCodes := AList.update ?c (redeem now (new_invite now a na))
                                                   (inviteCodes ?st1)\<rparr>)"
    by (simp add: validateInviteCode_Some map_of_store_invite_code new_invite_def
        invite_validity_ms_def)
  have nb: "\<not> rate_limited now b ?st2"
    using assms(3,5) by (simp add: rate_limited_store_other)
  have st3: "snd (requestInviteCode now r2 b nb ?st2) = store_invite now ?c b nb ?st2"
    using requestInviteCode_issue [OF assms(2) nb] same by simp
  have r3: "fst (requestInviteCode now r2 b nb ?st2) = Inr ?c"
    using requestInviteCode_fresh_result [OF assms(2) nb] same by simp
  have rq: "map_of (emailRequests (store_invite now ?c b nb ?st2)) a
              = Some \<lparr>req_timestamp = now, req_inviteCode = ?c\<rparr>"
    using assms(3) by (simp add: store_invite_def update_conv' map_of_store_invite_request)
  show ?thesis
    using st1 v1 st3 r3 rq
    by (simp add: Let_def requestInviteCode_fresh_result [OF assms(1,4)] update_conv'
        map_of_store_invite_code validateInviteCode_Some new_invite_def invite_validity_ms_def)
qed

theorem reissued_code_redeemed_twice_witness:
  "let c = generateInviteCode 1700000000000 [0xAB, 0x12, 0x34, 0x56];
       st1 = snd (requestInviteCode 1700000000000 [0xAB, 0x12, 0x34, 0x56] ''ana@x.co'' '''' initial_service);
       st2 = snd (validateInviteCode 1700000000000 c st1);
       st3 = snd (requestInviteCode 1700000000000 [0xA0, 0, 0, 0] ''bob@x.co'' '''' st2)
   in fst (requestInviteCode 1700000000000 [0xAB, 0x12, 0x34, 0x56] ''ana@x.co'' '''' initial_service) = Inr c
    \<and> fst (validateInviteCode 1700000000000 c st1) = Inr (''ana@x.co'', '''')
    \<and> map_of (inviteCodes st2) c = Some (redeem 1700000000000 (new_invite 1700000000000 ''ana@x.co'' ''''))
    \<and> fst (requestInviteCode 1700000000000 [0xA0, 0, 0, 0] ''bob@x.co'' '''' st2) = Inr c
    \<and> map_of (inviteCodes st3) c = Some (new_invite 1700000000000 ''bob@x.co'' '''')
    \<and> fst (validateInviteCode 1700000000000 c st3) = Inr (''bob@x.co'', '''')
    \<and> map_of (emailRequests st3) ''ana@x.co'' = Some \<lparr>req_timestamp = 1700000000000, req_inviteCode = c\<rparr>"
proof -
  have h: "isValidEmail ''ana@x.co''" "isValidEmail ''bob@x.co''" "''ana@x.co'' \<noteq> ''bob@x.co''"
    "\<not> rate_limited 1700000000000 ''ana@x.co'' initial_service"
    "\<not> rate_limited 1700000000000 ''bob@x.co'' initial_service"
    "36 ^ 7 \<le> (1700000000000::ms)" "(1700000000000::ms) < 36 ^ 8"
    "[0xAB, 0x12, 0x34, 0x56::8 word] \<noteq> []" "[0xA0, 0, 0, 0::8 word] \<noteq> []"
    "code_nibble [0xAB, 0x12, 0x34, 0x56] = code_nibble [0xA0, 0, 0, 0]"
    by (simp_all add: email_eval rate_limited_def initial_service_def code_nibble_def)
  show ?thesis by (rule reissued_code_redeemed_twice [OF h])
qed

end
