(* ===== verification/Json.thy ===== *)
theory Json
  imports JsNumber
begin

text \<open>
  The JSON values that cross the HTTP boundary between \<^verbatim>\<open>src/api/server.js\<close>
  (\<^verbatim>\<open>res.json\<close>) and the client (\<^verbatim>\<open>response.data\<close> in
  \<^verbatim>\<open>src/services/api.js\<close>), with the JavaScript coercions the client applies
  to them: property access (\<open>js_get\<close>; \<open>None\<close> is \<^verbatim>\<open>undefined\<close>),
  truthiness in \<^verbatim>\<open>if (x)\<close> and \<^verbatim>\<open>x || y\<close> (\<open>js_truthy\<close>), and
  \<^verbatim>\<open>String(x)\<close> as \<^verbatim>\<open>new Error(x)\<close> and JSX text apply it
  (\<open>js_String\<close>). The model's numbers are integers; a JavaScript number
  is a double, so a value outside the doubles (\<open>js_number_of_int n \<noteq> n\<close>) is
  one no JavaScript program holds.
\<close>

datatype json =
    JNull
  | JBool bool
  | JNum int
  | JStr string
  | JArr "json list"
  | JObj "(string \<times> json) list"

text \<open>A JavaScript number is a double: an integer is rounded to 53 significant
  bits, halfway cases to the even neighbour (ECMA-262, 6.1.6.1, RoundMVResult).\<close>

fun nat_bits :: "nat \<Rightarrow> nat" where
  "nat_bits n = (if n = 0 then 0 else Suc (nat_bits (n div 2)))"

declare nat_bits.simps [simp del]

definition round_shift_even :: "nat \<Rightarrow> nat \<Rightarrow> nat" where
  "round_shift_even m e =
     (let q = m div 2 ^ e; r = m mod 2 ^ e
      in if e = 0 \<or> 2 * r < 2 ^ e then q
         else if 2 * r > 2 ^ e \<or> odd q then q + 1 else q)"

definition js_number_of_int :: "int \<Rightarrow> int" where
  "js_number_of_int i =
     (let m = nat \<bar>i\<bar>; e = nat_bits m - 53
      in sgn i * int (round_shift_even m e * 2 ^ e))"

definition js_get :: "json \<Rightarrow> string \<Rightarrow> json option" where
  "js_get v key = (case v of JObj fs \<Rightarrow> map_of fs key | _ \<Rightarrow> None)"

fun js_truthy :: "json option \<Rightarrow> bool" where
  "js_truthy None = False"
| "js_truthy (Some JNull) = False"
| "js_truthy (Some (JBool b)) = b"
| "js_truthy (Some (JNum n)) = (n \<noteq> 0)"
| "js_truthy (Some (JStr s)) = (s \<noteq> [])"
| "js_truthy (Some (JArr xs)) = True"
| "js_truthy (Some (JObj fs)) = True"

fun nat_toString10 :: "nat \<Rightarrow> string" where
  "nat_toString10 n =
     (if n < 10 then [digit36 n] else nat_toString10 (n div 10) @ [digit36 (n mod 10)])"

declare nat_toString10.simps [simp del]

definition js_toString10 :: "int \<Rightarrow> string" where
  "js_toString10 i =
     (if i < 0 then CHR ''-'' # nat_toString10 (nat (- i)) else nat_toString10 (nat i))"

fun js_join :: "string list \<Rightarrow> string" where
  "js_join [] = []"
| "js_join [s] = s"
| "js_join (s # ss) = s @ '','' @ js_join ss"

text \<open>\<^verbatim>\<open>String(x)\<close>: an array joins its elements with commas, \<^verbatim>\<open>null\<close>
  elements printing as the empty string.\<close>

fun js_String :: "json \<Rightarrow> string" where
  "js_String JNull = ''null''"
| "js_String (JBool b) = (if b then ''true'' else ''false'')"
| "js_String (JNum n) = js_toString10 n"
| "js_String (JStr s) = s"
| "js_String (JArr xs) =
     js_join (map (\<lambda>x. if x = JNull then [] else js_String x) xs)"
| "js_String (JObj fs) = ''[object Object]''"

text \<open>\<^verbatim>\<open>x || fallback\<close> where the result is used as a string.\<close>

definition js_or_string :: "json option \<Rightarrow> string \<Rightarrow> string" where
  "js_or_string v fb = (if js_truthy v then js_String (the v) else fb)"

definition js_is_digit :: "char \<Rightarrow> bool" where
  "js_is_digit c \<longleftrightarrow> 48 \<le> (of_char c :: nat) \<and> (of_char c :: nat) \<le> 57"

definition decimal_value :: "string \<Rightarrow> nat" where
  "decimal_value s = foldl (\<lambda>acc c. 10 * acc + (of_char c - 48)) 0 s"

lemma nat_bits_0 [simp]: "nat_bits 0 = 0"
  by (simp add: nat_bits.simps)

lemma nat_bits_pos: "0 < n \<Longrightarrow> nat_bits n = Suc (nat_bits (n div 2))"
  by (simp add: nat_bits.simps)

lemma js_get_JObj [simp]: "js_get (JObj fs) k = map_of fs k"
  by (simp add: js_get_def)

lemma js_or_string_str [simp]:
  "js_or_string (Some (JStr s)) fb = (if s = [] then fb else s)"
  by (simp add: js_or_string_def)

lemma js_or_string_None [simp]: "js_or_string None fb = fb"
  by (simp add: js_or_string_def)

lemma js_or_string_nonempty:
  "fb \<noteq> [] \<Longrightarrow> v \<in> {None, Some JNull} \<union> range (Some \<circ> JStr) \<Longrightarrow> js_or_string v fb \<noteq> []"
  by (auto simp: js_or_string_def)


lemma of_char_digit36 [simp]: "d < 10 \<Longrightarrow> of_char (digit36 d) = 48 + d"
  by (simp add: digit36_def)

lemma is_digit_digit36 [simp]: "d < 10 \<Longrightarrow> js_is_digit (digit36 d)"
  by (simp add: js_is_digit_def)

lemma decimal_value_snoc: "decimal_value (s @ [c]) = 10 * decimal_value s + (of_char c - 48)"
  by (simp add: decimal_value_def)

lemma nat_toString10_digits: "list_all js_is_digit (nat_toString10 n)"
proof (induction n rule: nat_toString10.induct)
  case (1 n)
  then show ?case by (subst nat_toString10.simps) simp
qed

lemma decimal_value_nat_toString10 [simp]: "decimal_value (nat_toString10 n) = n"
proof (induction n rule: nat_toString10.induct)
  case (1 n)
  show ?case
  proof (cases "n < 10")
    case True
    then show ?thesis by (subst nat_toString10.simps) (simp add: decimal_value_def)
  next
    case False
    with "1.IH" show ?thesis by (subst nat_toString10.simps) (simp add: decimal_value_snoc)
  qed
qed

end
