(* ===== verification/Server.thy ===== *)
theory Server
  imports Json InviteLifecycle
begin

text \<open>
  The HTTP boundary, \<^verbatim>\<open>src/api/server.js\<close>: the Express routes
  \<^verbatim>\<open>POST /api/invite/request\<close>, \<^verbatim>\<open>POST /api/invite/validate\<close>,
  \<^verbatim>\<open>GET /api/admin/stats\<close>, \<^verbatim>\<open>GET /api/health\<close> and the 404 handler,
  each a function from the parsed request and the registry state to a response
  (status and JSON body, \<open>json\<close> below) and the new state. The fields of a
  request body are strings or absent (\<open>None\<close> for \<^verbatim>\<open>undefined\<close>); a
  missing \<^verbatim>\<open>userName\<close> takes the default \<^verbatim>\<open>''\<close> of the service
  function. The clock, the ISO rendering of the clock that \<^verbatim>\<open>/api/health\<close>
  reports, and the random bytes are the environment of a call.
  CORS, request logging, \<^verbatim>\<open>dotenv\<close> and \<^verbatim>\<open>listen\<close> do not change
  responses or state and are not modelled; the \<^verbatim>\<open>catch\<close> blocks are
  unreachable because the model's service functions are total.
\<close>

record http_response =
  status :: nat
  body :: json

record server_env =
  env_now :: ms
  env_iso :: string
  env_random :: "8 word list"

datatype api_request =
    InviteRequest "string option" "string option"
  | InviteValidate "string option"
  | AdminStats
  | Health
  | UnknownEndpoint

definition error_body :: "bool \<Rightarrow> string \<Rightarrow> json" where
  "error_body flag msg = JObj [(''success'', JBool flag), (''error'', JStr msg)]"

definition invite_request_route ::
  "server_env \<Rightarrow> string option \<Rightarrow> string option \<Rightarrow> service_state \<Rightarrow> http_response \<times> service_state" where
  "invite_request_route env email userName st =
     (if email = None \<or> email = Some []
      then (\<lparr>status = 400, body = error_body False ''Email address is required''\<rparr>, st)
      else
        (let (r, st') = requestInviteCode (env_now env) (env_random env)
                          (the email) (case userName of None \<Rightarrow> [] | Some n \<Rightarrow> n) st
         in (case r of
               Inr code \<Rightarrow>
                 \<lparr>status = 200, body = JObj [(''success'', JBool True),
                    (''message'', JStr request_success_message), (''inviteCode'', JStr code)]\<rparr>
             | Inl err \<Rightarrow> \<lparr>status = 400, body = error_body False (request_error_message err)\<rparr>,
             st')))"

definition invite_validate_route ::
  "server_env \<Rightarrow> string option \<Rightarrow> service_state \<Rightarrow> http_response \<times> service_state" where
  "invite_validate_route env code st =
     (if code = None \<or> code = Some []
      then (\<lparr>status = 400, body = JObj [(''valid'', JBool False),
                                      (''error'', JStr ''Invite code is required'')]\<rparr>, st)
      else
        (let (r, st') = validateInviteCode (env_now env) (the code) st
         in (\<lparr>status = 200,
              body = (case r of
                        Inr (e, n) \<Rightarrow> JObj [(''valid'', JBool True), (''email'', JStr e),
                                            (''userName'', JStr n)]
                      | Inl err \<Rightarrow> JObj [(''valid'', JBool False),
                                         (''error'', JStr (validate_error_message err))])\<rparr>,
             st')))"

definition stats_json :: "invite_stats \<Rightarrow> json" where
  "stats_json s = JObj [(''total'', JNum (stat_total s)), (''used'', JNum (stat_used s)),
     (''expired'', JNum (stat_expired s)), (''active'', JNum (stat_active s))]"

definition admin_stats_route :: "server_env \<Rightarrow> service_state \<Rightarrow> http_response \<times> service_state" where
  "admin_stats_route env st =
     (\<lparr>status = 200, body = stats_json (getInviteStats (env_now env) st)\<rparr>, st)"

definition health_route :: "server_env \<Rightarrow> http_response" where
  "health_route env =
     \<lparr>status = 200, body = JObj [(''status'', JStr ''healthy''), (''timestamp'', JStr (env_iso env)),
                                (''service'', JStr ''curry2cakes-api'')]\<rparr>"

definition not_found_route :: http_response where
  "not_found_route = \<lparr>status = 404, body = JObj [(''error'', JStr ''Endpoint not found'')]\<rparr>"

fun server_handle :: "server_env \<Rightarrow> api_request \<Rightarrow> service_state \<Rightarrow> http_response \<times> service_state" where
  "server_handle env (InviteRequest email userName) st = invite_request_route env email userName st"
| "server_handle env (InviteValidate code) st = invite_validate_route env code st"
| "server_handle env AdminStats st = admin_stats_route env st"
| "server_handle env Health st = (health_route env, st)"
| "server_handle env UnknownEndpoint st = (not_found_route, st)"

lemmas route_defs = invite_request_route_def invite_validate_route_def admin_stats_route_def
  health_route_def not_found_route_def error_body_def stats_json_def

lemma invite_validate_route_code:
  "c \<noteq> [] \<Longrightarrow> invite_validate_route env (Some c) st =
     (\<lparr>status = 200,
       body = (case fst (validateInviteCode (env_now env) c st) of
                 Inr (e, n) \<Rightarrow> JObj [(''valid'', JBool True), (''email'', JStr e), (''userName'', JStr n)]
               | Inl err \<Rightarrow> JObj [(''valid'', JBool False), (''error'', JStr (validate_error_message err))])\<rparr>,
      snd (validateInviteCode (env_now env) c st))"
  by (simp add: invite_validate_route_def split: prod.splits)

lemma invite_request_route_email:
  "e \<noteq> [] \<Longrightarrow> invite_request_route env (Some e) userName st =
     (case fst (requestInviteCode (env_now env) (env_random env) e
                  (case userName of None \<Rightarrow> [] | Some n \<Rightarrow> n) st) of
        Inr code \<Rightarrow>
          \<lparr>status = 200, body = JObj [(''success'', JBool True),
             (''message'', JStr request_success_message), (''inviteCode'', JStr code)]\<rparr>
      | Inl err \<Rightarrow> \<lparr>status = 400, body = error_body False (request_error_message err)\<rparr>,
      snd (requestInviteCode (env_now env) (env_random env) e
             (case userName of None \<Rightarrow> [] | Some n \<Rightarrow> n) st))"
  by (simp add: invite_request_route_def split: prod.splits)

lemma server_handle_snd_cases:
  "snd (server_handle env req st) = st \<or>
   (\<exists>e u. req = InviteRequest (Some e) u \<and> e \<noteq> [] \<and>
      snd (server_handle env req st) = snd (requestInviteCode (env_now env) (env_random env)
        e (case u of None \<Rightarrow> [] | Some n \<Rightarrow> n) st)) \<or>
   (\<exists>c. req = InviteValidate (Some c) \<and> c \<noteq> [] \<and>
      fst (server_handle env req st) = fst (invite_validate_route env (Some c) st) \<and>
      snd (server_handle env req st) = snd (validateInviteCode (env_now env) c st))"
proof (cases req)
  case (InviteRequest email u)
  then show ?thesis
    by (cases email) (auto simp: invite_request_route_def invite_request_route_email
        split: prod.splits)
next
  case (InviteValidate code)
  then show ?thesis
    by (cases code) (auto simp: invite_validate_route_def split: prod.splits)
qed (simp_all add: admin_stats_route_def)
lemma invite_request_route_cases:
  "invite_request_route env email userName st \<in>
     {(\<lparr>status = 200, body = JObj [(''success'', JBool True),
         (''message'', JStr request_success_message), (''inviteCode'', JStr c)]\<rparr>, st') | c st'. True}
     \<union> {(\<lparr>status = 400, body = error_body False m\<rparr>, st') | m st'. True}"
  by (auto simp: invite_request_route_def split: prod.splits sum.splits)

subsection \<open>Properties of the routes\<close>

text \<open>
  C20. \<^verbatim>\<open>POST /api/invite/request\<close> answers with status 200 or 400, and
  200 exactly when the body's \<^verbatim>\<open>success\<close> field is \<^verbatim>\<open>true\<close>.
\<close>

theorem invite_request_route_status:
  "status (fst (invite_request_route env email userName st)) \<in> {200, 400} \<and>
   (status (fst (invite_request_route env email userName st)) = 200 \<longleftrightarrow>
    js_get (body (fst (invite_request_route env email userName st))) ''success'' = Some (JBool True))"
  using invite_request_route_cases [of env email userName st] by (auto simp: error_body_def)

text \<open>
  C21. \<^verbatim>\<open>POST /api/invite/validate\<close> never sends a \<^verbatim>\<open>success\<close> field,
  and it answers 200 for every nonempty code, whether the code is accepted or not;
  only a missing or empty code gets 400.
\<close>

theorem invite_validate_route_no_success:
  "js_get (body (fst (invite_validate_route env code st))) ''success'' = None \<and>
   (status (fst (invite_validate_route env code st)) = 200 \<longleftrightarrow> code \<noteq> None \<and> code \<noteq> Some [])"
  by (auto simp: invite_validate_route_def split: prod.splits sum.splits)

text \<open>
  The server refines the registry's lifecycle: whatever request it handles,
  at a clock reading no earlier than the last one, the new registry state is one
  the step relation \<open>service_reach\<close> reaches, so the invariant \<open>service_inv\<close> holds
  of every state the server can be in.
\<close>

lemma server_handle_reach:
  "service_reach t st \<Longrightarrow> t \<le> env_now env \<Longrightarrow>
     service_reach (env_now env) (snd (server_handle env req st))"
  using server_handle_snd_cases [of env req st]
  by (auto intro: service_reach.tick service_reach.request service_reach.validate)

lemma server_handle_reach_example:
  "service_reach 1700000000000
     (snd (server_handle \<lparr>env_now = 1700000000000, env_iso = ''2023-11-14T22:13:20.000Z'',
                          env_random = [0xAB, 0x12]\<rparr>
             (InviteRequest (Some ''ana@x.co'') None) initial_service))"
proof -
  define env where "env = \<lparr>env_now = 1700000000000, env_iso = ''2023-11-14T22:13:20.000Z'',
                            env_random = [0xAB, 0x12]\<rparr>"
  have "service_reach (env_now env)
          (snd (server_handle env (InviteRequest (Some ''ana@x.co'') None) initial_service))"
    by (rule server_handle_reach [OF service_reach.start [of 1700000000000]]) (simp add: env_def)
  then show ?thesis by (simp add: env_def)
qed

end
