(* ===== verification/ApiClient.thy ===== *)
theory ApiClient
  imports Server
begin

text \<open>
  The browser side of the HTTP boundary, \<^verbatim>\<open>src/services/api.js\<close>. What
  the network delivers for a call is a \<open>transport\<close>: the server's response,
  or no response at all (connection refused, the 10 s timeout). Axios resolves
  with the body for a 2xx status and rejects otherwise, keeping the body as
  \<^verbatim>\<open>error.response.data\<close>; the interceptors only log. Each exported
  function either returns \<^verbatim>\<open>response.data\<close> (\<open>Inr\<close>) or throws an
  \<^verbatim>\<open>Error\<close> whose message is the \<open>Inl\<close> string. The request each
  function sends is \<open>api_request\<close> of the server model, so a client call and
  the server route compose directly.
\<close>

datatype transport = Reply http_response | NoResponse

definition axios_settle :: "transport \<Rightarrow> json option + json" where
  "axios_settle r =
     (case r of
        NoResponse \<Rightarrow> Inl None
      | Reply resp \<Rightarrow>
          if 200 \<le> status resp \<and> status resp < 300 then Inr (body resp) else Inl (Some (body resp)))"

definition network_error_message :: string where
  "network_error_message = ''Network error. Please check your connection and try again.''"

definition api_call :: "string \<Rightarrow> transport \<Rightarrow> string + json" where
  "api_call fallback r =
     (case axios_settle r of
        Inr data \<Rightarrow> Inr data
      | Inl data \<Rightarrow>
          if js_truthy data then Inl (js_or_string (js_get (the data) ''error'') fallback)
          else Inl network_error_message)"

definition api_requestInviteCode_request :: "string \<Rightarrow> string \<Rightarrow> api_request" where
  "api_requestInviteCode_request email userName = InviteRequest (Some email) (Some userName)"

definition api_requestInviteCode :: "transport \<Rightarrow> string + json" where
  "api_requestInviteCode r = api_call ''Failed to request invite code'' r"

definition api_validateInviteCode_request :: "string \<Rightarrow> api_request" where
  "api_validateInviteCode_request code = InviteValidate (Some code)"

definition api_validateInviteCode :: "transport \<Rightarrow> string + json" where
  "api_validateInviteCode r = api_call ''Failed to validate invite code'' r"

definition api_getInviteStats :: "transport \<Rightarrow> string + json" where
  "api_getInviteStats r = api_call ''Failed to get statistics'' r"

definition api_healthCheck :: "transport \<Rightarrow> string + json" where
  "api_healthCheck r =
     (case axios_settle r of Inr data \<Rightarrow> Inr data | Inl _ \<Rightarrow> Inl ''API server is not responding'')"

lemma api_call_NoResponse [simp]: "api_call fb NoResponse = Inl network_error_message"
  by (simp add: api_call_def axios_settle_def)

lemma api_call_2xx:
  "200 \<le> status resp \<Longrightarrow> status resp < 300 \<Longrightarrow> api_call fb (Reply resp) = Inr (body resp)"
  by (simp add: api_call_def axios_settle_def)

lemma api_call_error_obj:
  "\<not> (200 \<le> status resp \<and> status resp < 300) \<Longrightarrow> body resp = JObj fs \<Longrightarrow>
     api_call fb (Reply resp) = Inl (js_or_string (map_of fs ''error'') fb)"
  by (simp add: api_call_def axios_settle_def)

lemma request_error_message_nonempty [simp]: "request_error_message err \<noteq> []"
  by (cases err) simp_all

lemma api_validate_server:
  "c \<noteq> [] \<Longrightarrow>
     api_validateInviteCode (Reply (fst (server_handle env (api_validateInviteCode_request c) st)))
       = Inr (case fst (validateInviteCode (env_now env) c st) of
                Inr (e, n) \<Rightarrow> JObj [(''valid'', JBool True), (''email'', JStr e), (''userName'', JStr n)]
              | Inl err \<Rightarrow> JObj [(''valid'', JBool False), (''error'', JStr (validate_error_message err))])"
  by (simp add: api_validateInviteCode_request_def api_validateInviteCode_def api_call_2xx
      invite_validate_route_code)

lemma api_request_server:
  "e \<noteq> [] \<Longrightarrow>
     api_requestInviteCode (Reply (fst (server_handle env (api_requestInviteCode_request e u) st)))
       = (case fst (requestInviteCode (env_now env) (env_random env) e u st) of
            Inr code \<Rightarrow> Inr (JObj [(''success'', JBool True),
               (''message'', JStr request_success_message), (''inviteCode'', JStr code)])
          | Inl err \<Rightarrow> Inl (request_error_message err))"
  by (simp add: api_requestInviteCode_request_def api_requestInviteCode_def api_call_2xx
      api_call_error_obj invite_request_route_email error_body_def split: sum.split)

text \<open>
  C24. Through \<^verbatim>\<open>api.js\<close>, a call of the running server's validation
  endpoint with a nonempty code never throws: it returns the server's body, whose
  \<^verbatim>\<open>valid\<close> field says whether the registry accepted the code and which
  has no \<^verbatim>\<open>success\<close> field. A call of the request endpoint with a nonempty
  address returns the body exactly when the registry issued a code, and otherwise
  throws an error carrying the registry's own error text.
\<close>

theorem api_server_roundtrip:
  assumes "c \<noteq> []" and "e \<noteq> []"
  shows "(\<exists>d. api_validateInviteCode (Reply (fst (server_handle env (api_validateInviteCode_request c) st)))
              = Inr d \<and> js_get d ''success'' = None \<and>
            js_get d ''valid'' = Some (JBool (\<not> isl (fst (validateInviteCode (env_now env) c st))))) \<and>
         api_requestInviteCode (Reply (fst (server_handle env (api_requestInviteCode_request e u) st)))
           = (case fst (requestInviteCode (env_now env) (env_random env) e u st) of
                Inr code \<Rightarrow> Inr (JObj [(''success'', JBool True),
                   (''message'', JStr request_success_message), (''inviteCode'', JStr code)])
              | Inl err \<Rightarrow> Inl (request_error_message err))"
  using assms api_validate_server [of c env st] api_request_server [of e env u st]
  by (simp split: sum.split prod.split)

theorem api_server_roundtrip_witness:
  "api_requestInviteCode (Reply (fst (server_handle
      \<lparr>env_now = 1700000000000, env_iso = ''2023-11-14T22:13:20.000Z'', env_random = [0xAB]\<rparr> (api_requestInviteCode_request ''ana@x'' '''') initial_service)))
     = Inl ''Invalid email address format'' \<and>
   (\<exists>d. api_validateInviteCode (Reply (fst (server_handle
      \<lparr>env_now = 1700000000000, env_iso = ''2023-11-14T22:13:20.000Z'', env_random = [0xAB]\<rparr> (api_validateInviteCode_request ''C2C0A'') initial_service)))
     = Inr d \<and> js_get d ''success'' = None \<and> js_get d ''valid'' = Some (JBool False))"
proof -
  have "\<not> isValidEmail ''ana@x''" by (simp add: email_eval)
  then show ?thesis
    using api_server_roundtrip [of "''C2C0A''" "''ana@x''"
        "\<lparr>env_now = 1700000000000, env_iso = ''2023-11-14T22:13:20.000Z'', env_random = [0xAB]\<rparr>" initial_service "''''"]
    by (simp add: requestInviteCode_def validateInviteCode_def initial_service_def)
qed

end
