(* ===== verification/Auth.thy ===== *)
theory Auth
  imports Prelude
begin

text \<open>
  The Google sign-in wrapper, \<^verbatim>\<open>src/services/auth.js\<close>. Firebase itself is
  the environment: the outcome of the popup, of the redirect and of
  \<^verbatim>\<open>signOut\<close> (resolved, or rejected with an error code and message) is a
  parameter, and the current Firebase user is a value of \<open>fb_user option\<close>.
  Each exported function is the mapping the file applies to that outcome; a
  JavaScript \<^verbatim>\<open>null\<close> field is \<open>None\<close>, and a missing
  \<^verbatim>\<open>error.code\<close> or \<^verbatim>\<open>error.message\<close> is the empty string
  (both are falsy there). The analytics calls (\<^verbatim>\<open>gtag\<close>) have no effect
  on results and are not modelled.
\<close>

record fb_user =
  fb_uid :: string
  fb_email :: "string option"
  fb_displayName :: "string option"
  fb_photoURL :: "string option"
  fb_emailVerified :: bool

datatype 'a firebase_outcome = Resolved 'a | Rejected string string

record auth_failure =
  fail_error :: string
  fail_code :: string

definition project_user :: "fb_user \<Rightarrow> fb_user" where
  "project_user u = \<lparr>fb_uid = fb_uid u, fb_email = fb_email u, fb_displayName = fb_displayName u,
     fb_photoURL = fb_photoURL u, fb_emailVerified = fb_emailVerified u\<rparr>"

definition message_or :: "string \<Rightarrow> string \<Rightarrow> string" where
  "message_or msg fb = (if msg = [] then fb else msg)"

definition signInWithGoogle :: "fb_user firebase_outcome \<Rightarrow> auth_failure + fb_user" where
  "signInWithGoogle r =
     (case r of
        Resolved u \<Rightarrow> Inr (project_user u)
      | Rejected code msg \<Rightarrow>
          if code = ''auth/popup-blocked'' then
            Inl \<lparr>fail_error = ''Popup was blocked. Please allow popups for this site and try again.'',
                 fail_code = ''popup-blocked''\<rparr>
          else if code = ''auth/popup-closed-by-user'' then
            Inl \<lparr>fail_error = ''Sign-in was cancelled.'', fail_code = ''cancelled''\<rparr>
          else if code = ''auth/network-request-failed'' then
            Inl \<lparr>fail_error = ''Network error. Please check your connection and try again.'',
                 fail_code = ''network-error''\<rparr>
          else Inl \<lparr>fail_error = message_or msg ''An error occurred during sign-in.'',
                    fail_code = code\<rparr>)"

definition signInWithGoogleRedirect :: "unit firebase_outcome \<Rightarrow> auth_failure + unit" where
  "signInWithGoogleRedirect r =
     (case r of
        Resolved _ \<Rightarrow> Inr ()
      | Rejected code msg \<Rightarrow>
          Inl \<lparr>fail_error = message_or msg ''An error occurred during sign-in.'', fail_code = code\<rparr>)"

definition handleRedirectResult :: "fb_user option firebase_outcome \<Rightarrow> auth_failure + fb_user option" where
  "handleRedirectResult r =
     (case r of
        Resolved u \<Rightarrow> Inr (map_option project_user u)
      | Rejected code msg \<Rightarrow>
          Inl \<lparr>fail_error = message_or msg ''An error occurred during sign-in.'', fail_code = code\<rparr>)"

definition signOutUser :: "unit firebase_outcome \<Rightarrow> string + unit" where
  "signOutUser r =
     (case r of
        Resolved _ \<Rightarrow> Inr ()
      | Rejected code msg \<Rightarrow> Inl (message_or msg ''An error occurred during sign-out.''))"

definition onAuthStateChange :: "fb_user option \<Rightarrow> fb_user option" where
  "onAuthStateChange u = map_option project_user u"

definition getCurrentUser :: "fb_user option \<Rightarrow> fb_user option" where
  "getCurrentUser current = map_option project_user current"

definition isAuthenticated_fb :: "fb_user option \<Rightarrow> bool" where
  "isAuthenticated_fb current \<longleftrightarrow> current \<noteq> None"

lemma project_user_id [simp]: "project_user u = u"
  by (simp add: project_user_def)

lemma message_or_nonempty [simp]: "fb \<noteq> [] \<Longrightarrow> message_or msg fb \<noteq> []"
  by (simp add: message_or_def)

lemma signInWithGoogle_Inl: "signInWithGoogle r = Inl f \<Longrightarrow> fail_error f \<noteq> []"
  by (cases r) (auto simp: signInWithGoogle_def split: if_splits)

lemma signOutUser_Inl: "signOutUser s = Inl m \<Longrightarrow> m \<noteq> []"
  by (cases s) (auto simp: signOutUser_def)

text \<open>
  A failed Google sign-in always carries a nonempty error message (so the
  sign-in page, which shows \<^verbatim>\<open>authError\<close> only when it is truthy, always
  shows why), and so does a failed sign-out; a successful sign-in passes the
  Firebase user through unchanged.
\<close>

theorem signInWithGoogle_error_nonempty:
  "(signInWithGoogle r = Inl f \<longrightarrow> fail_error f \<noteq> []) \<and>
   (signOutUser s = Inl m \<longrightarrow> m \<noteq> []) \<and>
   (r = Resolved u \<longrightarrow> signInWithGoogle r = Inr u)"
  using signInWithGoogle_Inl signOutUser_Inl by (simp add: signInWithGoogle_def)

theorem signInWithGoogle_error_nonempty_witness:
  "fail_error (\<lparr>fail_error = ''An error occurred during sign-in.'', fail_code = ''auth/internal-error''\<rparr>) \<noteq> []
   \<and> signInWithGoogle (Rejected ''auth/internal-error'' '''')
       = Inl \<lparr>fail_error = ''An error occurred during sign-in.'', fail_code = ''auth/internal-error''\<rparr>"
  using signInWithGoogle_error_nonempty [of "Rejected ''auth/internal-error'' ''''"
      "\<lparr>fail_error = ''An error occurred during sign-in.'', fail_code = ''auth/internal-error''\<rparr>"]
  by (simp add: signInWithGoogle_def message_or_def)

end
