(* ===== verification/Client.thy ===== *)
theory Client
  imports ApiClient Auth
begin

text \<open>
  The single-page client, \<^verbatim>\<open>src/App.jsx\<close>. The React state of the
  \<^verbatim>\<open>useAuth\<close> hook is \<open>auth_state\<close>; the state of the page-level
  \<^verbatim>\<open>InviteCodeForm\<close> is \<open>form_state\<close>; \<open>app_state\<close> adds
  \<^verbatim>\<open>currentPage\<close> of \<^verbatim>\<open>App\<close>. Every \<^verbatim>\<open>await\<close> splits a
  handler into the part that runs when it is invoked and the part that runs when
  the awaited promise settles; \<open>client_event\<close> names these parts and the
  Firebase listener callback, and \<open>client_step\<close> applies one of them. The
  form is mounted exactly while \<open>render_app\<close> shows the invite page, and a
  remount starts from its initial state; updates of an unmounted form are
  dropped, as React drops them. Analytics calls and console logging are not
  modelled.
\<close>

record app_user =
  au_uid :: string
  au_name :: string
  au_email :: "string option"
  au_photoURL :: "string option"
  au_emailVerified :: bool

record auth_state =
  user :: "app_user option"
  isAuthenticated :: bool
  hasValidInvite :: bool
  loading :: bool
  authError :: "string option"

definition initial_auth :: auth_state where
  "initial_auth = \<lparr>user = None, isAuthenticated = False, hasValidInvite = False, loading = True,
                   authError = None\<rparr>"

definition app_user_of :: "fb_user \<Rightarrow> app_user" where
  "app_user_of u = \<lparr>au_uid = fb_uid u,
     au_name = (case fb_displayName u of None \<Rightarrow> ''User'' | Some n \<Rightarrow> message_or n ''User''),
     au_email = fb_email u, au_photoURL = fb_photoURL u, au_emailVerified = fb_emailVerified u\<rparr>"

definition auth_listener :: "fb_user option \<Rightarrow> auth_state \<Rightarrow> auth_state" where
  "auth_listener u st =
     (case u of
        Some fu \<Rightarrow> st\<lparr>user := Some (app_user_of fu), isAuthenticated := True, loading := False\<rparr>
      | None \<Rightarrow> st\<lparr>user := None, isAuthenticated := False, hasValidInvite := False, loading := False\<rparr>)"

definition login_start :: "auth_state \<Rightarrow> auth_state" where
  "login_start st = st\<lparr>authError := None, loading := True\<rparr>"

definition login_finish :: "auth_failure + fb_user \<Rightarrow> auth_state \<Rightarrow> bool \<times> auth_state" where
  "login_finish r st =
     (case r of
        Inl f \<Rightarrow> (False, st\<lparr>authError := Some (fail_error f), loading := False\<rparr>)
      | Inr _ \<Rightarrow> (True, st))"

definition logout_start :: "auth_state \<Rightarrow> auth_state" where
  "logout_start st = st\<lparr>loading := True\<rparr>"

definition logout_finish :: "auth_state \<Rightarrow> auth_state" where
  "logout_finish st = st\<lparr>loading := False\<rparr>"

record client_result =
  cr_success :: bool
  cr_error :: "json option"

definition fallback_codes :: "string list" where
  "fallback_codes = [''C2C2023'', ''EXCLUSIVE2024'', ''INNER2024'', ''SWEET2024'']"

definition useAuth_validateInviteCode ::
  "string \<Rightarrow> string + json \<Rightarrow> auth_state \<Rightarrow> client_result \<times> auth_state" where
  "useAuth_validateInviteCode code r st =
     (case r of
        Inr result \<Rightarrow>
          if js_truthy (js_get result ''success'')
          then (\<lparr>cr_success = True, cr_error = None\<rparr>, st\<lparr>hasValidInvite := True\<rparr>)
          else (\<lparr>cr_success = False, cr_error = js_get result ''error''\<rparr>, st)
      | Inl _ \<Rightarrow>
          if js_toUpperCase code \<in> set fallback_codes
          then (\<lparr>cr_success = True, cr_error = None\<rparr>, st\<lparr>hasValidInvite := True\<rparr>)
          else (\<lparr>cr_success = False, cr_error = Some (JStr ''Invalid invite code. Please try again.'')\<rparr>,
                st))"

definition request_failed_status :: string where
  "request_failed_status = ''Unable to send invite code at this time. Please try again later.''"

definition useAuth_requestInviteCode :: "string + json \<Rightarrow> json" where
  "useAuth_requestInviteCode r =
     (case r of
        Inr result \<Rightarrow> result
      | Inl _ \<Rightarrow> JObj [(''success'', JBool False),
          (''error'', JStr request_failed_status)])"


record form_state =
  f_code :: string
  f_email :: string
  f_loading :: bool
  f_requestLoading :: bool
  f_message :: string
  f_requestStatus :: string

definition form_init :: "app_user option \<Rightarrow> form_state" where
  "form_init u = \<lparr>f_code = [],
     f_email = (case u of None \<Rightarrow> [] | Some usr \<Rightarrow> (case au_email usr of None \<Rightarrow> [] | Some e \<Rightarrow> e)),
     f_loading = False, f_requestLoading = False, f_message = [], f_requestStatus = []\<rparr>"

definition invalid_code_message :: string where
  "invalid_code_message = ''Invalid invite code. Please try again.''"

definition request_sent_status :: string where
  "request_sent_status = ''Invite code sent! Check your email and enter the code above.''"

definition handleSubmit_start :: "form_state \<Rightarrow> string option \<times> form_state" where
  "handleSubmit_start fs =
     (if js_trim (f_code fs) = [] then (None, fs)
      else (Some (js_trim (f_code fs)), fs\<lparr>f_loading := True, f_message := []\<rparr>))"

definition handleSubmit_finish :: "client_result \<Rightarrow> form_state \<Rightarrow> bool \<times> form_state" where
  "handleSubmit_finish res fs =
     (if cr_success res then (True, fs\<lparr>f_message := [], f_loading := False\<rparr>)
      else (False, fs\<lparr>f_message := js_or_string (cr_error res) invalid_code_message,
                      f_loading := False\<rparr>))"

definition handleRequestInvite_start :: "form_state \<Rightarrow> string option \<times> form_state" where
  "handleRequestInvite_start fs =
     (if js_trim (f_email fs) = []
      then (None, fs\<lparr>f_requestStatus := ''Please enter a valid email address.''\<rparr>)
      else (Some (js_trim (f_email fs)), fs\<lparr>f_requestLoading := True, f_requestStatus := []\<rparr>))"

definition handleRequestInvite_finish :: "json \<Rightarrow> form_state \<Rightarrow> form_state" where
  "handleRequestInvite_finish result fs =
     fs\<lparr>f_requestStatus :=
          (if js_truthy (js_get result ''success'') then request_sent_status
           else js_or_string (js_get result ''error'') ''Unable to send invite code. Please try again.''),
        f_requestLoading := False\<rparr>"

definition verify_disabled :: "form_state \<Rightarrow> bool" where
  "verify_disabled fs \<longleftrightarrow> f_loading fs \<or> js_trim (f_code fs) = []"

definition request_disabled :: "form_state \<Rightarrow> bool" where
  "request_disabled fs \<longleftrightarrow> f_requestLoading fs \<or> js_trim (f_email fs) = []"

definition request_status_green :: "form_state \<Rightarrow> bool" where
  "request_status_green fs \<longleftrightarrow> js_includes (f_requestStatus fs) ''sent''"

datatype page = PageLanding | PageSignIn | PageInvite | PageMenu

record app_state =
  auth :: auth_state
  currentPage :: page
  form :: "form_state option"

datatype view = ViewLoading | ViewSignIn | ViewLanding | ViewInvite | ViewMenu

definition render_app :: "app_state \<Rightarrow> view" where
  "render_app a =
     (if loading (auth a) \<and> currentPage a = PageLanding then ViewLoading
      else if \<not> isAuthenticated (auth a) then
        (if currentPage a = PageSignIn then ViewSignIn else ViewLanding)
      else if \<not> hasValidInvite (auth a) then ViewInvite
      else ViewMenu)"

definition sync_form :: "app_state \<Rightarrow> app_state" where
  "sync_form a =
     (if render_app a = ViewInvite
      then (case form a of None \<Rightarrow> a\<lparr>form := Some (form_init (user (auth a)))\<rparr> | Some _ \<Rightarrow> a)
      else a\<lparr>form := None\<rparr>)"

definition initial_app :: app_state where
  "initial_app = sync_form \<lparr>auth = initial_auth, currentPage = PageLanding, form = None\<rparr>"

datatype client_event =
    AuthChanged "fb_user option"
  | GetStarted
  | SignInClick
  | SignInSettled "fb_user firebase_outcome"
  | LogoutClick
  | LogoutSettled
  | TypeCode string
  | TypeEmail string
  | SubmitCode
  | SubmitSettled string transport
  | RequestInvite
  | RequestSettled transport

definition update_form :: "(form_state \<Rightarrow> form_state) \<Rightarrow> app_state \<Rightarrow> app_state" where
  "update_form f a = a\<lparr>form := map_option f (form a)\<rparr>"

fun client_step_raw :: "client_event \<Rightarrow> app_state \<Rightarrow> app_state" where
  "client_step_raw (AuthChanged u) a = a\<lparr>auth := auth_listener (onAuthStateChange u) (auth a)\<rparr>"
| "client_step_raw GetStarted a = a\<lparr>currentPage := PageSignIn\<rparr>"
| "client_step_raw SignInClick a = a\<lparr>auth := login_start (auth a)\<rparr>"
| "client_step_raw (SignInSettled r) a =
     (let (ok, st') = login_finish (signInWithGoogle r) (auth a)
      in a\<lparr>auth := st', currentPage := (if ok then PageInvite else currentPage a)\<rparr>)"
| "client_step_raw LogoutClick a = a\<lparr>auth := logout_start (auth a)\<rparr>"
| "client_step_raw LogoutSettled a = a\<lparr>auth := logout_finish (auth a), currentPage := PageLanding\<rparr>"
| "client_step_raw (TypeCode s) a = update_form (\<lambda>fs. fs\<lparr>f_code := s\<rparr>) a"
| "client_step_raw (TypeEmail s) a = update_form (\<lambda>fs. fs\<lparr>f_email := s\<rparr>) a"
| "client_step_raw SubmitCode a = update_form (\<lambda>fs. snd (handleSubmit_start fs)) a"
| "client_step_raw (SubmitSettled c r) a =
     (let (res, st') = useAuth_validateInviteCode c (api_validateInviteCode r) (auth a)
      in update_form (\<lambda>fs. snd (handleSubmit_finish res fs))
           (a\<lparr>auth := st', currentPage := (if cr_success res then PageMenu else currentPage a)\<rparr>))"
| "client_step_raw RequestInvite a = update_form (\<lambda>fs. snd (handleRequestInvite_start fs)) a"
| "client_step_raw (RequestSettled r) a =
     update_form (handleRequestInvite_finish (useAuth_requestInviteCode (api_requestInviteCode r))) a"

definition client_step :: "client_event \<Rightarrow> app_state \<Rightarrow> app_state" where
  "client_step ev a = sync_form (client_step_raw ev a)"


fun run_client :: "client_event list \<Rightarrow> app_state \<Rightarrow> app_state" where
  "run_client [] a = a"
| "run_client (ev # evs) a = run_client evs (client_step ev a)"

inductive client_reach :: "app_state \<Rightarrow> bool" where
  start: "client_reach initial_app"
| step: "client_reach a \<Longrightarrow> client_reach (client_step ev a)"

definition client_inv :: "app_state \<Rightarrow> bool" where
  "client_inv a \<longleftrightarrow>
     (isAuthenticated (auth a) \<longleftrightarrow> user (auth a) \<noteq> None) \<and>
     (form a \<noteq> None \<longleftrightarrow> render_app a = ViewInvite)"

subsection \<open>Rendering and mounting\<close>

lemma request_failed_status_nonempty [simp]: "request_failed_status \<noteq> []"
  by (simp add: request_failed_status_def)

lemma render_app_cong:
  "auth a = auth b \<Longrightarrow> currentPage a = currentPage b \<Longrightarrow> render_app a = render_app b"
  by (simp add: render_app_def)

lemma sync_form_auth [simp]:
  "auth (sync_form a) = auth a \<and> currentPage (sync_form a) = currentPage a"
  by (simp add: sync_form_def split: option.split)

lemma render_sync_form [simp]: "render_app (sync_form a) = render_app a"
  by (rule render_app_cong) simp_all

lemma render_app_form_update [simp]: "render_app (a\<lparr>form := x\<rparr>) = render_app a"
  by (simp add: render_app_def)

lemma sync_form_mounted: "form (sync_form a) \<noteq> None \<longleftrightarrow> render_app a = ViewInvite"
  by (simp add: sync_form_def split: option.split)

lemma update_form_auth [simp]:
  "auth (update_form f a) = auth a \<and> currentPage (update_form f a) = currentPage a"
  by (simp add: update_form_def)

lemma auth_listener_user:
  "(isAuthenticated (auth_listener u st) \<longleftrightarrow> user (auth_listener u st) \<noteq> None)"
  by (simp add: auth_listener_def split: option.split)

lemma client_step_raw_user:
  "(isAuthenticated (auth a) \<longleftrightarrow> user (auth a) \<noteq> None) \<Longrightarrow>
   (isAuthenticated (auth (client_step_raw ev a)) \<longleftrightarrow> user (auth (client_step_raw ev a)) \<noteq> None)"
  by (cases ev)
    (auto simp: auth_listener_user login_start_def login_finish_def logout_start_def
      logout_finish_def useAuth_validateInviteCode_def split: prod.split sum.split if_splits)

lemma client_step_auth:
  "auth (client_step ev a) = auth (client_step_raw ev a)"
  by (simp add: client_step_def)

lemma validate_auth_hasValidInvite:
  "hasValidInvite (snd (useAuth_validateInviteCode c r st)) \<longleftrightarrow>
     hasValidInvite st \<or>
     (case r of Inr d \<Rightarrow> js_truthy (js_get d ''success'') | Inl _ \<Rightarrow> js_toUpperCase c \<in> set fallback_codes)"
  by (simp add: useAuth_validateInviteCode_def split: sum.split)

subsection \<open>Properties of the client\<close>

text \<open>
  C25. In every state the client reaches from its first render, whatever events
  occur in whatever order, the hook is authenticated exactly when it holds a
  user, and the invite form is mounted exactly when the invite page is shown.
\<close>

theorem client_reach_inv: "client_reach a \<Longrightarrow> client_inv a"
proof (induction rule: client_reach.induct)
  case start
  show ?case
    by (simp add: client_inv_def initial_app_def initial_auth_def sync_form_def render_app_def)
next
  case (step a ev)
  then have "isAuthenticated (auth (client_step_raw ev a)) \<longleftrightarrow> user (auth (client_step_raw ev a)) \<noteq> None"
    by (intro client_step_raw_user) (simp add: client_inv_def)
  moreover have "form (sync_form (client_step_raw ev a)) \<noteq> None \<longleftrightarrow>
                  render_app (client_step_raw ev a) = ViewInvite"
    by (rule sync_form_mounted)
  ultimately show ?case
    by (simp add: client_inv_def client_step_def)
qed

theorem client_reach_inv_witness:
  "client_inv (client_step LogoutClick (client_step (AuthChanged None) initial_app))"
  by (rule client_reach_inv [OF client_reach.step [OF client_reach.step [OF client_reach.start]]])

text \<open>
  C26. When the validation call gets no response (server down, timeout), the
  client falls back to a list hard-coded in the bundle: the session is let
  through to the menu exactly when the code, upper-cased, is one of
  \<^verbatim>\<open>C2C2023\<close>, \<^verbatim>\<open>EXCLUSIVE2024\<close>, \<^verbatim>\<open>INNER2024\<close>,
  \<^verbatim>\<open>SWEET2024\<close> (or was already let through), with no server involved.
\<close>

theorem offline_fallback:
  "hasValidInvite (auth (client_step (SubmitSettled c NoResponse) a)) \<longleftrightarrow>
     hasValidInvite (auth a) \<or> js_toUpperCase c \<in> set fallback_codes"
  by (simp add: client_step_auth api_validateInviteCode_def validate_auth_hasValidInvite
      split_def Let_def)


definition alice :: fb_user where
  "alice = \<lparr>fb_uid = ''u1'', fb_email = Some ''alice@x.co'', fb_displayName = Some ''Alice'',
            fb_photoURL = None, fb_emailVerified = True\<rparr>"

definition bob :: fb_user where
  "bob = \<lparr>fb_uid = ''u2'', fb_email = Some ''bob@x.co'', fb_displayName = None,
          fb_photoURL = None, fb_emailVerified = True\<rparr>"

lemma fallback_sweet: "js_toUpperCase ''sweet2024'' \<in> set fallback_codes"
  by (simp add: fallback_codes_def js_string_eval)

text \<open>
  C27. The reset of \<^verbatim>\<open>hasValidInvite\<close> on sign-out is lost when it is
  overtaken by a pending validation. From any client state, when a validation of
  a code the offline fallback accepts settles after the Firebase listener has
  reported the sign-out, the flag is set again with nobody signed in, and
  whoever signs in next is shown the menu without entering a code; had it settled
  before the sign-out, the listener's reset would have won and the next user
  would see the invite page.
\<close>

theorem stale_validation_after_signout:
  assumes "js_toUpperCase c \<in> set fallback_codes"
  shows "\<not> hasValidInvite (auth (client_step (AuthChanged None) a))
    \<and> user (auth (client_step (SubmitSettled c NoResponse) (client_step (AuthChanged None) a))) = None
    \<and> hasValidInvite (auth (client_step (SubmitSettled c NoResponse) (client_step (AuthChanged None) a)))
    \<and> render_app (client_step (AuthChanged (Some u))
         (client_step (SubmitSettled c NoResponse) (client_step (AuthChanged None) a))) = ViewMenu
    \<and> render_app (client_step (AuthChanged (Some u))
         (client_step (AuthChanged None) (client_step (SubmitSettled c NoResponse) a))) = ViewInvite"
  using assms
  by (simp add: client_step_def client_step_auth auth_listener_def onAuthStateChange_def
      render_app_def useAuth_validateInviteCode_def api_validateInviteCode_def split_def Let_def
      split: sum.split)

theorem stale_validation_after_signout_witness:
  "render_app (client_step (AuthChanged (Some bob))
      (client_step (SubmitSettled ''sweet2024'' NoResponse) (client_step (AuthChanged None) initial_app)))
     = ViewMenu"
  using stale_validation_after_signout [OF fallback_sweet, of initial_app bob] by simp

end
