(* ===== verification/Menu.thy ===== *)
theory Menu
  imports Json Complex_Main "HOL-Library.Multiset"
begin

text \<open>
  The menu catalogue, \<^verbatim>\<open>src/services/contentful.js\<close>. A menu item is the
  record \<open>menu_item\<close> (the entry's \<^verbatim>\<open>sys.id\<close> and its
  \<^verbatim>\<open>fields\<close>; the image is its URL or \<open>None\<close>); a price is the exact
  rational value of the JavaScript number (the mock data's literals such as
  \<^verbatim>\<open>18.99\<close> are taken as the decimals they spell; the nearest double is
  within \<open>10 ^ -14\<close> of them, far from any half cent), and
  \<^verbatim>\<open>formatPrice\<close> rounds it to cents as \<^verbatim>\<open>Intl.NumberFormat\<close> does
  (half away from zero, the sign of the unrounded value). Contentful is the environment: \<open>menu_source\<close> says
  whether a client was configured and what \<^verbatim>\<open>getEntries\<close> returned
  (\<open>None\<close> when it threw). Every exported function is a function of that
  source and its arguments; the catalogue's items carry strings in every field,
  so the \<^verbatim>\<open>catch\<close> branches that guard against missing fields are not
  reached. The spice-level emoji is the pepper repeated \<open>sp_peppers\<close> times.
\<close>

record menu_item =
  item_id :: string
  item_name :: string
  item_description :: string
  item_price :: rat
  item_category :: string
  item_image :: "string option"
  isLimitedAccess :: bool
  item_ingredients :: "string list"
  spiceLevel :: int
  preparationTime :: int
  isVegetarian :: bool
  isGlutenFree :: bool
  item_calories :: int

definition unsplash :: "string \<Rightarrow> string option" where
  "unsplash photo = Some (''https://images.unsplash.com/photo-'' @ photo @ ''?w=400&h=300&fit=crop'')"

definition mockMenuItems :: "menu_item list" where
  "mockMenuItems = [
    \<lparr>item_id = ''1'', item_name = ''Butter Chicken Curry'',
     item_description = ''Rich and creamy tomato-based curry with tender chicken pieces, aromatic spices, and a hint of sweetness.'',
     item_price = 1899 / 100, item_category = ''Curry'', item_image = unsplash ''1565557623262-b51c2513a641'',
     isLimitedAccess = False,
     item_ingredients = [''Chicken'', ''Tomatoes'', ''Cream'', ''Onions'', ''Garam Masala'', ''Ginger'', ''Garlic''],
     spiceLevel = 2, preparationTime = 25, isVegetarian = False, isGlutenFree = True, item_calories = 420\<rparr>,
    \<lparr>item_id = ''2'', item_name = ''Lamb Rogan Josh'',
     item_description = ''Aromatic Kashmiri curry with tender lamb pieces, traditional spices, and rich gravy.'',
     item_price = 2499 / 100, item_category = ''Curry'', item_image = unsplash ''1585937421612-70a008356fbe'',
     isLimitedAccess = False,
     item_ingredients = [''Lamb'', ''Yogurt'', ''Onions'', ''Kashmiri Chili'', ''Cardamom'', ''Cinnamon'', ''Bay Leaves''],
     spiceLevel = 3, preparationTime = 45, isVegetarian = False, isGlutenFree = True, item_calories = 520\<rparr>,
    \<lparr>item_id = ''3'', item_name = ''New York Cheesecake'',
     item_description = ''Creamy, rich cheesecake with a buttery graham cracker crust and fresh berry compote.'',
     item_price = 1299 / 100, item_category = ''Dessert'', item_image = unsplash ''1533134242443-d4fd215305ad'',
     isLimitedAccess = True,
     item_ingredients = [''Cream Cheese'', ''Graham Crackers'', ''Eggs'', ''Sugar'', ''Vanilla'', ''Sour Cream''],
     spiceLevel = 0, preparationTime = 60, isVegetarian = True, isGlutenFree = False, item_calories = 380\<rparr>,
    \<lparr>item_id = ''4'', item_name = ''Chocolate Decadence'',
     item_description = ''Intensely rich chocolate cake with layers of dark chocolate ganache and fresh raspberries.'',
     item_price = 1499 / 100, item_category = ''Dessert'', item_image = unsplash ''1578985545062-69928b1d9587'',
     isLimitedAccess = False,
     item_ingredients = [''Dark Chocolate'', ''Butter'', ''Eggs'', ''Sugar'', ''Flour'', ''Raspberries''],
     spiceLevel = 0, preparationTime = 40, isVegetarian = True, isGlutenFree = False, item_calories = 450\<rparr>,
    \<lparr>item_id = ''5'', item_name = ''Paneer Tikka Masala'',
     item_description = ''Grilled cottage cheese cubes in a creamy tomato-based sauce with aromatic spices.'',
     item_price = 1699 / 100, item_category = ''Curry'', item_image = unsplash ''1567188040759-fb8a883dc6d8'',
     isLimitedAccess = False,
     item_ingredients = [''Paneer'', ''Tomatoes'', ''Cream'', ''Onions'', ''Bell Peppers'', ''Garam Masala''],
     spiceLevel = 2, preparationTime = 30, isVegetarian = True, isGlutenFree = True, item_calories = 350\<rparr>,
    \<lparr>item_id = ''6'', item_name = ''Tiramisu'',
     item_description = ''Classic Italian dessert with coffee-soaked ladyfingers and mascarpone cream.'',
     item_price = 1199 / 100, item_category = ''Dessert'', item_image = unsplash ''1571877227200-a0d98ea607e9'',
     isLimitedAccess = True,
     item_ingredients = [''Mascarpone'', ''Ladyfingers'', ''Coffee'', ''Cocoa'', ''Eggs'', ''Sugar''],
     spiceLevel = 0, preparationTime = 30, isVegetarian = True, isGlutenFree = False, item_calories = 320\<rparr>]"

datatype menu_source = MockOnly | Cms "menu_item list option"

definition getMenuItems :: "menu_source \<Rightarrow> menu_item list" where
  "getMenuItems src =
     (case src of MockOnly \<Rightarrow> mockMenuItems | Cms None \<Rightarrow> mockMenuItems | Cms (Some items) \<Rightarrow> items)"

definition getMenuItemsByCategory :: "menu_source \<Rightarrow> string \<Rightarrow> menu_item list" where
  "getMenuItemsByCategory src category =
     filter (\<lambda>i. js_toLowerCase (item_category i) = js_toLowerCase category) (getMenuItems src)"

definition find_mock :: "string \<Rightarrow> menu_item option" where
  "find_mock key = find (\<lambda>i. item_id i = key) mockMenuItems"

definition getMenuItem :: "bool \<Rightarrow> menu_item option \<Rightarrow> string \<Rightarrow> menu_item option" where
  "getMenuItem configured entry key =
     (if \<not> configured then find_mock key
      else case entry of None \<Rightarrow> find_mock key | Some e \<Rightarrow> Some e)"

text \<open>\<^verbatim>\<open>[...new Set(xs)]\<close>: the first occurrence of each value, in order.\<close>

fun set_dedupe :: "'a list \<Rightarrow> 'a list \<Rightarrow> 'a list" where
  "set_dedupe seen [] = []"
| "set_dedupe seen (x # xs) =
     (if x \<in> set seen then set_dedupe seen xs else x # set_dedupe (seen @ [x]) xs)"

definition getMenuCategories :: "menu_source \<Rightarrow> string list" where
  "getMenuCategories src = sort (set_dedupe [] (map item_category (getMenuItems src)))"

definition item_matches :: "string \<Rightarrow> menu_item \<Rightarrow> bool" where
  "item_matches term i \<longleftrightarrow>
     js_includes (js_toLowerCase (item_name i)) term \<or>
     js_includes (js_toLowerCase (item_description i)) term \<or>
     list_ex (\<lambda>ing. js_includes (js_toLowerCase ing) term) (item_ingredients i)"

definition searchMenuItems :: "menu_source \<Rightarrow> string \<Rightarrow> menu_item list" where
  "searchMenuItems src query = filter (item_matches (js_toLowerCase query)) (getMenuItems src)"

definition getFeaturedItems :: "menu_source \<Rightarrow> menu_item list" where
  "getFeaturedItems src = filter isLimitedAccess (getMenuItems src)"

fun group_rev :: "string \<Rightarrow> string" where
  "group_rev (a # b # c # d # rest) = a # b # c # CHR '','' # group_rev (d # rest)"
| "group_rev xs = xs"

definition group3 :: "string \<Rightarrow> string" where
  "group3 s = rev (group_rev (rev s))"

definition two_digits :: "nat \<Rightarrow> string" where
  "two_digits n = [digit36 (n div 10), digit36 (n mod 10)]"

definition intl_cents :: "rat \<Rightarrow> nat" where
  "intl_cents price = nat (round (\<bar>price\<bar> * 100))"

definition formatPrice :: "rat \<Rightarrow> string" where
  "formatPrice price =
     (if price < 0 then ''-'' else []) @ ''$'' @ group3 (nat_toString10 (intl_cents price div 100)) @
       ''.'' @ two_digits (intl_cents price mod 100)"

record spice_display =
  sp_text :: string
  sp_peppers :: nat
  sp_color :: string

definition getSpiceLevelDisplay :: "int \<Rightarrow> spice_display" where
  "getSpiceLevelDisplay level =
     (if level = 2 then \<lparr>sp_text = ''Medium'', sp_peppers = 2, sp_color = ''text-yellow-600''\<rparr>
      else if level = 3 then \<lparr>sp_text = ''Hot'', sp_peppers = 3, sp_color = ''text-orange-600''\<rparr>
      else if level = 4 then \<lparr>sp_text = ''Very Hot'', sp_peppers = 4, sp_color = ''text-red-600''\<rparr>
      else if level = 5 then \<lparr>sp_text = ''Extreme'', sp_peppers = 5, sp_color = ''text-red-800''\<rparr>
      else \<lparr>sp_text = ''Mild'', sp_peppers = 1, sp_color = ''text-green-600''\<rparr>)"

record badge =
  badge_text :: string
  badge_color :: string

definition getDietaryBadges :: "menu_item \<Rightarrow> badge list" where
  "getDietaryBadges i =
     (if isVegetarian i then [\<lparr>badge_text = ''Vegetarian'', badge_color = ''bg-green-100 text-green-800''\<rparr>] else []) @
     (if isGlutenFree i then [\<lparr>badge_text = ''Gluten-Free'', badge_color = ''bg-blue-100 text-blue-800''\<rparr>] else []) @
     (if isLimitedAccess i then [\<lparr>badge_text = ''Limited Access'', badge_color = ''bg-red-100 text-red-800''\<rparr>] else [])"


text \<open>Reading an en-US dollar amount back: an optional minus sign, the dollar
  sign, the whole dollars in groups of three digits separated by commas, the
  decimal point and exactly two digits of cents.\<close>

fun ungroup_rev :: "string \<Rightarrow> string option" where
  "ungroup_rev (a # b # c # x # rest) =
     (if x = CHR '','' \<and> list_all js_is_digit [a, b, c]
      then map_option (\<lambda>r. a # b # c # r) (ungroup_rev rest) else None)"
| "ungroup_rev s = (if s \<noteq> [] \<and> list_all js_is_digit s then Some s else None)"

definition ungroup :: "string \<Rightarrow> string option" where
  "ungroup s = map_option rev (ungroup_rev (rev s))"

definition parse_price :: "string \<Rightarrow> int option" where
  "parse_price s =
     (let neg = (take 1 s = ''-''); t = (if neg then drop 1 s else s)
      in case t of
           c # body \<Rightarrow>
             if c \<noteq> CHR ''$'' then None
             else (case rev body of
                     d2 # d1 # p # rd \<Rightarrow>
                       if p = CHR ''.'' \<and> js_is_digit d1 \<and> js_is_digit d2
                       then map_option (\<lambda>ds. (if neg then -1 else 1) *
                                              int (100 * decimal_value ds + decimal_value [d1, d2]))
                              (ungroup (rev rd))
                       else None
                   | _ \<Rightarrow> None)
         | [] \<Rightarrow> None)"

lemma decimal_value_append_two:
  "m < 100 \<Longrightarrow> decimal_value (s @ two_digits m) = 100 * decimal_value s + m"
  using decimal_value_snoc [of "s @ [digit36 (m div 10)]" "digit36 (m mod 10)"]
    decimal_value_snoc [of s "digit36 (m div 10)"]
  by (simp add: two_digits_def)

lemma two_digits_filter: "m < 100 \<Longrightarrow> filter js_is_digit (two_digits m) = two_digits m"
proof -
  assume "m < 100"
  then have "m div 10 < 10" by (simp add: less_mult_imp_div_less)
  then show ?thesis by (simp add: two_digits_def)
qed


lemma ungroup_rev_group_rev:
  "list_all js_is_digit s \<Longrightarrow> s \<noteq> [] \<Longrightarrow> ungroup_rev (group_rev s) = Some s"
  by (induction s rule: group_rev.induct) simp_all

lemma nat_toString10_not_Nil: "nat_toString10 n \<noteq> []"
  by (subst nat_toString10.simps) simp

lemma ungroup_group3: "list_all js_is_digit s \<Longrightarrow> s \<noteq> [] \<Longrightarrow> ungroup (group3 s) = Some s"
  by (simp add: ungroup_def group3_def ungroup_rev_group_rev)

lemma decimal_value_two_digits: "m < 100 \<Longrightarrow> decimal_value (two_digits m) = m"
  using decimal_value_append_two [of m "[]"] by (simp add: decimal_value_def)

lemma two_digits_digits: "m < 100 \<Longrightarrow> two_digits m = [d1, d2] \<Longrightarrow> js_is_digit d1 \<and> js_is_digit d2"
  using two_digits_filter [of m] by (auto simp: two_digits_def)

lemma parse_price_formatPrice:
  "parse_price (formatPrice p) = Some ((if p < 0 then -1 else 1) * int (intl_cents p))"
proof -
  let ?G = "group3 (nat_toString10 (intl_cents p div 100))"
  obtain d1 d2 where D: "two_digits (intl_cents p mod 100) = [d1, d2]"
    by (simp add: two_digits_def)
  have dg: "js_is_digit d1 \<and> js_is_digit d2"
    using two_digits_digits [OF _ D] by simp
  have val: "decimal_value [d1, d2] = intl_cents p mod 100"
    using decimal_value_two_digits [of "intl_cents p mod 100"] D by simp
  have body: "rev (?G @ ''.'' @ [d1, d2]) = d2 # d1 # CHR ''.'' # rev ?G" by simp
  have ug: "ungroup ?G = Some (nat_toString10 (intl_cents p div 100))"
    by (rule ungroup_group3 [OF nat_toString10_digits nat_toString10_not_Nil])
  have e: "100 * int (intl_cents p div 100) + int (intl_cents p mod 100) = int (intl_cents p)"
    using div_mult_mod_eq [of "intl_cents p" 100] by (metis of_nat_add of_nat_mult of_nat_numeral mult.commute)
  show ?thesis
    using D dg val ug e by (simp add: formatPrice_def parse_price_def Let_def)
qed

lemma set_set_dedupe: "set (set_dedupe seen xs) = set xs - set seen"
  by (induction seen xs rule: set_dedupe.induct) auto

lemma distinct_set_dedupe: "distinct (set_dedupe seen xs)"
  by (induction seen xs rule: set_dedupe.induct) (auto simp: set_set_dedupe)

lemma mset_concat_map_append:
  "mset (concat (map (\<lambda>c. g c @ h c) cs)) = mset (concat (map g cs)) + mset (concat (map h cs))"
  by (induction cs) (simp_all add: ac_simps)

lemma mset_concat_map_single:
  "mset (concat (map (\<lambda>c. if f x = c then [x] else []) cs)) = replicate_mset (count (mset cs) (f x)) x"
  by (induction cs) auto

lemma mset_concat_filter_partition:
  "distinct cs \<Longrightarrow> f ` set items \<subseteq> set cs \<Longrightarrow>
     mset (concat (map (\<lambda>c. filter (\<lambda>i. f i = c) items) cs)) = mset items"
proof (induction items)
  case Nil
  then show ?case by (induction cs) simp_all
next
  case (Cons x xs)
  have "mset (concat (map (\<lambda>c. filter (\<lambda>i. f i = c) (x # xs)) cs))
      = mset (concat (map (\<lambda>c. if f x = c then [x] else []) cs))
        + mset (concat (map (\<lambda>c. filter (\<lambda>i. f i = c) xs) cs))"
    by (simp add: mset_concat_map_append [symmetric] if_distrib [where f = "\<lambda>l. l @ _"] cong: if_cong)
  also have "count (mset cs) (f x) = 1"
    using Cons.prems by (simp add: distinct_count_atmost_1 count_mset_0_iff le_antisym)
  ultimately show ?case using Cons by (simp add: mset_concat_map_single)
qed

subsection \<open>Properties of the catalogue\<close>

text \<open>
  C31. \<^verbatim>\<open>formatPrice\<close> prints a price as an en-US dollar amount rounded to
  the nearest cent: read back strictly (optional minus, dollar sign, thousands
  separated by commas, point, two digits) the printed text gives the amount in
  cents that Intl's rounding chose, and that amount is within half a cent of the
  price, for every price.
\<close>

theorem formatPrice_roundtrip:
  "parse_price (formatPrice p) = Some ((if p < 0 then -1 else 1) * int (intl_cents p)) \<and>
   \<bar>(if p < 0 then -1 else 1) * of_nat (intl_cents p) / 100 - p\<bar> \<le> 1 / 200"
proof
  show "parse_price (formatPrice p) = Some ((if p < 0 then -1 else 1) * int (intl_cents p))"
    by (rule parse_price_formatPrice)
  have nn: "0 \<le> round (\<bar>p\<bar> * 100)" unfolding round_def by simp
  have r: "\<bar>of_int (round (\<bar>p\<bar> * 100)) - \<bar>p\<bar> * 100\<bar> \<le> (1 / 2 :: rat)"
    by (rule of_int_round_abs_le)
  have c: "(of_nat (intl_cents p) :: rat) = of_int (round (\<bar>p\<bar> * 100))"
    using nn by (simp add: intl_cents_def)
  show "\<bar>(if p < 0 then -1 else 1) * of_nat (intl_cents p) / 100 - p\<bar> \<le> 1 / 200"
    using r unfolding c by (cases "p < 0") (auto simp: abs_if split: if_splits)
qed

text \<open>
  C32. \<^verbatim>\<open>getMenuCategories\<close> returns each category of the catalogue exactly
  once, in ascending order, whatever Contentful returned; with the mock data it
  is \<^verbatim>\<open>['Curry', 'Dessert']\<close>.
\<close>

theorem getMenuCategories_spec:
  "sorted (getMenuCategories src) \<and> distinct (getMenuCategories src) \<and>
   set (getMenuCategories src) = item_category ` set (getMenuItems src) \<and>
   getMenuCategories MockOnly = [''Curry'', ''Dessert'']"
  by (simp add: getMenuCategories_def set_set_dedupe distinct_set_dedupe getMenuItems_def
      mockMenuItems_def)


text \<open>
  C33. The category filter partitions the catalogue: when no two categories of the
  items differ only in letter case, listing \<^verbatim>\<open>getMenuItemsByCategory\<close> for
  each category of \<^verbatim>\<open>getMenuCategories\<close>, one list after the other, shows
  every item exactly as often as the catalogue holds it (the concatenation is a
  permutation of the items).
\<close>

theorem categories_partition_items:
  assumes "inj_on js_toLowerCase (item_category ` set (getMenuItems src))"
  shows "mset (concat (map (getMenuItemsByCategory src) (getMenuCategories src)))
           = mset (getMenuItems src)"
proof -
  have eq: "getMenuItemsByCategory src c = filter (\<lambda>i. item_category i = c) (getMenuItems src)"
    if c: "c \<in> set (getMenuCategories src)" for c
    unfolding getMenuItemsByCategory_def
  proof (rule filter_cong [OF refl])
    fix i assume i: "i \<in> set (getMenuItems src)"
    have cS: "c \<in> item_category ` set (getMenuItems src)"
      using c by (simp add: getMenuCategories_def set_set_dedupe)
    have iS: "item_category i \<in> item_category ` set (getMenuItems src)"
      using i by (rule imageI)
    show "(js_toLowerCase (item_category i) = js_toLowerCase c) = (item_category i = c)"
      by (rule inj_on_eq_iff [OF assms iS cS])
  qed
  have "map (getMenuItemsByCategory src) (getMenuCategories src)
      = map (\<lambda>c. filter (\<lambda>i. item_category i = c) (getMenuItems src)) (getMenuCategories src)"
    by (rule map_cong [OF refl]) (simp add: eq)
  also have "mset (concat \<dots>) = mset (getMenuItems src)"
    by (rule mset_concat_filter_partition)
      (simp_all add: getMenuCategories_def set_set_dedupe distinct_set_dedupe)
  finally show ?thesis .
qed

theorem categories_partition_items_witness:
  "mset (concat (map (getMenuItemsByCategory MockOnly) (getMenuCategories MockOnly)))
     = mset mockMenuItems"
proof -
  have cats: "item_category ` set (getMenuItems MockOnly) = {''Curry'', ''Dessert''}"
    by (auto simp: getMenuItems_def mockMenuItems_def)
  have "js_toLowerCase ''Curry'' \<noteq> js_toLowerCase ''Dessert''"
    by (simp add: js_toLowerCase_def)
  then have inj: "inj_on js_toLowerCase (item_category ` set (getMenuItems MockOnly))"
    unfolding cats by (auto simp: inj_on_def)
  show ?thesis using categories_partition_items [OF inj] by (simp add: getMenuItems_def)
qed


text \<open>
  C34. \<^verbatim>\<open>searchMenuItems\<close> keeps items in catalogue order and only drops
  some (the result is a subsequence); the empty query returns the whole catalogue;
  letter case of the query does not matter; and an item whose lower-cased name
  contains the lower-cased query is always found.
\<close>

theorem searchMenuItems_spec:
  "subseq (searchMenuItems src q) (getMenuItems src) \<and>
   searchMenuItems src [] = getMenuItems src \<and>
   searchMenuItems src (js_toLowerCase q) = searchMenuItems src q \<and>
   (i \<in> set (getMenuItems src) \<longrightarrow>
      js_includes (js_toLowerCase (item_name i)) (js_toLowerCase q) \<longrightarrow>
      i \<in> set (searchMenuItems src q))"
  by (simp add: searchMenuItems_def item_matches_def) (simp add: js_toLowerCase_def item_matches_def)

theorem searchMenuItems_spec_witness:
  "List.find (\<lambda>i. item_id i = ''6'') (searchMenuItems MockOnly ''MISU'') \<noteq> None"
proof -
  have i: "last mockMenuItems \<in> set (getMenuItems MockOnly)"
    by (simp add: getMenuItems_def mockMenuItems_def)
  have m: "js_includes (js_toLowerCase (item_name (last mockMenuItems))) (js_toLowerCase ''MISU'')"
    by (simp add: mockMenuItems_def js_string_eval)
  have "last mockMenuItems \<in> set (searchMenuItems MockOnly ''MISU'')"
    using searchMenuItems_spec [of MockOnly "''MISU''" "last mockMenuItems"] i m by blast
  moreover have "item_id (last mockMenuItems) = ''6''" by (simp add: mockMenuItems_def)
  ultimately show ?thesis by (auto simp: find_None_iff)
qed

end
