(* ===== verification/DynamicMenu.thy ===== *)
theory DynamicMenu
  imports Menu
begin

text \<open>
  The menu page, \<^verbatim>\<open>src/components/DynamicMenu.jsx\<close>. The component's
  React state is \<open>menu_ui\<close>. Two pieces of runtime state sit beside it in
  \<open>menu_world\<close>: the debounce timer of the search effect (the query it was
  set for, or none) and the searches started by the timer whose promise has not
  settled yet, in start order. \<open>menu_event\<close> lists what can happen: the
  mount effect's \<^verbatim>\<open>Promise.all\<close> settling (each of its two calls of
  \<^verbatim>\<open>getMenuItems\<close> sees its own Contentful outcome), a keystroke in the search
  box (the effect clears the old timer and sets a new one when the query changed),
  the timer firing, the \<open>k\<close>-th pending search settling, a tab being chosen and
  the detail view being opened or closed. \<open>menu_step\<close> takes whether a
  Contentful client was created: without one, \<^verbatim>\<open>searchMenuItems\<close>
  resolves with the mock data in the microtasks right after the timer callback,
  before any other event, so the timer's step performs the whole search; with
  one, the search waits for \<^verbatim>\<open>getEntries\<close> and settles later, in any
  order with the others. \<open>menu_reach\<close> admits only the Contentful outcomes
  that fit the configuration (\<open>event_fits\<close>). \<open>getFilteredItems\<close>,
  \<open>empty_message\<close>, \<open>menu_card\<close> and the detail modal
  \<open>menu_detail\<close> are what the page renders.
\<close>

record menu_ui =
  menuItems :: "menu_item list"
  categories :: "string list"
  m_loading :: bool
  searchQuery :: string
  searchResults :: "menu_item list"
  activeCategory :: string
  selectedItem :: "menu_item option"

record menu_world =
  ui :: menu_ui
  search_timer :: "string option"
  in_flight :: "string list"

definition initial_menu :: menu_world where
  "initial_menu = \<lparr>ui = \<lparr>menuItems = [], categories = [], m_loading = True, searchQuery = [],
     searchResults = [], activeCategory = ''all'', selectedItem = None\<rparr>,
     search_timer = Some [], in_flight = []\<rparr>"

datatype menu_event =
    LoadSettled menu_source menu_source
  | SetQuery string
  | TimerFires
  | SearchSettled nat menu_source
  | SelectTab string
  | SelectItem menu_item
  | CloseItem

fun menu_step :: "bool \<Rightarrow> menu_event \<Rightarrow> menu_world \<Rightarrow> menu_world" where
  "menu_step client (LoadSettled src1 src2) w =
     w\<lparr>ui := (ui w)\<lparr>menuItems := getMenuItems src1, categories := ''all'' # getMenuCategories src2,
                     m_loading := False\<rparr>\<rparr>"
| "menu_step client (SetQuery q) w =
     (if q = searchQuery (ui w) then w
      else w\<lparr>ui := (ui w)\<lparr>searchQuery := q\<rparr>, search_timer := Some q\<rparr>)"
| "menu_step client TimerFires w =
     (case search_timer w of
        None \<Rightarrow> w
      | Some q \<Rightarrow>
          if js_trim q = [] then w\<lparr>search_timer := None, ui := (ui w)\<lparr>searchResults := []\<rparr>\<rparr>
          else if client then w\<lparr>search_timer := None, in_flight := in_flight w @ [q]\<rparr>
          else w\<lparr>search_timer := None, ui := (ui w)\<lparr>searchResults := searchMenuItems MockOnly q\<rparr>\<rparr>)"
| "menu_step client (SearchSettled k src) w =
     (if k < length (in_flight w)
      then w\<lparr>ui := (ui w)\<lparr>searchResults := searchMenuItems src (in_flight w ! k)\<rparr>,
             in_flight := take k (in_flight w) @ drop (Suc k) (in_flight w)\<rparr>
      else w)"
| "menu_step client (SelectTab t) w = w\<lparr>ui := (ui w)\<lparr>activeCategory := t\<rparr>\<rparr>"
| "menu_step client (SelectItem i) w = w\<lparr>ui := (ui w)\<lparr>selectedItem := Some i\<rparr>\<rparr>"
| "menu_step client CloseItem w = w\<lparr>ui := (ui w)\<lparr>selectedItem := None\<rparr>\<rparr>"

fun run_menu :: "bool \<Rightarrow> menu_event list \<Rightarrow> menu_world \<Rightarrow> menu_world" where
  "run_menu client [] w = w"
| "run_menu client (ev # evs) w = run_menu client evs (menu_step client ev w)"

definition getFilteredItems :: "menu_ui \<Rightarrow> menu_item list" where
  "getFilteredItems u =
     (if js_trim (searchQuery u) \<noteq> [] then searchResults u
      else if activeCategory u = ''all'' then menuItems u
      else filter (\<lambda>i. js_toLowerCase (item_category i) = js_toLowerCase (activeCategory u)) (menuItems u))"

definition tab_values :: "string list" where
  "tab_values = [''all'', ''curry'', ''dessert'']"

definition empty_message :: "menu_ui \<Rightarrow> string option" where
  "empty_message u =
     (if m_loading u \<or> getFilteredItems u \<noteq> [] then None
      else if searchQuery u \<noteq> [] then Some ''No items found matching your search.''
      else Some ''No items available in this category.'')"

record menu_card =
  mc_name :: string
  mc_price :: string
  mc_limited :: bool
  mc_image :: "string option"
  mc_curry_placeholder :: bool
  mc_badges :: "string list"
  mc_overlay_spice :: "string option"

definition menu_card_of :: "menu_item \<Rightarrow> menu_card" where
  "menu_card_of i =
     \<lparr>mc_name = item_name i, mc_price = formatPrice (item_price i), mc_limited = isLimitedAccess i,
      mc_image = item_image i, mc_curry_placeholder = (item_category i = ''Curry''),
      mc_badges = map badge_text (getDietaryBadges i) @
        (if 0 < spiceLevel i then [sp_text (getSpiceLevelDisplay (spiceLevel i))] else []),
      mc_overlay_spice =
        (if 0 < spiceLevel i then Some (sp_text (getSpiceLevelDisplay (spiceLevel i))) else None)\<rparr>"

definition menu_cards :: "menu_world \<Rightarrow> menu_card list" where
  "menu_cards w = (if m_loading (ui w) then [] else map menu_card_of (getFilteredItems (ui w)))"

record menu_detail =
  md_name :: string
  md_image :: "string option"
  md_description :: string
  md_price :: string
  md_prep :: string
  md_calories :: string
  md_category :: string
  md_ingredients :: "string list"

definition menu_detail_of :: "menu_item \<Rightarrow> menu_detail" where
  "menu_detail_of i =
     \<lparr>md_name = item_name i, md_image = item_image i, md_description = item_description i,
      md_price = formatPrice (item_price i), md_prep = js_toString10 (preparationTime i) @ '' minutes'',
      md_calories = js_toString10 (item_calories i), md_category = item_category i,
      md_ingredients = item_ingredients i\<rparr>"

definition menu_detail_view :: "menu_world \<Rightarrow> menu_detail option" where
  "menu_detail_view w = (if m_loading (ui w) then None else map_option menu_detail_of (selectedItem (ui w)))"

definition event_fits :: "bool \<Rightarrow> menu_event \<Rightarrow> bool" where
  "event_fits client ev \<longleftrightarrow>
     (case ev of
        LoadSettled s1 s2 \<Rightarrow> (s1 = MockOnly \<longleftrightarrow> \<not> client) \<and> (s2 = MockOnly \<longleftrightarrow> \<not> client)
      | SearchSettled k s \<Rightarrow> (s = MockOnly \<longleftrightarrow> \<not> client)
      | _ \<Rightarrow> True)"

inductive menu_reach :: "bool \<Rightarrow> menu_world \<Rightarrow> bool" where
  start: "menu_reach client initial_menu"
| step: "menu_reach client w \<Longrightarrow> event_fits client ev \<Longrightarrow> menu_reach client (menu_step client ev w)"

subsection \<open>Properties of the menu page\<close>

definition mock_search_inv :: "menu_world \<Rightarrow> bool" where
  "mock_search_inv w \<longleftrightarrow>
     in_flight w = [] \<and> (\<forall>q. search_timer w = Some q \<longrightarrow> q = searchQuery (ui w)) \<and>
     (search_timer w = None \<longrightarrow> js_trim (searchQuery (ui w)) \<noteq> [] \<longrightarrow>
        searchResults (ui w) = searchMenuItems MockOnly (searchQuery (ui w)))"

lemma mock_search_inv_step: "mock_search_inv w \<Longrightarrow> mock_search_inv (menu_step False ev w)"
  by (cases ev) (auto simp: mock_search_inv_def split: option.splits)

lemma getFilteredItems_search:
  "js_trim (searchQuery u) \<noteq> [] \<Longrightarrow> getFilteredItems u = searchResults u"
  by (simp add: getFilteredItems_def)

lemma menu_reach_mock_inv: "menu_reach client w \<Longrightarrow> \<not> client \<Longrightarrow> mock_search_inv w"
proof (induction rule: menu_reach.induct)
  case (start client)
  then show ?case by (simp add: mock_search_inv_def initial_menu_def)
next
  case (step client w ev)
  then show ?case by (simp add: mock_search_inv_step)
qed

text \<open>
  C35. Without a Contentful client a search settles in the microtasks right after
  its timer fires, before any other input, so the page never shows stale results:
  in every reachable state no search is pending, a pending timer is the one for
  the current query, and once it has fired a nonblank query lists exactly what
  \<^verbatim>\<open>searchMenuItems\<close> returns for the current query.
\<close>

theorem mock_search_current:
  "menu_reach False w \<Longrightarrow> in_flight w = [] \<and> (search_timer w = None \<longrightarrow>
     js_trim (searchQuery (ui w)) \<noteq> [] \<longrightarrow> getFilteredItems (ui w) = searchMenuItems MockOnly (searchQuery (ui w)))"
  using menu_reach_mock_inv [of False w] by (simp add: mock_search_inv_def getFilteredItems_search)

theorem mock_search_current_witness:
  "getFilteredItems (ui (menu_step False TimerFires (menu_step False (SetQuery ''lamb'')
       (menu_step False (LoadSettled MockOnly MockOnly) initial_menu))))
     = searchMenuItems MockOnly ''lamb''"
proof -
  have r: "menu_reach False (menu_step False TimerFires (menu_step False (SetQuery ''lamb'')
       (menu_step False (LoadSettled MockOnly MockOnly) initial_menu)))"
    by (intro menu_reach.step menu_reach.start) (simp_all add: event_fits_def)
  show ?thesis
    using mock_search_current [OF r] by (simp add: initial_menu_def js_string_eval)
qed

text \<open>
  C36. With a Contentful client, search results can belong to an earlier query.
  The debounce cancels only timers that have not fired; a search already started
  is never cancelled, and whichever search settles last wins. From any state with
  no search pending, typing \<open>q1\<close>, letting its timer fire, typing \<open>q2\<close>,
  letting its timer fire, and the \<open>q2\<close> search answering first leaves the box
  showing \<open>q2\<close> and the page listing the results for \<open>q1\<close>.
\<close>

theorem stale_search_results:
  assumes "js_trim q1 \<noteq> []" and "js_trim q2 \<noteq> []" and "q1 \<noteq> q2"
    and "searchQuery (ui w) \<noteq> q1" and "in_flight w = []"
  shows "searchQuery (ui (run_menu True [SetQuery q1, TimerFires, SetQuery q2, TimerFires,
             SearchSettled 1 s2, SearchSettled 0 s1] w)) = q2
    \<and> getFilteredItems (ui (run_menu True [SetQuery q1, TimerFires, SetQuery q2, TimerFires,
             SearchSettled 1 s2, SearchSettled 0 s1] w)) = searchMenuItems s1 q1
    \<and> in_flight (run_menu True [SetQuery q1, TimerFires, SetQuery q2, TimerFires,
             SearchSettled 1 s2, SearchSettled 0 s1] w) = []"
  using assms by (simp add: getFilteredItems_def)

theorem stale_search_results_witness:
  "map item_name (getFilteredItems (ui (run_menu True [SetQuery ''cake'', TimerFires, SetQuery ''lamb'',
      TimerFires, SearchSettled 1 (Cms (Some mockMenuItems)), SearchSettled 0 (Cms (Some mockMenuItems))]
      (menu_step True (LoadSettled (Cms (Some mockMenuItems)) (Cms (Some mockMenuItems))) initial_menu))))
     = [''New York Cheesecake'', ''Chocolate Decadence'']"
proof -
  have h: "js_trim ''cake'' \<noteq> []" "js_trim ''lamb'' \<noteq> []" "''cake'' \<noteq> ''lamb''"
    "searchQuery (ui (menu_step True (LoadSettled (Cms (Some mockMenuItems)) (Cms (Some mockMenuItems)))
       initial_menu)) \<noteq> ''cake''"
    "in_flight (menu_step True (LoadSettled (Cms (Some mockMenuItems)) (Cms (Some mockMenuItems)))
       initial_menu) = []"
    by (simp_all add: js_string_eval initial_menu_def)
  have eq: "getFilteredItems (ui (run_menu True [SetQuery ''cake'', TimerFires, SetQuery ''lamb'',
      TimerFires, SearchSettled 1 (Cms (Some mockMenuItems)), SearchSettled 0 (Cms (Some mockMenuItems))]
      (menu_step True (LoadSettled (Cms (Some mockMenuItems)) (Cms (Some mockMenuItems))) initial_menu)))
      = searchMenuItems (Cms (Some mockMenuItems)) ''cake''"
    using stale_search_results [OF h, of "Cms (Some mockMenuItems)" "Cms (Some mockMenuItems)"]
    by (simp only: conj_assoc)
  have "map item_name (searchMenuItems (Cms (Some mockMenuItems)) ''cake'')
          = [''New York Cheesecake'', ''Chocolate Decadence'']"
    by (simp add: searchMenuItems_def item_matches_def getMenuItems_def mockMenuItems_def
        js_string_eval unsplash_def)
  then show ?thesis by (simp only: eq)
qed

text \<open>
  C37. The page decides whether a search is active on the trimmed query but
  searches with the untrimmed one: from any state, typing a nonblank query lists
  exactly \<^verbatim>\<open>searchMenuItems\<close> of the query as typed, spaces included, and
  says "No items found matching your search." when that is empty. A stray
  leading space makes a dish unfindable: \<open>'' tiramisu''\<close> finds nothing in the
  catalogue, while \<open>''tiramisu''\<close> finds the Tiramisu.
\<close>

theorem untrimmed_search_query:
  assumes "searchQuery (ui w) \<noteq> q" and "js_trim q \<noteq> []" and "\<not> m_loading (ui w)"
  shows "getFilteredItems (ui (run_menu False [SetQuery q, TimerFires] w)) = searchMenuItems MockOnly q
    \<and> empty_message (ui (run_menu False [SetQuery q, TimerFires] w))
        = (if searchMenuItems MockOnly q = [] then Some ''No items found matching your search.'' else None)
    \<and> searchMenuItems MockOnly '' tiramisu'' = []
    \<and> map item_name (searchMenuItems MockOnly ''tiramisu'') = [''Tiramisu'']"
proof -
  have "q \<noteq> []" using assms(2) by (auto simp: js_trim_def)
  then have "getFilteredItems (ui (run_menu False [SetQuery q, TimerFires] w)) = searchMenuItems MockOnly q
    \<and> empty_message (ui (run_menu False [SetQuery q, TimerFires] w))
        = (if searchMenuItems MockOnly q = [] then Some ''No items found matching your search.'' else None)"
    using assms by (simp add: getFilteredItems_def empty_message_def)
  moreover have "searchMenuItems MockOnly '' tiramisu'' = []
    \<and> map item_name (searchMenuItems MockOnly ''tiramisu'') = [''Tiramisu'']"
    by (simp add: searchMenuItems_def item_matches_def getMenuItems_def mockMenuItems_def
        js_string_eval unsplash_def)
  ultimately show ?thesis by blast
qed

theorem untrimmed_search_query_witness:
  "getFilteredItems (ui (run_menu False [SetQuery '' tiramisu'', TimerFires]
      (menu_step False (LoadSettled MockOnly MockOnly) initial_menu))) = []"
proof -
  have h: "searchQuery (ui (menu_step False (LoadSettled MockOnly MockOnly) initial_menu)) \<noteq> '' tiramisu''"
    "js_trim '' tiramisu'' \<noteq> []"
    "\<not> m_loading (ui (menu_step False (LoadSettled MockOnly MockOnly) initial_menu))"
    by (simp_all add: initial_menu_def js_string_eval)
  show ?thesis using untrimmed_search_query [OF h] by simp
qed

text \<open>
  C38. The category tabs are written into the page (\<^verbatim>\<open>all\<close>,
  \<^verbatim>\<open>curry\<close>, \<^verbatim>\<open>dessert\<close>); the categories loaded from
  \<^verbatim>\<open>getMenuCategories\<close> are never rendered. With no search active, an item
  of any other category is listed under exactly one tab, "All Items", whatever
  categories were loaded.
\<close>

theorem other_category_only_under_all:
  assumes "js_trim (searchQuery u) = []" and "i \<in> set (menuItems u)"
    and "js_toLowerCase (item_category i) \<notin> {''curry'', ''dessert''}"
  shows "\<forall>t \<in> set tab_values. i \<in> set (getFilteredItems (u\<lparr>activeCategory := t\<rparr>)) \<longleftrightarrow> t = ''all''"
  using assms by (auto simp: tab_values_def getFilteredItems_def js_string_eval)

theorem other_category_only_under_all_witness:
  "(hd mockMenuItems)\<lparr>item_category := ''Drinks''\<rparr> \<in> set (getFilteredItems
      ((ui initial_menu)\<lparr>menuItems := [(hd mockMenuItems)\<lparr>item_category := ''Drinks''\<rparr>],
                         activeCategory := ''all''\<rparr>))
   \<and> (hd mockMenuItems)\<lparr>item_category := ''Drinks''\<rparr> \<notin> set (getFilteredItems
      ((ui initial_menu)\<lparr>menuItems := [(hd mockMenuItems)\<lparr>item_category := ''Drinks''\<rparr>],
                         activeCategory := ''curry''\<rparr>))"
proof -
  have h: "js_trim (searchQuery ((ui initial_menu)\<lparr>menuItems := [(hd mockMenuItems)\<lparr>item_category := ''Drinks''\<rparr>]\<rparr>)) = []"
    "(hd mockMenuItems)\<lparr>item_category := ''Drinks''\<rparr>
       \<in> set (menuItems ((ui initial_menu)\<lparr>menuItems := [(hd mockMenuItems)\<lparr>item_category := ''Drinks''\<rparr>]\<rparr>))"
    "js_toLowerCase (item_category ((hd mockMenuItems)\<lparr>item_category := ''Drinks''\<rparr>)) \<notin> {''curry'', ''dessert''}"
    by (simp_all add: initial_menu_def js_string_eval)
  show ?thesis using other_category_only_under_all [OF h] by (simp add: tab_values_def)
qed

end
