(* ===== verification/AppViews.thy ===== *)
theory AppViews
  imports Client DynamicMenu
begin

text \<open>
  The page chrome of \<^verbatim>\<open>src/App.jsx\<close> that \<open>render_app\<close> leaves out: the
  \<^verbatim>\<open>Header\<close> shown above every page (the signed-in user's photo and name with
  the sign-out button, and the mobile navigation the header toggles with its own
  state), the \<^verbatim>\<open>SignInPage\<close> (its error alert and its button, disabled and
  relabelled while \<^verbatim>\<open>loading\<close>), and the \<^verbatim>\<open>LandingPage\<close>, whose two buttons
  both call \<^verbatim>\<open>handleGetStarted\<close>. A JSX condition \<^verbatim>\<open>x &&\<close> or
  \<^verbatim>\<open>x ?\<close> on a string tests truthiness, so an empty string counts as absent.
  \<open>render_screen\<close> puts the header and the page together as \<^verbatim>\<open>App\<close>
  returns them, the loading screen having no header. The \<^verbatim>\<open>MenuPage\<close>
  wraps \<^verbatim>\<open>DynamicMenu\<close> in static text: \<open>sync_menu\<close> keeps the menu
  component's world exactly while the menu page is shown and starts it afresh
  (loading, empty query) each time the page is shown again.
\<close>

definition truthy_string :: "string option \<Rightarrow> string option" where
  "truthy_string s = (case s of Some t \<Rightarrow> if t = [] then None else Some t | None \<Rightarrow> None)"

record header_view =
  hv_user :: "(string option \<times> string) option"
  hv_mobile_nav :: bool

definition render_header :: "auth_state \<Rightarrow> bool \<Rightarrow> header_view" where
  "render_header st mobileMenuOpen =
     \<lparr>hv_user = (if isAuthenticated st
                 then map_option (\<lambda>u. (truthy_string (au_photoURL u), au_name u)) (user st)
                 else None),
      hv_mobile_nav = mobileMenuOpen\<rparr>"

definition toggle_mobile_menu :: "bool \<Rightarrow> bool" where
  "toggle_mobile_menu mobileMenuOpen = (\<not> mobileMenuOpen)"

record signin_view =
  sv_alert :: "string option"
  sv_disabled :: bool
  sv_label :: string

definition render_signin :: "auth_state \<Rightarrow> signin_view" where
  "render_signin st =
     \<lparr>sv_alert = truthy_string (authError st), sv_disabled = loading st,
      sv_label = (if loading st then ''Signing in...'' else ''Sign In with Google'')\<rparr>"

datatype landing_button = SignInToExplore | RequestAnInvite

definition landing_click :: "landing_button \<Rightarrow> client_event" where
  "landing_click b = GetStarted"

datatype screen =
    ScreenLoading
  | ScreenPage header_view view "signin_view option"

definition render_screen :: "app_state \<Rightarrow> bool \<Rightarrow> screen" where
  "render_screen a mobileMenuOpen =
     (if render_app a = ViewLoading then ScreenLoading
      else ScreenPage (render_header (auth a) mobileMenuOpen) (render_app a)
             (if render_app a = ViewSignIn then Some (render_signin (auth a)) else None))"

definition sync_menu :: "app_state \<Rightarrow> menu_world option \<Rightarrow> menu_world option" where
  "sync_menu a m =
     (if render_app a = ViewMenu then (case m of None \<Rightarrow> Some initial_menu | Some w \<Rightarrow> Some w) else None)"

definition menu_page_cards :: "app_state \<Rightarrow> menu_world option \<Rightarrow> menu_card list option" where
  "menu_page_cards a m = (if render_app a = ViewMenu then map_option menu_cards m else None)"

lemma render_header_user:
  "client_inv a \<Longrightarrow> hv_user (render_header (auth a) m) \<noteq> None \<longleftrightarrow> isAuthenticated (auth a)"
  by (auto simp: client_inv_def render_header_def)

lemma menu_remount_loading:
  "render_app a = ViewMenu \<Longrightarrow> sync_menu a None = Some initial_menu \<and>
   menu_page_cards a (sync_menu a None) = Some []"
  by (simp add: sync_menu_def menu_page_cards_def menu_cards_def initial_menu_def)

end
