(* ===== verification/JsonText.thy ===== *)
theory JsonText
  imports Json
begin

text \<open>
  \<^verbatim>\<open>JSON.stringify\<close> and \<^verbatim>\<open>JSON.parse\<close> on the values of \<open>json\<close>,
  following ECMA-262 (sections 25.5.1 and 25.5.2) and the JSON grammar of
  ECMA-404. Strings are 8-bit, so \<^verbatim>\<open>stringify\<close> escapes the quote, the
  backslash and the control characters and emits every other character as it is;
  \<^verbatim>\<open>parse\<close> accepts every escape, and reports as \<open>JUnsupported\<close> the inputs
  whose value the model cannot represent (a \<^verbatim>\<open>\u\<close> escape above
  \<^verbatim>\<open>\u00ff\<close>, a number with a fraction or an exponent, an integer
  beyond the largest double); for those JavaScript returns a value outside the
  model. An integer literal becomes the nearest double (\<open>js_number_of_int\<close>),
  as \<^verbatim>\<open>JSON.parse\<close> rounds it. The well-formed values
  (\<open>json_wf\<close>) hold doubles below \<open>10 ^ 21\<close> in magnitude, which
  \<^verbatim>\<open>JSON.stringify\<close> prints digit by digit (larger ones it prints with an
  exponent, which the model's printer does not). Any other malformed text is a
  \<^verbatim>\<open>SyntaxError\<close>, \<open>JSyntaxError\<close> here. A repeated key keeps its first
  position and its last value, as in a JavaScript object.

  The parser is one recursive function \<open>jp\<close> over a task (a value, the rest
  of an array, the rest of an object) defined with \<^theory_text>\<open>partial_function\<close>
  in the option monad, so that a non-terminating parse would be \<open>None\<close>; the
  theorem \<open>json_parse_total\<close> shows it never is.
\<close>

datatype json_error = JSyntaxError | JUnexpectedEnd | JUnsupported

definition json_esc_char :: "char \<Rightarrow> string" where
  "json_esc_char c =
     (if c = CHR 0x22 then [CHR 0x5C, CHR 0x22]
      else if c = CHR 0x5C then [CHR 0x5C, CHR 0x5C]
      else if c = CHR 0x08 then [CHR 0x5C, CHR ''b'']
      else if c = CHR 0x0C then [CHR 0x5C, CHR ''f'']
      else if c = CHR 0x0A then [CHR 0x5C, CHR ''n'']
      else if c = CHR 0x0D then [CHR 0x5C, CHR ''r'']
      else if c = CHR 0x09 then [CHR 0x5C, CHR ''t'']
      else if (of_char c :: nat) < 32
      then [CHR 0x5C, CHR ''u'', CHR ''0'', CHR ''0'', digit36 (of_char c div 16), digit36 (of_char c mod 16)]
      else [c])"

definition json_quote :: "string \<Rightarrow> string" where
  "json_quote s = CHR 0x22 # concat (map json_esc_char s) @ [CHR 0x22]"

fun json_commas :: "string list \<Rightarrow> string" where
  "json_commas [] = []"
| "json_commas [s] = s"
| "json_commas (s # ss) = s @ CHR '','' # json_commas ss"

fun json_stringify :: "json \<Rightarrow> string" where
  "json_stringify JNull = ''null''"
| "json_stringify (JBool b) = (if b then ''true'' else ''false'')"
| "json_stringify (JNum n) = js_toString10 n"
| "json_stringify (JStr s) = json_quote s"
| "json_stringify (JArr xs) = CHR ''['' # json_commas (map json_stringify xs) @ [CHR '']'']"
| "json_stringify (JObj fs) =
     CHR ''{'' # json_commas (map (\<lambda>(k, v). json_quote k @ CHR '':'' # json_stringify v) fs) @ [CHR ''}'']"

definition json_ws :: "char \<Rightarrow> bool" where
  "json_ws c \<longleftrightarrow> c = CHR '' '' \<or> c = CHR 0x09 \<or> c = CHR 0x0A \<or> c = CHR 0x0D"

definition skip_ws :: "string \<Rightarrow> string" where
  "skip_ws s = dropWhile json_ws s"

definition hex_value :: "char \<Rightarrow> nat option" where
  "hex_value c =
     (let n = of_char c :: nat in
      if 48 \<le> n \<and> n \<le> 57 then Some (n - 48)
      else if 97 \<le> n \<and> n \<le> 102 then Some (n - 87)
      else if 65 \<le> n \<and> n \<le> 70 then Some (n - 55)
      else None)"

fun hex4 :: "string \<Rightarrow> nat option" where
  "hex4 (a # b # c # d # _) =
     (case (hex_value a, hex_value b, hex_value c, hex_value d) of
        (Some x, Some y, Some z, Some w) \<Rightarrow> Some (4096 * x + 256 * y + 16 * z + w)
      | _ \<Rightarrow> None)"
| "hex4 _ = None"

definition unescape :: "char \<Rightarrow> char option" where
  "unescape e =
     (if e = CHR 0x22 \<or> e = CHR 0x5C \<or> e = CHR ''/'' then Some e
      else if e = CHR ''b'' then Some (CHR 0x08)
      else if e = CHR ''f'' then Some (CHR 0x0C)
      else if e = CHR ''n'' then Some (CHR 0x0A)
      else if e = CHR ''r'' then Some (CHR 0x0D)
      else if e = CHR ''t'' then Some (CHR 0x09)
      else None)"

fun lex_str :: "string \<Rightarrow> string \<Rightarrow> json_error + string \<times> string" where
  "lex_str acc [] = Inl JUnexpectedEnd"
| "lex_str acc (c # r) =
     (if c = CHR 0x22 then Inr (acc, r)
      else if c = CHR 0x5C then
        (case r of
           [] \<Rightarrow> Inl JUnexpectedEnd
         | e # r' \<Rightarrow>
             if e = CHR ''u'' then
               (case hex4 r' of
                  None \<Rightarrow> Inl JSyntaxError
                | Some n \<Rightarrow> if n < 256 then lex_str (acc @ [char_of n]) (drop 4 r') else Inl JUnsupported)
             else (case unescape e of None \<Rightarrow> Inl JSyntaxError | Some u \<Rightarrow> lex_str (acc @ [u]) r'))
      else if (of_char c :: nat) < 32 then Inl JSyntaxError
      else lex_str (acc @ [c]) r)"

definition lex_number :: "string \<Rightarrow> json_error + json \<times> string" where
  "lex_number s =
     (let neg = (s \<noteq> [] \<and> hd s = CHR ''-'');
          t = (if neg then tl s else s);
          ds = takeWhile js_is_digit t;
          rest = dropWhile js_is_digit t
      in if ds = [] \<or> (2 \<le> length ds \<and> hd ds = CHR ''0'') then Inl JSyntaxError
         else if rest \<noteq> [] \<and> (hd rest = CHR ''.'' \<or> hd rest = CHR ''e'' \<or> hd rest = CHR ''E'')
         then Inl JUnsupported
         else let v = js_number_of_int ((if neg then -1 else 1) * int (decimal_value ds))
              in if 2 ^ 1024 \<le> \<bar>v\<bar> then Inl JUnsupported else Inr (JNum v, rest))"

definition parse_scalar :: "string \<Rightarrow> json_error + json \<times> string" where
  "parse_scalar s =
     (if take 4 s = ''null'' then Inr (JNull, drop 4 s)
      else if take 4 s = ''true'' then Inr (JBool True, drop 4 s)
      else if take 5 s = ''false'' then Inr (JBool False, drop 5 s)
      else case s of
        [] \<Rightarrow> Inl JUnexpectedEnd
      | c # r \<Rightarrow>
          if c = CHR 0x22 then (case lex_str [] r of Inl e \<Rightarrow> Inl e | Inr (str, r') \<Rightarrow> Inr (JStr str, r'))
          else if c = CHR ''-'' \<or> js_is_digit c then lex_number s
          else Inl JSyntaxError)"

datatype jtask =
    PValue string
  | PElems "json list" string
  | PMembers "(string \<times> json) list" string

partial_function (option) jp :: "jtask \<Rightarrow> (json_error + json \<times> string) option" where
  "jp t =
     (case t of
        PValue s \<Rightarrow>
          (case skip_ws s of
             [] \<Rightarrow> Some (Inl JUnexpectedEnd)
           | c # r \<Rightarrow>
               if c = CHR ''['' then
                 (case skip_ws r of
                    c' # r' \<Rightarrow> if c' = CHR '']'' then Some (Inr (JArr [], r')) else jp (PElems [] r)
                  | [] \<Rightarrow> Some (Inl JUnexpectedEnd))
               else if c = CHR ''{'' then
                 (case skip_ws r of
                    c' # r' \<Rightarrow> if c' = CHR ''}'' then Some (Inr (JObj [], r')) else jp (PMembers [] r)
                  | [] \<Rightarrow> Some (Inl JUnexpectedEnd))
               else Some (parse_scalar (c # r)))
      | PElems acc s \<Rightarrow>
          Option.bind (jp (PValue s)) (\<lambda>v.
            case v of
              Inl e \<Rightarrow> Some (Inl e)
            | Inr (x, r) \<Rightarrow>
                (case skip_ws r of
                   [] \<Rightarrow> Some (Inl JUnexpectedEnd)
                 | c # r' \<Rightarrow>
                     if c = CHR '','' then jp (PElems (acc @ [x]) r')
                     else if c = CHR '']'' then Some (Inr (JArr (acc @ [x]), r'))
                     else Some (Inl JSyntaxError)))
      | PMembers acc s \<Rightarrow>
          (case skip_ws s of
             [] \<Rightarrow> Some (Inl JUnexpectedEnd)
           | c # r \<Rightarrow>
               if c \<noteq> CHR 0x22 then Some (Inl JSyntaxError)
               else
                 (case lex_str [] r of
                    Inl e \<Rightarrow> Some (Inl e)
                  | Inr (k, r2) \<Rightarrow>
                      (case skip_ws r2 of
                         [] \<Rightarrow> Some (Inl JUnexpectedEnd)
                       | c2 # r3 \<Rightarrow>
                           if c2 \<noteq> CHR '':'' then Some (Inl JSyntaxError)
                           else Option.bind (jp (PValue r3)) (\<lambda>v.
                             case v of
                               Inl e \<Rightarrow> Some (Inl e)
                             | Inr (x, r4) \<Rightarrow>
                                 (case skip_ws r4 of
                                    [] \<Rightarrow> Some (Inl JUnexpectedEnd)
                                  | c4 # r5 \<Rightarrow>
                                      if c4 = CHR '','' then jp (PMembers (AList.update k x acc) r5)
                                      else if c4 = CHR ''}'' then Some (Inr (JObj (AList.update k x acc), r5))
                                      else Some (Inl JSyntaxError)))))))"

declare jp.simps [code]

definition json_parse :: "string \<Rightarrow> (json_error + json) option" where
  "json_parse text =
     Option.bind (jp (PValue text)) (\<lambda>v.
       case v of
         Inl e \<Rightarrow> Some (Inl e)
       | Inr (x, r) \<Rightarrow> Some (if skip_ws r = [] then Inr x else Inl JSyntaxError))"


definition jtask_str :: "jtask \<Rightarrow> string" where
  "jtask_str t = (case t of PValue s \<Rightarrow> s | PElems _ s \<Rightarrow> s | PMembers _ s \<Rightarrow> s)"

definition jtask_size :: "jtask \<Rightarrow> nat" where
  "jtask_size t = (case t of PValue s \<Rightarrow> 2 * length s | PElems _ s \<Rightarrow> 2 * length s + 1
                   | PMembers _ s \<Rightarrow> 2 * length s + 1)"

definition jp_ok :: "jtask \<Rightarrow> bool" where
  "jp_ok t \<longleftrightarrow>
     (case jp t of None \<Rightarrow> False | Some (Inl _) \<Rightarrow> True | Some (Inr (x, r)) \<Rightarrow> length r < length (jtask_str t))"

definition json_stop :: "string \<Rightarrow> bool" where
  "json_stop r \<longleftrightarrow> r = [] \<or> hd r = CHR '','' \<or> hd r = CHR '']'' \<or> hd r = CHR ''}''"

fun json_wf :: "json \<Rightarrow> bool" where
  "json_wf (JArr xs) = list_all json_wf xs"
| "json_wf (JObj fs) = (distinct (map fst fs) \<and> list_all json_wf (map snd fs))"
| "json_wf JNull = True"
| "json_wf (JBool b) = True"
| "json_wf (JNum n) = (js_number_of_int n = n \<and> \<bar>n\<bar> < 10 ^ 21)"
| "json_wf (JStr s) = True"

definition json_member :: "string \<times> json \<Rightarrow> string" where
  "json_member p = json_quote (fst p) @ CHR '':'' # json_stringify (snd p)"

subsection \<open>Termination of the parser\<close>

lemma length_skip_ws: "length (skip_ws s) \<le> length s"
  by (simp add: skip_ws_def length_dropWhile_le)

lemma skip_ws_Cons_shorter: "skip_ws s = c # r \<Longrightarrow> length r < length s"
  using length_skip_ws [of s] by simp

lemma lex_str_shorter: "lex_str acc s = Inr (v, r) \<Longrightarrow> length r < length s"
proof (induction s arbitrary: acc rule: length_induct)
  case (1 s)
  show ?case
  proof (cases s)
    case Nil
    with "1.prems" show ?thesis by simp
  next
    case (Cons c s')
    have ih: "\<And>ys acc'. length ys < length s \<Longrightarrow> lex_str acc' ys = Inr (v, r) \<Longrightarrow> length r < length ys"
      using "1.IH" by blast
    from "1.prems" Cons show ?thesis
      by (auto split: if_splits list.splits option.splits dest!: ih [rotated])
  qed
qed

lemma lex_number_shorter: "lex_number s = Inr (v, r) \<Longrightarrow> length r < length s"
proof -
  assume a: "lex_number s = Inr (v, r)"
  define neg where "neg = (s \<noteq> [] \<and> hd s = CHR ''-'')"
  define t where "t = (if neg then tl s else s)"
  have ds: "takeWhile js_is_digit t \<noteq> []" and r: "r = dropWhile js_is_digit t"
    using a by (auto simp: lex_number_def Let_def neg_def t_def split: if_splits)
  have "length (dropWhile js_is_digit t) < length t"
    using ds by (cases t) (auto simp: length_dropWhile_le le_imp_less_Suc split: if_splits)
  moreover have "length t \<le> length s" by (simp add: t_def)
  ultimately show ?thesis using r by simp
qed

lemma parse_scalar_shorter: "parse_scalar s = Inr (v, r) \<Longrightarrow> length r < length s"
proof -
  assume a: "parse_scalar s = Inr (v, r)"
  show ?thesis
  proof (cases "take 4 s = ''null'' \<or> take 4 s = ''true'' \<or> take 5 s = ''false''")
    case True
    then have "length (take 4 s) = 4 \<or> length (take 5 s) = 5" by auto
    then have "4 \<le> length s" by auto
    with True a show ?thesis by (auto simp: parse_scalar_def split: if_splits)
  next
    case False
    then obtain c r0 where s: "s = c # r0"
      using a by (cases s) (auto simp: parse_scalar_def)
    show ?thesis
    proof (cases "c = CHR 0x22")
      case True
      with a False s obtain w where "lex_str [] r0 = Inr (w, r)"
        by (auto simp: parse_scalar_def split: sum.splits)
      then show ?thesis using s lex_str_shorter by fastforce
    next
      case c: False
      with a False s have "lex_number s = Inr (v, r)"
        by (auto simp: parse_scalar_def split: if_splits)
      then show ?thesis by (rule lex_number_shorter)
    qed
  qed
qed

lemma jp_PValue: "jp (PValue s) = (case skip_ws s of
             [] \<Rightarrow> Some (Inl JUnexpectedEnd)
           | c # r \<Rightarrow>
               if c = CHR ''['' then
                 (case skip_ws r of
                    c' # r' \<Rightarrow> if c' = CHR '']'' then Some (Inr (JArr [], r')) else jp (PElems [] r)
                  | [] \<Rightarrow> Some (Inl JUnexpectedEnd))
               else if c = CHR ''{'' then
                 (case skip_ws r of
                    c' # r' \<Rightarrow> if c' = CHR ''}'' then Some (Inr (JObj [], r')) else jp (PMembers [] r)
                  | [] \<Rightarrow> Some (Inl JUnexpectedEnd))
               else Some (parse_scalar (c # r)))"
  by (subst jp.simps) simp

lemma jp_PElems: "jp (PElems acc s) = Option.bind (jp (PValue s)) (\<lambda>v.
            case v of
              Inl e \<Rightarrow> Some (Inl e)
            | Inr (x, r) \<Rightarrow>
                (case skip_ws r of
                   [] \<Rightarrow> Some (Inl JUnexpectedEnd)
                 | c # r' \<Rightarrow>
                     if c = CHR '','' then jp (PElems (acc @ [x]) r')
                     else if c = CHR '']'' then Some (Inr (JArr (acc @ [x]), r'))
                     else Some (Inl JSyntaxError)))"
  by (subst jp.simps) simp

lemma jp_PMembers: "jp (PMembers acc s) = (case skip_ws s of
             [] \<Rightarrow> Some (Inl JUnexpectedEnd)
           | c # r \<Rightarrow>
               if c \<noteq> CHR 0x22 then Some (Inl JSyntaxError)
               else
                 (case lex_str [] r of
                    Inl e \<Rightarrow> Some (Inl e)
                  | Inr (k, r2) \<Rightarrow>
                      (case skip_ws r2 of
                         [] \<Rightarrow> Some (Inl JUnexpectedEnd)
                       | c2 # r3 \<Rightarrow>
                           if c2 \<noteq> CHR '':'' then Some (Inl JSyntaxError)
                           else Option.bind (jp (PValue r3)) (\<lambda>v.
                             case v of
                               Inl e \<Rightarrow> Some (Inl e)
                             | Inr (x, r4) \<Rightarrow>
                                 (case skip_ws r4 of
                                    [] \<Rightarrow> Some (Inl JUnexpectedEnd)
                                  | c4 # r5 \<Rightarrow>
                                      if c4 = CHR '','' then jp (PMembers (AList.update k x acc) r5)
                                      else if c4 = CHR ''}'' then Some (Inr (JObj (AList.update k x acc), r5))
                                      else Some (Inl JSyntaxError))))))"
  by (subst jp.simps) simp

lemma jtask_str_simps [simp]:
  "jtask_str (PValue s) = s" "jtask_str (PElems acc s) = s" "jtask_str (PMembers macc s) = s"
  by (simp_all add: jtask_str_def)

lemma jp_okI:
  "jp t = Some (Inl e) \<Longrightarrow> jp_ok t"
  "jp t = Some (Inr (x, r)) \<Longrightarrow> length r < length (jtask_str t) \<Longrightarrow> jp_ok t"
  by (simp_all add: jp_ok_def)

lemma jp_ok_weaken:
  "jp_ok t \<Longrightarrow> length (jtask_str t) \<le> n \<Longrightarrow>
     \<exists>res. jp t = Some res \<and> (\<forall>x r. res = Inr (x, r) \<longrightarrow> length r < n)"
  by (auto simp: jp_ok_def split: option.splits sum.splits)

lemma parse_scalar_ok:
  "skip_ws s = c # r \<Longrightarrow> parse_scalar (c # r) = Inr (x, r') \<Longrightarrow> length r' < length s"
  using parse_scalar_shorter [of "c # r" x r'] length_skip_ws [of s] by simp

lemma jp_ok_PValue:
  assumes IH: "\<And>t'. jtask_size t' < 2 * length s \<Longrightarrow> jp_ok t'"
  shows "jp_ok (PValue s)"
proof (cases "skip_ws s")
  case Nil
  then show ?thesis by (simp add: jp_ok_def jp_PValue)
next
  case (Cons c r)
  then have lr: "length r < length s" by (rule skip_ws_Cons_shorter)
  obtain re where re: "jp (PElems [] r) = Some re" and rel: "\<forall>x r2. re = Inr (x, r2) \<longrightarrow> length r2 < length s"
    using jp_ok_weaken [OF IH [of "PElems [] r"], of "length s"] lr by (auto simp: jtask_size_def)
  obtain rm where rm: "jp (PMembers [] r) = Some rm" and rml: "\<forall>x r2. rm = Inr (x, r2) \<longrightarrow> length r2 < length s"
    using jp_ok_weaken [OF IH [of "PMembers [] r"], of "length s"] lr by (auto simp: jtask_size_def)
  have close: "skip_ws r = c' # r' \<Longrightarrow> length r' < length s" for c' r'
    using skip_ws_Cons_shorter [of r c' r'] lr by simp
  have sc: "jp_ok (PValue s)" if "jp (PValue s) = Some (parse_scalar (c # r))"
    using that parse_scalar_ok [OF Cons] by (cases "parse_scalar (c # r)") (auto simp: jp_ok_def)
  have nested: "jp_ok (PValue s)" if "jp (PValue s) = Some res" "res = re \<or> res = rm" for res
    using that rel rml by (cases res) (auto simp: jp_ok_def)
  show ?thesis
  proof (cases "c = CHR ''['' \<or> c = CHR ''{''")
    case True
    show ?thesis
    proof (cases "skip_ws r")
      case Nil
      then show ?thesis using Cons True by (auto simp: jp_ok_def jp_PValue)
    next
      case (Cons c' r')
      then show ?thesis
        using \<open>skip_ws s = c # r\<close> True close [OF Cons] re rm nested
        by (auto simp: jp_ok_def jp_PValue)
    qed
  next
    case False
    then show ?thesis using Cons sc by (simp add: jp_PValue)
  qed
qed

lemma jp_ok_PElems:
  assumes IH: "\<And>t'. jtask_size t' < 2 * length s + 1 \<Longrightarrow> jp_ok t'"
  shows "jp_ok (PElems acc s)"
proof -
  obtain v where v: "jp (PValue s) = Some v" and vl: "\<forall>x r. v = Inr (x, r) \<longrightarrow> length r < length s"
    using jp_ok_weaken [OF IH [of "PValue s"], of "length s"] by (auto simp: jtask_size_def)
  show ?thesis
  proof (cases v)
    case (Inl e)
    then show ?thesis using v by (intro jp_okI(1) [of _ e]) (simp add: jp_PElems)
  next
    case (Inr p)
    obtain x r where p: "p = (x, r)" by (cases p)
    have lr: "length r < length s" using vl Inr p by simp
    show ?thesis
    proof (cases "skip_ws r")
      case Nil
      then show ?thesis using v Inr p by (intro jp_okI(1) [of _ JUnexpectedEnd]) (simp add: jp_PElems)
    next
      case (Cons c r')
      have lr': "length r' < length s" using skip_ws_Cons_shorter [OF Cons] lr by simp
      obtain w where w: "jp (PElems (acc @ [x]) r') = Some w"
        and wl: "\<forall>y r2. w = Inr (y, r2) \<longrightarrow> length r2 < length s"
        using jp_ok_weaken [OF IH [of "PElems (acc @ [x]) r'"], of "length s"] lr'
        by (auto simp: jtask_size_def)
      show ?thesis
        using v Inr p Cons w wl lr'
        by (cases w) (auto simp: jp_ok_def jp_PElems)
    qed
  qed
qed

lemma jp_ok_PMembers:
  assumes IH: "\<And>t'. jtask_size t' < 2 * length s + 1 \<Longrightarrow> jp_ok t'"
  shows "jp_ok (PMembers acc s)"
proof (cases "skip_ws s")
  case Nil
  then show ?thesis by (simp add: jp_ok_def jp_PMembers)
next
  case (Cons c r)
  have lr: "length r < length s" using Cons by (rule skip_ws_Cons_shorter)
  show ?thesis
  proof (cases "c = CHR 0x22")
    case False
    then show ?thesis using Cons by (simp add: jp_ok_def jp_PMembers)
  next
    case True
    show ?thesis
    proof (cases "lex_str [] r")
      case (Inl e)
      then show ?thesis using Cons True by (simp add: jp_ok_def jp_PMembers)
    next
      case (Inr kr)
      obtain k r2 where kr: "kr = (k, r2)" by (cases kr)
      have l2: "length r2 < length s" using lex_str_shorter [of "[]" r k r2] Inr kr lr by simp
      show ?thesis
      proof (cases "skip_ws r2")
        case Nil
        then show ?thesis using Cons True Inr kr by (simp add: jp_ok_def jp_PMembers)
      next
        case (Cons c2 r3)
        have l3: "length r3 < length s" using skip_ws_Cons_shorter [OF Cons] l2 by simp
        obtain v where v: "jp (PValue r3) = Some v" and vl: "\<forall>x r. v = Inr (x, r) \<longrightarrow> length r < length s"
          using jp_ok_weaken [OF IH [of "PValue r3"], of "length s"] l3 by (auto simp: jtask_size_def)
        have rest: "jp_ok (PMembers acc s)"
          if "jp (PMembers acc s) = (if c2 \<noteq> CHR '':'' then Some (Inl JSyntaxError) else Option.bind (jp (PValue r3)) f)"
            and "\<And>e. f (Inl e) = Some (Inl e)"
            and "\<And>x r4. length r4 < length s \<Longrightarrow> f (Inr (x, r4)) \<noteq> None \<and>
                   (\<forall>y r5. f (Inr (x, r4)) = Some (Inr (y, r5)) \<longrightarrow> length r5 < length s)"
          for f
        proof (cases v)
          case (Inl e)
          then show ?thesis using that(1,2) v by (simp add: jp_ok_def)
        next
          case (Inr p)
          obtain a b where p: "p = (a, b)" by (cases p)
          have "length b < length s" using vl Inr p by simp
          then have "f (Inr (a, b)) \<noteq> None \<and>
                     (\<forall>y r5. f (Inr (a, b)) = Some (Inr (y, r5)) \<longrightarrow> length r5 < length s)"
            by (rule that(3))
          then show ?thesis using that(1) v Inr p
            by (auto simp: jp_ok_def split: option.split sum.split)
        qed
        define f where "f = (\<lambda>v. case v of Inl e \<Rightarrow> Some (Inl e)
                   | Inr (x, r4) \<Rightarrow> (case skip_ws r4 of [] \<Rightarrow> Some (Inl JUnexpectedEnd)
                       | c4 # r5 \<Rightarrow> if c4 = CHR '','' then jp (PMembers (AList.update k x acc) r5)
                           else if c4 = CHR ''}'' then Some (Inr (JObj (AList.update k x acc), r5))
                           else Some (Inl JSyntaxError)))"
        have eq: "jp (PMembers acc s) = (if c2 \<noteq> CHR '':'' then Some (Inl JSyntaxError)
                    else Option.bind (jp (PValue r3)) f)"
          using \<open>skip_ws s = c # r\<close> True Inr kr Cons by (simp add: jp_PMembers f_def)
        have h2: "\<And>e. f (Inl e) = Some (Inl e)" by (simp add: f_def)
        have h3: "f (Inr (x, r4)) \<noteq> None \<and>
                  (\<forall>y r5. f (Inr (x, r4)) = Some (Inr (y, r5)) \<longrightarrow> length r5 < length s)"
          if l4: "length r4 < length s" for x r4
        proof (cases "skip_ws r4")
          case Nil
          then show ?thesis by (simp add: f_def)
        next
          case (Cons c4 r5)
          have l5: "length r5 < length s" using skip_ws_Cons_shorter [OF Cons] l4 by simp
          obtain w where w: "jp (PMembers (AList.update k x acc) r5) = Some w"
            and wl: "\<forall>y r6. w = Inr (y, r6) \<longrightarrow> length r6 < length s"
            using jp_ok_weaken [OF IH [of "PMembers (AList.update k x acc) r5"], of "length s"] l5
            by (auto simp: jtask_size_def)
          show ?thesis using Cons w wl l5 by (auto simp: f_def)
        qed
        show ?thesis by (rule rest [OF eq h2 h3])
      qed
    qed
  qed
qed

lemma jp_ok_all: "jp_ok t"
proof (induction "jtask_size t" arbitrary: t rule: less_induct)
  case less
  show ?case
  proof (cases t)
    case (PValue s)
    then show ?thesis using jp_ok_PValue [of s] less by (simp add: jtask_size_def)
  next
    case (PElems acc s)
    then show ?thesis using jp_ok_PElems [of s acc] less by (simp add: jtask_size_def)
  next
    case (PMembers acc s)
    then show ?thesis using jp_ok_PMembers [of s acc] less by (simp add: jtask_size_def)
  qed
qed

text \<open>
  The model of \<^verbatim>\<open>JSON.parse\<close> returns on every input: the parser, defined as a
  partial function whose non-termination would be \<open>None\<close>, yields a value or a
  syntax error for every text.
\<close>

lemma json_parse_total: "json_parse text \<noteq> None"
  using jp_ok_all [of "PValue text"]
  by (auto simp: json_parse_def jp_ok_def split: option.splits sum.splits prod.splits)

subsection \<open>Round trip\<close>

lemma skip_ws_Cons [simp]: "\<not> json_ws c \<Longrightarrow> skip_ws (c # r) = c # r"
  by (simp add: skip_ws_def)

lemma skip_ws_stop: "json_stop r \<Longrightarrow> skip_ws r = r"
  by (cases r) (auto simp: json_stop_def json_ws_def skip_ws_def)

lemma nat_toString10_Cons: "\<exists>d r. nat_toString10 n = digit36 d # r \<and> d < 10 \<and> (r \<noteq> [] \<longrightarrow> d \<noteq> 0)"
proof (induction n rule: nat_toString10.induct)
  case (1 n)
  show ?case
  proof (cases "n < 10")
    case True
    then show ?thesis by (subst nat_toString10.simps) auto
  next
    case False
    then have "n div 10 \<noteq> 0" by simp
    obtain d r where dr: "nat_toString10 (n div 10) = digit36 d # r" "d < 10" "r \<noteq> [] \<longrightarrow> d \<noteq> 0"
      using "1.IH" False by blast
    have "d \<noteq> 0"
    proof
      assume "d = 0"
      with dr have "nat_toString10 (n div 10) = [digit36 0]" by auto
      then have "decimal_value (nat_toString10 (n div 10)) = 0" by (simp add: decimal_value_def)
      with \<open>n div 10 \<noteq> 0\<close> show False by simp
    qed
    then show ?thesis using False dr by (subst nat_toString10.simps) auto
  qed
qed

lemma nat_toString10_nonempty [simp]: "nat_toString10 n \<noteq> []"
  using nat_toString10_Cons [of n] by auto

lemma hex_value_digit36: "d < 16 \<Longrightarrow> hex_value (digit36 d) = Some d"
  by (simp add: digit36_def hex_value_def Let_def)

lemma lex_str_esc: "lex_str acc (json_esc_char c @ r) = lex_str (acc @ [c]) r"
proof -
  have hex: "hex4 (CHR ''0'' # CHR ''0'' # digit36 (of_char c div 16) # digit36 (of_char c mod 16) # r)
               = Some (of_char c)" if "(of_char c :: nat) < 32"
  proof -
    have "of_char c div 16 < (16 :: nat)" "of_char c mod 16 < (16 :: nat)" using that by simp_all
    then show ?thesis
      by (simp add: hex_value_digit36) (simp add: hex_value_def)
  qed
  show ?thesis
    by (auto simp: json_esc_char_def unescape_def hex simp del: hex4.simps split: if_splits)
qed

lemma lex_str_quote:
  "lex_str acc (concat (map json_esc_char s) @ CHR 0x22 # rest) = Inr (acc @ s, rest)"
  by (induction s arbitrary: acc) (simp_all add: lex_str_esc)

lemma stop_not_digit:
  "json_stop rest \<Longrightarrow> takeWhile js_is_digit rest = [] \<and> dropWhile js_is_digit rest = rest"
  by (cases rest) (auto simp: json_stop_def js_is_digit_def)

lemma takeWhile_digits:
  "list_all js_is_digit ds \<Longrightarrow> json_stop rest \<Longrightarrow>
     takeWhile js_is_digit (ds @ rest) = ds \<and> dropWhile js_is_digit (ds @ rest) = rest"
  by (induction ds) (simp_all add: stop_not_digit)

lemma lex_number_toString10:
  assumes "json_stop rest" and "js_number_of_int n = n" and "\<bar>n\<bar> < 10 ^ 21"
  shows "lex_number (js_toString10 n @ rest) = Inr (JNum n, rest)"
proof -
  obtain d r where D: "nat_toString10 (nat \<bar>n\<bar>) = digit36 d # r" "d < 10" "r \<noteq> [] \<longrightarrow> d \<noteq> 0"
    using nat_toString10_Cons by blast
  have tw: "takeWhile js_is_digit (nat_toString10 (nat \<bar>n\<bar>) @ rest) = nat_toString10 (nat \<bar>n\<bar>)"
    and dw: "dropWhile js_is_digit (nat_toString10 (nat \<bar>n\<bar>) @ rest) = rest"
    using takeWhile_digits [OF nat_toString10_digits assms(1)] by simp_all
  have lz: "\<not> (2 \<le> length (nat_toString10 (nat \<bar>n\<bar>)) \<and> hd (nat_toString10 (nat \<bar>n\<bar>)) = CHR ''0'')"
  proof -
    have h: "d = 0" if "digit36 d = CHR ''0''"
    proof -
      have "(of_char (digit36 d) :: nat) = of_char (CHR ''0'')" using that by simp
      with D(2) show ?thesis by simp
    qed
    show ?thesis using D h by auto
  qed
  have stop: "\<not> (rest \<noteq> [] \<and> (hd rest = CHR ''.'' \<or> hd rest = CHR ''e'' \<or> hd rest = CHR ''E''))"
    using assms(1) by (auto simp: json_stop_def)
  have notminus: "digit36 d \<noteq> CHR ''-''"
  proof
    assume "digit36 d = CHR ''-''"
    then have "(of_char (digit36 d) :: nat) = of_char (CHR ''-'')" by simp
    with D(2) show False by simp
  qed
  have fin: "\<not> 2 ^ 1024 \<le> \<bar>n\<bar>" using assms(3) by simp
  show ?thesis
  proof (cases "n < 0")
    case True
    then show ?thesis using tw dw lz stop assms(2) fin
      by (simp add: lex_number_def js_toString10_def Let_def)
  next
    case False
    have "nat_toString10 (nat \<bar>n\<bar>) @ rest \<noteq> [] \<and> hd (nat_toString10 (nat \<bar>n\<bar>) @ rest) \<noteq> CHR ''-''"
      using D(1) notminus by simp
    then show ?thesis using False tw dw lz stop assms(2) fin
      by (simp add: lex_number_def js_toString10_def Let_def)
  qed
qed

lemma json_stringify_start:
  "\<exists>c r. json_stringify v = c # r \<and> \<not> json_ws c \<and> c \<noteq> CHR '']'' \<and> c \<noteq> CHR ''}'' \<and>
     c \<noteq> CHR '','' \<and> c \<noteq> CHR '':''"
proof (cases v)
  case (JNum n)
  obtain d r where D: "nat_toString10 (nat \<bar>n\<bar>) = digit36 d # r" "d < 10"
    using nat_toString10_Cons by blast
  have "(of_char (digit36 d) :: nat) = 48 + d" using D(2) by simp
  then have "\<not> json_ws (digit36 d) \<and> digit36 d \<noteq> CHR '']'' \<and> digit36 d \<noteq> CHR ''}'' \<and>
      digit36 d \<noteq> CHR '','' \<and> digit36 d \<noteq> CHR '':''"
    using D(2) unfolding json_ws_def by (auto dest: arg_cong [where f = "of_char :: char \<Rightarrow> nat"])
  then show ?thesis using JNum D
    by (cases "n < 0") (simp_all add: js_toString10_def json_ws_def abs_of_nonneg abs_of_neg)
qed (simp_all add: json_ws_def json_quote_def)

lemma js_toString10_start: "\<exists>c r. js_toString10 n = c # r \<and> (c = CHR ''-'' \<or> js_is_digit c)"
proof -
  obtain d r where D: "nat_toString10 (nat \<bar>n\<bar>) = digit36 d # r" "d < 10"
    using nat_toString10_Cons by blast
  then show ?thesis
    by (cases "n < 0") (auto simp: js_toString10_def abs_of_nonneg abs_of_neg)
qed

lemma parse_scalar_rt:
  assumes "json_stop rest"
  shows "parse_scalar (json_stringify JNull @ rest) = Inr (JNull, rest)"
    and "parse_scalar (json_stringify (JBool b) @ rest) = Inr (JBool b, rest)"
    and "parse_scalar (json_stringify (JStr s) @ rest) = Inr (JStr s, rest)"
    and "js_number_of_int n = n \<Longrightarrow> \<bar>n\<bar> < 10 ^ 21 \<Longrightarrow>
           parse_scalar (json_stringify (JNum n) @ rest) = Inr (JNum n, rest)"
proof -
  show "parse_scalar (json_stringify JNull @ rest) = Inr (JNull, rest)"
    by (simp add: parse_scalar_def)
  show "parse_scalar (json_stringify (JBool b) @ rest) = Inr (JBool b, rest)"
    by (cases b) (simp_all add: parse_scalar_def)
  show "parse_scalar (json_stringify (JStr s) @ rest) = Inr (JStr s, rest)"
    by (simp add: parse_scalar_def json_quote_def lex_str_quote)
  obtain d r where D: "nat_toString10 (nat \<bar>n\<bar>) = digit36 d # r" "d < 10"
    using nat_toString10_Cons by blast
  have dg: "js_is_digit (digit36 d)" using D(2) by simp
  have od: "(of_char (digit36 d) :: nat) = 48 + d" using D(2) by simp
  have first: "\<exists>c r'. js_toString10 n @ rest = c # r' \<and> (c = CHR ''-'' \<or> js_is_digit c)"
    using D dg by (auto simp: js_toString10_def)
  then obtain c r' where cr: "js_toString10 n @ rest = c # r'" "c = CHR ''-'' \<or> js_is_digit c" by blast
  have "c \<noteq> CHR ''n'' \<and> c \<noteq> CHR ''t'' \<and> c \<noteq> CHR ''f'' \<and> c \<noteq> CHR 0x22"
    using cr(2) by (auto simp: js_is_digit_def)
  then show "parse_scalar (json_stringify (JNum n) @ rest) = Inr (JNum n, rest)"
    if "js_number_of_int n = n" and "\<bar>n\<bar> < 10 ^ 21"
    using cr lex_number_toString10 [OF assms that] by (simp add: parse_scalar_def)
qed

lemma json_stop_simps [simp]:
  "json_stop []" "json_stop (CHR '','' # r)" "json_stop (CHR '']'' # r)" "json_stop (CHR ''}'' # r)"
  by (simp_all add: json_stop_def)

lemma json_commas_Cons2: "ss \<noteq> [] \<Longrightarrow> json_commas (s # ss) = s @ CHR '','' # json_commas ss"
  by (cases ss) simp_all

lemma jp_elems_rt:
  assumes "\<forall>y\<in>set ys. \<forall>rest. json_stop rest \<longrightarrow>
             jp (PValue (json_stringify y @ rest)) = Some (Inr (y, rest))"
    and "ys \<noteq> []"
  shows "jp (PElems acc (json_commas (map json_stringify ys) @ CHR '']'' # rest))
           = Some (Inr (JArr (acc @ ys), rest))"
  using assms
proof (induction ys arbitrary: acc)
  case Nil
  then show ?case by simp
next
  case (Cons y ys)
  show ?case
  proof (cases "ys = []")
    case True
    have "jp (PValue (json_stringify y @ CHR '']'' # rest)) = Some (Inr (y, CHR '']'' # rest))"
      using Cons.prems(1) by simp
    then show ?thesis using True by (simp add: jp_PElems json_ws_def)
  next
    case False
    have v: "jp (PValue (json_stringify y @ CHR '','' # json_commas (map json_stringify ys) @ CHR '']'' # rest))
               = Some (Inr (y, CHR '','' # json_commas (map json_stringify ys) @ CHR '']'' # rest))"
      using Cons.prems(1) by simp
    have "jp (PElems (acc @ [y]) (json_commas (map json_stringify ys) @ CHR '']'' # rest))
            = Some (Inr (JArr (acc @ [y] @ ys), rest))"
      using Cons.IH [of "acc @ [y]"] Cons.prems(1) False by simp
    then show ?thesis using False v by (simp add: jp_PElems json_commas_Cons2 json_ws_def)
  qed
qed

lemma json_stringify_JObj:
  "json_stringify (JObj fs) = CHR ''{'' # json_commas (map json_member fs) @ [CHR ''}'']"
proof -
  have "json_member = (\<lambda>x. json_quote (fst x) @ CHR '':'' # json_stringify (snd x))"
    by (rule ext) (simp add: json_member_def)
  then show ?thesis by (simp add: case_prod_beta')
qed

lemma jp_member_head:
  "jp (PValue (json_stringify v @ r)) = Some (Inr (v, r)) \<Longrightarrow> json_stop r \<Longrightarrow>
   jp (PMembers acc (json_member (k, v) @ r)) =
     (if skip_ws r = [] then Some (Inl JUnexpectedEnd)
      else if hd r = CHR '','' then jp (PMembers (AList.update k v acc) (tl r))
      else if hd r = CHR ''}'' then Some (Inr (JObj (AList.update k v acc), tl r))
      else Some (Inl JSyntaxError))"
  by (cases r) (auto simp: jp_PMembers json_member_def json_quote_def json_ws_def lex_str_quote
      skip_ws_stop json_stop_def)

lemma jp_members_rt:
  assumes "\<forall>p\<in>set fs. \<forall>rest. json_stop rest \<longrightarrow>
             jp (PValue (json_stringify (snd p) @ rest)) = Some (Inr (snd p, rest))"
    and "distinct (map fst fs)" and "fst ` set fs \<inter> fst ` set acc = {}" and "fs \<noteq> []"
  shows "jp (PMembers acc (json_commas (map json_member fs) @ CHR ''}'' # rest))
           = Some (Inr (JObj (acc @ fs), rest))"
  using assms
proof (induction fs arbitrary: acc)
  case Nil
  then show ?case by simp
next
  case (Cons p fs)
  obtain k v where p: "p = (k, v)" by (cases p)
  have upd: "AList.update k v acc = acc @ [(k, v)]"
    using Cons.prems(3) p by (intro update_new_append) auto
  show ?case
  proof (cases "fs = []")
    case True
    have "jp (PValue (json_stringify v @ CHR ''}'' # rest)) = Some (Inr (v, CHR ''}'' # rest))"
      using Cons.prems(1) p by auto
    then show ?thesis using True p upd jp_member_head [of v "CHR ''}'' # rest" acc k]
      by (simp add: json_ws_def)
  next
    case False
    have v: "jp (PValue (json_stringify v @ CHR '','' # json_commas (map json_member fs) @ CHR ''}'' # rest))
               = Some (Inr (v, CHR '','' # json_commas (map json_member fs) @ CHR ''}'' # rest))"
      using Cons.prems(1) p by auto
    have "jp (PMembers (acc @ [(k, v)]) (json_commas (map json_member fs) @ CHR ''}'' # rest))
            = Some (Inr (JObj ((acc @ [(k, v)]) @ fs), rest))"
      using Cons.IH [of "acc @ [(k, v)]"] Cons.prems p False by auto
    then show ?thesis
      using False p upd v jp_member_head [of v "CHR '','' # json_commas (map json_member fs) @ CHR ''}'' # rest" acc k]
      by (simp add: json_commas_Cons2 json_ws_def)
  qed
qed

lemma jp_scalar_rt:
  assumes "json_stop rest" and "parse_scalar (json_stringify v @ rest) = Inr (v, rest)"
    and "json_stringify v = c # r" and "\<not> json_ws c" and "c \<noteq> CHR ''[''" and "c \<noteq> CHR ''{''"
  shows "jp (PValue (json_stringify v @ rest)) = Some (Inr (v, rest))"
  using assms by (simp add: jp_PValue)

lemma jp_value_rt:
  "json_wf v \<Longrightarrow> json_stop rest \<Longrightarrow> jp (PValue (json_stringify v @ rest)) = Some (Inr (v, rest))"
proof (induction v arbitrary: rest rule: json_wf.induct)
  case (1 xs)
  show ?case
  proof (cases "xs = []")
    case True
    then show ?thesis using "1.prems" by (simp add: jp_PValue json_ws_def skip_ws_stop)
  next
    case False
    obtain c r where cr: "json_stringify (hd xs) = c # r" "\<not> json_ws c" "c \<noteq> CHR '']''"
      using json_stringify_start [of "hd xs"] by blast
    obtain X where X: "json_commas (map json_stringify xs) @ CHR '']'' # rest = c # X"
      using False cr by (cases xs; cases "tl xs") (auto simp: json_commas_Cons2)
    have el: "jp (PElems [] (json_commas (map json_stringify xs) @ CHR '']'' # rest))
                = Some (Inr (JArr ([] @ xs), rest))"
      using "1.IH" "1.prems" False by (intro jp_elems_rt) (auto simp: list_all_iff)
    show ?thesis using X cr el by (simp add: jp_PValue json_ws_def)
  qed
next
  case (2 fs)
  show ?case
  proof (cases "fs = []")
    case True
    then show ?thesis using "2.prems" by (simp add: jp_PValue json_ws_def skip_ws_stop)
  next
    case False
    then obtain p fs' where fs: "fs = p # fs'" by (cases fs) auto
    have mem: "jp (PMembers [] (json_commas (map json_member fs) @ CHR ''}'' # rest))
                 = Some (Inr (JObj ([] @ fs), rest))"
      using "2.IH" "2.prems" False by (intro jp_members_rt) (auto simp: list_all_iff)
    have start: "json_commas (map json_member fs) @ CHR ''}'' # rest = CHR 0x22 # tl (json_commas (map json_member fs) @ CHR ''}'' # rest)"
      using fs by (cases fs') (simp_all add: json_member_def json_quote_def json_commas_Cons2)
    obtain X where X: "json_commas (map json_member fs) @ CHR ''}'' # rest = CHR 0x22 # X"
      using start by blast
    show ?thesis
      using mem X by (simp add: json_stringify_JObj jp_PValue json_ws_def del: json_stringify.simps)
  qed
next
  case (3 rest)
  then show ?case by (simp add: jp_PValue json_ws_def parse_scalar_def)
next
  case (4 b rest)
  then show ?case by (cases b) (simp_all add: jp_PValue json_ws_def parse_scalar_def)
next
  case (5 n rest)
  then have stop: "json_stop rest" and num: "js_number_of_int n = n" "\<bar>n\<bar> < 10 ^ 21" by simp_all
  obtain c r where cr: "js_toString10 n = c # r" "c = CHR ''-'' \<or> js_is_digit c"
    using js_toString10_start by blast
  have nc: "\<not> json_ws c" "c \<noteq> CHR ''[''" "c \<noteq> CHR ''{''"
    using cr(2) by (auto simp: js_is_digit_def json_ws_def)
  show ?case
    by (rule jp_scalar_rt [OF stop parse_scalar_rt(4) [OF stop num] _ nc])
      (simp add: cr(1))
next
  case (6 s rest)
  then show ?case by (simp add: jp_PValue json_ws_def parse_scalar_def json_quote_def lex_str_quote)
qed

lemma json_parse_stringify: "json_wf v \<Longrightarrow> json_parse (json_stringify v) = Some (Inr v)"
  using jp_value_rt [of v "[]"] by (simp add: json_parse_def skip_ws_def)

text \<open>An integer literal beyond \<open>2 ^ 53\<close> comes back rounded to the
  nearest double, as in JavaScript.\<close>

lemma json_parse_rounds_to_double:
  "json_parse ''12345678901234567891'' = Some (Inr (JNum 12345678901234567168))"
  by (simp add: json_parse_def skip_ws_def jp_PValue json_ws_def parse_scalar_def lex_number_def
      js_is_digit_def decimal_value_def js_number_of_int_def nat_bits_pos round_shift_even_def)

end
