(* ===== verification/LegacyAuth.thy ===== *)
theory LegacyAuth
  imports JsonText JsString
begin

text \<open>
  The first client's authentication, which \<^verbatim>\<open>src/App.jsx\<close> no longer
  imports: the provider \<^verbatim>\<open>src/contexts/AuthContext.jsx\<close> and the form
  \<^verbatim>\<open>src/components/InviteCodeForm.jsx\<close>. The provider keeps the user and
  the invite flag in React state (\<open>legacy_auth\<close>) and mirrors them into
  \<^verbatim>\<open>localStorage\<close> (\<open>local_storage\<close>, an association list of strings;
  \<^verbatim>\<open>getItem\<close> is \<open>map_of\<close>, \<^verbatim>\<open>setItem\<close> is \<open>AList.update\<close>,
  \<^verbatim>\<open>removeItem\<close> is \<open>AList.delete\<close>). The user is stored as
  \<^verbatim>\<open>JSON.stringify(userData)\<close> and read back on mount with
  \<^verbatim>\<open>JSON.parse\<close>, both from \<open>JsonText\<close>. The user is any JSON value,
  \<open>JNull\<close> for \<^verbatim>\<open>null\<close>, as the provider never inspects it.

  The mount effect \<open>restore_session\<close> is \<open>None\<close> exactly when the stored
  text parses to a value the model cannot represent (\<open>JUnsupported\<close>).
  The form's \<^verbatim>\<open>setTimeout\<close> of one second and the provider's two-second
  promise split the handlers into a start and a finish; \<open>legacy_world\<close>
  holds the pending timers (the code each captured) and the pending request,
  and \<open>legacy_step\<close> applies one event; an event on a disabled control
  (the code input while verifying, a disabled button) changes nothing. A reload
  starts the page again: fresh React state, no timers, the mount effect on the
  same storage.
\<close>

type_synonym local_storage = "(string, string) js_map"

record legacy_auth =
  lg_user :: json
  lg_isAuthenticated :: bool
  lg_hasValidInvite :: bool
  lg_loading :: bool

definition initial_legacy :: legacy_auth where
  "initial_legacy = \<lparr>lg_user = JNull, lg_isAuthenticated = False, lg_hasValidInvite = False,
                     lg_loading = True\<rparr>"

definition user_key :: string where
  "user_key = ''curry2cakes_user''"

definition invite_key :: string where
  "invite_key = ''curry2cakes_invite_status''"

definition restore_session :: "local_storage \<Rightarrow> legacy_auth \<Rightarrow> (legacy_auth \<times> local_storage) option" where
  "restore_session ls st =
     (case map_of ls user_key of
        None \<Rightarrow> Some (st\<lparr>lg_loading := False\<rparr>, ls)
      | Some saved \<Rightarrow>
          if saved = [] then Some (st\<lparr>lg_loading := False\<rparr>, ls)
          else Option.bind (json_parse saved) (\<lambda>r.
            case r of
              Inr u \<Rightarrow>
                Some (st\<lparr>lg_user := u, lg_isAuthenticated := True,
                         lg_hasValidInvite := (map_of ls invite_key = Some ''true''),
                         lg_loading := False\<rparr>, ls)
            | Inl e \<Rightarrow>
                if e = JUnsupported then None
                else Some (st\<lparr>lg_loading := False\<rparr>, AList.delete invite_key (AList.delete user_key ls))))"

definition storage_representable :: "local_storage \<Rightarrow> bool" where
  "storage_representable ls \<longleftrightarrow>
     (case map_of ls user_key of None \<Rightarrow> True | Some s \<Rightarrow> json_parse s \<noteq> Some (Inl JUnsupported))"

definition legacy_login :: "json \<Rightarrow> legacy_auth \<Rightarrow> local_storage \<Rightarrow> legacy_auth \<times> local_storage" where
  "legacy_login u st ls =
     (st\<lparr>lg_user := u, lg_isAuthenticated := True\<rparr>, AList.update user_key (json_stringify u) ls)"

definition legacy_logout :: "legacy_auth \<Rightarrow> local_storage \<Rightarrow> legacy_auth \<times> local_storage" where
  "legacy_logout st ls =
     (st\<lparr>lg_user := JNull, lg_isAuthenticated := False, lg_hasValidInvite := False\<rparr>,
      AList.delete invite_key (AList.delete user_key ls))"

definition legacy_valid_codes :: "string list" where
  "legacy_valid_codes = [''C2C2023'', ''SPICY2SWEET'', ''EXCLUSIVE2023'', ''INNER_CIRCLE'']"

definition legacy_validateInviteCode ::
  "string \<Rightarrow> legacy_auth \<Rightarrow> local_storage \<Rightarrow> bool \<times> legacy_auth \<times> local_storage" where
  "legacy_validateInviteCode code st ls =
     (if js_toUpperCase code \<in> set legacy_valid_codes
      then (True, st\<lparr>lg_hasValidInvite := True\<rparr>, AList.update invite_key ''true'' ls)
      else (False, st, ls))"

definition legacy_request_message :: string where
  "legacy_request_message = ''Invite code request sent! Check your email in a few minutes.''"

definition legacy_requestInviteCode :: "json \<Rightarrow> json" where
  "legacy_requestInviteCode email =
     JObj [(''success'', JBool True), (''message'', JStr legacy_request_message)]"

record legacy_form =
  lf_inviteCode :: string
  lf_error :: string
  lf_isLoading :: bool
  lf_requestStatus :: "(string \<times> json option) option"
  lf_isRequestingCode :: bool

definition legacy_form_init :: legacy_form where
  "legacy_form_init = \<lparr>lf_inviteCode = [], lf_error = [], lf_isLoading = False,
                        lf_requestStatus = None, lf_isRequestingCode = False\<rparr>"

definition not_on_list_message :: string where
  "not_on_list_message =
     ''Sorry, this code isn'' @ [CHR 0x27] @ ''t on our list. Double-check your code or request a new one.''"

definition sign_in_first_message :: string where
  "sign_in_first_message = ''Please sign in first to request an invite code.''"

definition request_failed_message :: string where
  "request_failed_message = ''Failed to send invite request. Please try again.''"

definition legacy_submit_start :: "legacy_form \<Rightarrow> string \<times> legacy_form" where
  "legacy_submit_start f = (lf_inviteCode f, f\<lparr>lf_error := [], lf_isLoading := True\<rparr>)"

definition legacy_submit_fire ::
  "string \<Rightarrow> legacy_auth \<Rightarrow> local_storage \<Rightarrow> legacy_form \<Rightarrow> bool \<times> legacy_auth \<times> local_storage \<times> legacy_form" where
  "legacy_submit_fire code st ls f =
     (case legacy_validateInviteCode code st ls of
        (True, st', ls') \<Rightarrow> (True, st', ls', f\<lparr>lf_isLoading := False\<rparr>)
      | (False, st', ls') \<Rightarrow> (False, st', ls', f\<lparr>lf_error := not_on_list_message, lf_isLoading := False\<rparr>))"

definition legacy_request_start :: "json \<Rightarrow> legacy_form \<Rightarrow> json option \<times> legacy_form" where
  "legacy_request_start u f =
     (if \<not> js_truthy (js_get u ''email'') then (None, f\<lparr>lf_error := sign_in_first_message\<rparr>)
      else (js_get u ''email'',
            f\<lparr>lf_isRequestingCode := True, lf_error := [], lf_requestStatus := None\<rparr>))"

definition legacy_request_finish :: "json \<Rightarrow> legacy_form \<Rightarrow> legacy_form" where
  "legacy_request_finish result f =
     f\<lparr>lf_requestStatus :=
          (if js_truthy (js_get result ''success'')
           then Some (''success'', js_get result ''message'')
           else Some (''error'', Some (if js_truthy (js_get result ''message'')
                                      then the (js_get result ''message'')
                                      else JStr request_failed_message))),
        lf_isRequestingCode := False\<rparr>"

definition legacy_verify_disabled :: "legacy_form \<Rightarrow> bool" where
  "legacy_verify_disabled f \<longleftrightarrow> lf_isLoading f \<or> js_trim (lf_inviteCode f) = []"

definition legacy_request_disabled :: "legacy_form \<Rightarrow> json \<Rightarrow> bool" where
  "legacy_request_disabled f u \<longleftrightarrow> lf_isRequestingCode f \<or> \<not> js_truthy (js_get u ''email'')"

record legacy_world =
  lw_auth :: legacy_auth
  lw_storage :: local_storage
  lw_form :: legacy_form
  lw_timers :: "string list"
  lw_request :: "json option"

datatype legacy_event =
    LgReload
  | LgLogin json
  | LgLogout
  | LgTypeCode string
  | LgSubmit
  | LgSubmitTimer
  | LgRequest
  | LgRequestSettled

definition legacy_reload :: "local_storage \<Rightarrow> legacy_world option" where
  "legacy_reload ls =
     map_option (\<lambda>(st, ls'). \<lparr>lw_auth = st, lw_storage = ls', lw_form = legacy_form_init,
                              lw_timers = [], lw_request = None\<rparr>)
       (restore_session ls initial_legacy)"

fun legacy_step :: "legacy_event \<Rightarrow> legacy_world \<Rightarrow> legacy_world option" where
  "legacy_step LgReload w = legacy_reload (lw_storage w)"
| "legacy_step (LgLogin u) w =
     (case legacy_login u (lw_auth w) (lw_storage w) of
        (st, ls) \<Rightarrow> Some (w\<lparr>lw_auth := st, lw_storage := ls\<rparr>))"
| "legacy_step LgLogout w =
     (case legacy_logout (lw_auth w) (lw_storage w) of
        (st, ls) \<Rightarrow> Some (w\<lparr>lw_auth := st, lw_storage := ls\<rparr>))"
| "legacy_step (LgTypeCode s) w =
     (if lf_isLoading (lw_form w) then Some w
      else Some (w\<lparr>lw_form := (lw_form w)\<lparr>lf_inviteCode := s\<rparr>\<rparr>))"
| "legacy_step LgSubmit w =
     (if legacy_verify_disabled (lw_form w) then Some w
      else case legacy_submit_start (lw_form w) of
        (code, f) \<Rightarrow> Some (w\<lparr>lw_form := f, lw_timers := lw_timers w @ [code]\<rparr>))"
| "legacy_step LgSubmitTimer w =
     (case lw_timers w of
        [] \<Rightarrow> Some w
      | code # cs \<Rightarrow>
          (case legacy_submit_fire code (lw_auth w) (lw_storage w) (lw_form w) of
             (_, st, ls, f) \<Rightarrow> Some (w\<lparr>lw_auth := st, lw_storage := ls, lw_form := f, lw_timers := cs\<rparr>)))"
| "legacy_step LgRequest w =
     (if legacy_request_disabled (lw_form w) (lg_user (lw_auth w)) then Some w
      else case legacy_request_start (lg_user (lw_auth w)) (lw_form w) of
        (None, f) \<Rightarrow> Some (w\<lparr>lw_form := f\<rparr>)
      | (Some e, f) \<Rightarrow> Some (w\<lparr>lw_form := f, lw_request := Some e\<rparr>))"
| "legacy_step LgRequestSettled w =
     (case lw_request w of
        None \<Rightarrow> Some w
      | Some e \<Rightarrow>
          Some (w\<lparr>lw_form := legacy_request_finish (legacy_requestInviteCode e) (lw_form w),
                  lw_request := None\<rparr>))"

fun run_legacy :: "legacy_event list \<Rightarrow> legacy_world \<Rightarrow> legacy_world option" where
  "run_legacy [] w = Some w"
| "run_legacy (e # es) w = Option.bind (legacy_step e w) (run_legacy es)"

subsection \<open>Storage and reload\<close>

lemma user_invite_key_neq [simp]: "user_key \<noteq> invite_key" "invite_key \<noteq> user_key"
  by (simp_all add: user_key_def invite_key_def)

lemmas storage_simps = update_conv' delete_conv'

lemma js_upper_char_space: "js_is_space c \<Longrightarrow> js_upper_char c = c"
  by (auto simp: js_is_space_def js_upper_char_def Let_def of_char_of split: if_splits)

lemma legacy_code_trim:
  assumes "js_toUpperCase c \<in> set legacy_valid_codes"
  shows "js_trim c = c" and "c \<noteq> []"
proof -
  have "\<forall>x\<in>set (js_toUpperCase c). \<not> js_is_space x"
    using assms by (auto simp: legacy_valid_codes_def js_is_space_def)
  then show "js_trim c = c"
    by (intro js_trim_no_space) (auto simp: js_toUpperCase_def js_upper_char_space)
  show "c \<noteq> []" using assms by (auto simp: legacy_valid_codes_def js_toUpperCase_def)
qed

lemma json_parse_Nil: "json_parse [] = Some (Inl JUnexpectedEnd)"
  by (simp add: json_parse_def jp_PValue skip_ws_def)

lemma restore_session_parsed:
  "map_of ls user_key = Some s \<Longrightarrow> json_parse s = Some (Inr u) \<Longrightarrow>
   restore_session ls st = Some (st\<lparr>lg_user := u, lg_isAuthenticated := True,
     lg_hasValidInvite := (map_of ls invite_key = Some ''true''), lg_loading := False\<rparr>, ls)"
  by (cases "s = []") (simp_all add: restore_session_def json_parse_Nil)

lemma restore_session_absent:
  "map_of ls user_key = None \<Longrightarrow> restore_session ls st = Some (st\<lparr>lg_loading := False\<rparr>, ls)"
  by (simp add: restore_session_def)

lemma logout_then_reload:
  "legacy_step LgLogout w = Some w1 \<Longrightarrow>
   legacy_step LgReload w1 = Some \<lparr>lw_auth = initial_legacy\<lparr>lg_loading := False\<rparr>,
     lw_storage = lw_storage w1, lw_form = legacy_form_init, lw_timers = [], lw_request = None\<rparr>"
  by (auto simp: legacy_logout_def legacy_reload_def restore_session_absent storage_simps)

text \<open>The invite flag is read back from storage, not from the code that set it:
  a stored user and the string \<^verbatim>\<open>true\<close> under the flag's key unlock the
  menu on the next load, and a stored \<^verbatim>\<open>null\<close> signs in a user that is
  \<^verbatim>\<open>null\<close>.\<close>

lemma forged_invite_status:
  "restore_session [(user_key, ''{}''), (invite_key, ''true'')] initial_legacy =
     Some (initial_legacy\<lparr>lg_user := JObj [], lg_isAuthenticated := True, lg_hasValidInvite := True,
                          lg_loading := False\<rparr>, [(user_key, ''{}''), (invite_key, ''true'')])"
  by code_simp

lemma null_user_authenticated:
  "restore_session [(user_key, ''null'')] initial_legacy =
     Some (initial_legacy\<lparr>lg_isAuthenticated := True, lg_loading := False\<rparr>, [(user_key, ''null'')])"
  by code_simp

subsection \<open>Properties of the session\<close>

text \<open>
  C39. A session survives a reload: after a sign-in with a well-formed user
  object, typing one of the four accepted codes (in any case), submitting and
  letting the one-second timer fire, the invite is granted, and reloading the
  page restores the same user, signed in, with the invite flag set.
\<close>

theorem session_survives_reload:
  assumes "json_wf u" and "js_toUpperCase c \<in> set legacy_valid_codes"
    and "lw_timers w = []" and "\<not> lf_isLoading (lw_form w)"
  shows "\<exists>w1. run_legacy [LgLogin u, LgTypeCode c, LgSubmit, LgSubmitTimer] w = Some w1 \<and>
     lw_auth w1 = (lw_auth w)\<lparr>lg_user := u, lg_isAuthenticated := True, lg_hasValidInvite := True\<rparr> \<and>
     legacy_step LgReload w1 = Some \<lparr>lw_auth = (lw_auth w1)\<lparr>lg_loading := False\<rparr>,
        lw_storage = lw_storage w1, lw_form = legacy_form_init, lw_timers = [], lw_request = None\<rparr>"
proof -
  have "\<not> legacy_verify_disabled ((lw_form w)\<lparr>lf_inviteCode := c\<rparr>)"
    using assms(4) legacy_code_trim [OF assms(2)] by (simp add: legacy_verify_disabled_def)
  then show ?thesis
    using assms json_parse_stringify [OF assms(1)]
    by (simp add: legacy_login_def legacy_submit_start_def legacy_submit_fire_def
        legacy_validateInviteCode_def legacy_reload_def restore_session_parsed storage_simps)
qed

theorem session_survives_reload_witness:
  "\<exists>w1. run_legacy [LgLogin (JObj [(''email'', JStr ''ana@x.co''), (''name'', JStr ''Ana'')]),
          LgTypeCode ''spicy2sweet'', LgSubmit, LgSubmitTimer] (the (legacy_reload [])) = Some w1 \<and>
     lw_auth w1 = (lw_auth (the (legacy_reload [])))\<lparr>lg_user := JObj [(''email'', JStr ''ana@x.co''),
        (''name'', JStr ''Ana'')], lg_isAuthenticated := True, lg_hasValidInvite := True\<rparr> \<and>
     legacy_step LgReload w1 = Some \<lparr>lw_auth = (lw_auth w1)\<lparr>lg_loading := False\<rparr>,
        lw_storage = lw_storage w1, lw_form = legacy_form_init, lw_timers = [], lw_request = None\<rparr>"
  by (rule session_survives_reload)
    (simp_all add: legacy_valid_codes_def js_string_eval legacy_reload_def restore_session_absent
      legacy_form_init_def)

text \<open>
  C40. The mount effect always settles: for every storage content the model
  represents, restoring the session returns, leaves the loading state, and
  afterwards the state and the storage agree: the page is signed in exactly when
  a nonempty user text remains stored, and then the user is that text parsed.
  Malformed text is removed, so the next load does not fail again.
\<close>

theorem restore_session_settles:
  assumes "storage_representable ls"
  shows "\<exists>st' ls'. restore_session ls initial_legacy = Some (st', ls') \<and> \<not> lg_loading st' \<and>
     (lg_isAuthenticated st' \<longleftrightarrow> (\<exists>s. map_of ls' user_key = Some s \<and> s \<noteq> [])) \<and>
     (lg_isAuthenticated st' \<longrightarrow> json_parse (the (map_of ls' user_key)) = Some (Inr (lg_user st')))"
proof (cases "map_of ls user_key")
  case None
  then show ?thesis by (simp add: restore_session_absent initial_legacy_def)
next
  case (Some s)
  have total: "json_parse s \<noteq> None"
    using jp_ok_all [of "PValue s"]
    by (auto simp: json_parse_def jp_ok_def split: option.splits sum.splits prod.splits)
  show ?thesis
  proof (cases "s = []")
    case True
    then show ?thesis using Some by (simp add: restore_session_def initial_legacy_def)
  next
    case False
    then show ?thesis
      using Some total assms
      by (auto simp: restore_session_def storage_representable_def initial_legacy_def storage_simps
          split: sum.splits)
  qed
qed

theorem restore_session_settles_witness:
  "\<exists>st' ls'. restore_session [(user_key, ''{bad'')] initial_legacy = Some (st', ls') \<and> \<not> lg_loading st' \<and>
     (lg_isAuthenticated st' \<longleftrightarrow> (\<exists>s. map_of ls' user_key = Some s \<and> s \<noteq> [])) \<and>
     (lg_isAuthenticated st' \<longrightarrow> json_parse (the (map_of ls' user_key)) = Some (Inr (lg_user st')))"
  by (rule restore_session_settles) (unfold storage_representable_def, code_simp)

end
