(* ===== verification/GoogleJwt.thy ===== *)
theory GoogleJwt
  imports LegacyAuth
begin

text \<open>
  The sign-in button of the first client, \<^verbatim>\<open>src/components/GoogleSignIn.jsx\<close>.
  Its success handler decodes the payload of the ID token by hand: the second
  dot-separated segment, base64url turned into base64, \<^verbatim>\<open>atob\<close>, each byte
  percent-encoded and the whole decoded with \<^verbatim>\<open>decodeURIComponent\<close>, that is
  as UTF-8, then \<^verbatim>\<open>JSON.parse\<close>; seven claims of the payload become the user
  object handed to \<^verbatim>\<open>login\<close> of \<open>LegacyAuth\<close>. \<open>js_atob\<close> follows the
  forgiving-base64 decode of the HTML standard, \<open>decodeURIComponent\<close> the
  \<^verbatim>\<open>Decode\<close> operation of ECMA-262 (section 19.2.6.5) with an empty
  reserved set. A property that is \<^verbatim>\<open>undefined\<close> in the user object is left
  out of \<open>user_data_of\<close>: reading it and \<^verbatim>\<open>JSON.stringify\<close> cannot tell
  the two apart. Every exception the handler catches is a \<open>signin_error\<close>;
  \<open>Unrepresentable\<close> stands for a decoded character above \<^verbatim>\<open>\u00ff\<close>
  or a JSON value outside \<open>json\<close>. The encoders \<open>b64url_encode\<close> (RFC 7515, no padding) and
  \<open>utf8_encode\<close> are the token issuer's, not code of this repository; they
  state what the handler is meant to invert.
\<close>

datatype signin_error = NoPayload | BadBase64 | BadEncoding | BadJson | NullPayload

datatype uri_error = URIMalformed | URIUnsupported

datatype google_outcome = SignedIn json | SignInError signin_error | Unrepresentable

definition jwt_segment1 :: "string \<Rightarrow> string option" where
  "jwt_segment1 t =
     (if CHR ''.'' \<in> set t
      then Some (takeWhile (\<lambda>c. c \<noteq> CHR ''.'') (tl (dropWhile (\<lambda>c. c \<noteq> CHR ''.'') t)))
      else None)"

definition url_to_b64_char :: "char \<Rightarrow> char" where
  "url_to_b64_char c = (if c = CHR ''-'' then CHR ''+'' else if c = CHR ''_'' then CHR ''/'' else c)"

definition ascii_ws :: "char \<Rightarrow> bool" where
  "ascii_ws c \<longleftrightarrow> c = CHR 0x09 \<or> c = CHR 0x0A \<or> c = CHR 0x0C \<or> c = CHR 0x0D \<or> c = CHR '' ''"

definition b64_value :: "char \<Rightarrow> nat option" where
  "b64_value c =
     (let n = of_char c :: nat in
      if 65 \<le> n \<and> n \<le> 90 then Some (n - 65)
      else if 97 \<le> n \<and> n \<le> 122 then Some (n - 71)
      else if 48 \<le> n \<and> n \<le> 57 then Some (n + 4)
      else if n = 43 then Some 62
      else if n = 47 then Some 63
      else None)"

fun b64_groups :: "nat list \<Rightarrow> string" where
  "b64_groups (a # b # c # d # r) =
     (let n = a * 262144 + b * 4096 + c * 64 + d
      in char_of (n div 65536) # char_of (n div 256 mod 256) # char_of (n mod 256) # b64_groups r)"
| "b64_groups [a, b, c] =
     (let n = (a * 4096 + b * 64 + c) div 4 in [char_of (n div 256), char_of (n mod 256)])"
| "b64_groups [a, b] = [char_of ((a * 64 + b) div 16)]"
| "b64_groups _ = []"

definition strip_padding :: "string \<Rightarrow> string" where
  "strip_padding t =
     (if length t mod 4 = 0 \<and> drop (length t - 2) t = ''=='' then take (length t - 2) t
      else if length t mod 4 = 0 \<and> t \<noteq> [] \<and> last t = CHR ''='' then butlast t
      else t)"

definition js_atob :: "string \<Rightarrow> string option" where
  "js_atob s =
     (let t = strip_padding (filter (\<lambda>c. \<not> ascii_ws c) s)
      in if length t mod 4 = 1 then None
         else if list_all (\<lambda>c. b64_value c \<noteq> None) t then Some (b64_groups (map (the \<circ> b64_value) t))
         else None)"

fun nat_toString16 :: "nat \<Rightarrow> string" where
  "nat_toString16 n =
     (if n < 16 then [digit36 n] else nat_toString16 (n div 16) @ [digit36 (n mod 16)])"

declare nat_toString16.simps [simp del]

definition pct_encode_char :: "char \<Rightarrow> string" where
  "pct_encode_char c =
     (let h = ''00'' @ nat_toString16 (of_char c) in CHR ''%'' # drop (length h - 2) h)"

definition pct_encode :: "string \<Rightarrow> string" where
  "pct_encode s = concat (map pct_encode_char s)"

definition lead_ones :: "nat \<Rightarrow> nat" where
  "lead_ones b =
     (if b < 128 then 0 else if b < 192 then 1 else if b < 224 then 2 else if b < 240 then 3
      else if b < 248 then 4 else 5)"

fun pct_bytes :: "nat \<Rightarrow> string \<Rightarrow> nat list option" where
  "pct_bytes 0 s = Some []"
| "pct_bytes (Suc k) (p # a # b # r) =
     (if p \<noteq> CHR ''%'' then None
      else case (hex_value a, hex_value b) of
        (Some x, Some y) \<Rightarrow>
          if (16 * x + y) div 64 = 2 then map_option (Cons (16 * x + y)) (pct_bytes k r) else None
      | _ \<Rightarrow> None)"
| "pct_bytes (Suc k) _ = None"

definition utf8_value :: "nat list \<Rightarrow> nat option" where
  "utf8_value bs =
     (case bs of
        [b0, b1] \<Rightarrow>
          let v = (b0 mod 32) * 64 + b1 mod 64 in if 128 \<le> v then Some v else None
      | [b0, b1, b2] \<Rightarrow>
          let v = (b0 mod 16) * 4096 + (b1 mod 64) * 64 + b2 mod 64
          in if 2048 \<le> v \<and> \<not> (55296 \<le> v \<and> v \<le> 57343) then Some v else None
      | [b0, b1, b2, b3] \<Rightarrow>
          let v = (b0 mod 8) * 262144 + (b1 mod 64) * 4096 + (b2 mod 64) * 64 + b3 mod 64
          in if 65536 \<le> v \<and> v \<le> 1114111 then Some v else None
      | _ \<Rightarrow> None)"

function decodeURIComponent :: "string \<Rightarrow> uri_error + string" where
  "decodeURIComponent [] = Inr []"
| "decodeURIComponent (c # r) =
     (if c \<noteq> CHR ''%'' then map_sum id (Cons c) (decodeURIComponent r)
      else case r of
        a # b # r' \<Rightarrow>
          (case (hex_value a, hex_value b) of
             (Some x, Some y) \<Rightarrow>
               let byte = 16 * x + y; n = lead_ones byte in
               if n = 0 then map_sum id (Cons (char_of byte)) (decodeURIComponent r')
               else if n = 1 \<or> 4 < n then Inl URIMalformed
               else (case pct_bytes (n - 1) r' of
                       None \<Rightarrow> Inl URIMalformed
                     | Some bs \<Rightarrow>
                         (case utf8_value (byte # bs) of
                            None \<Rightarrow> Inl URIMalformed
                          | Some v \<Rightarrow>
                              if v < 256 then map_sum id (Cons (char_of v)) (decodeURIComponent (drop (3 * (n - 1)) r'))
                              else Inl URIUnsupported))
           | _ \<Rightarrow> Inl URIMalformed)
      | _ \<Rightarrow> Inl URIMalformed)"
  by pat_completeness auto
termination
  by (relation "measure length") auto

definition google_fields :: "(string \<times> string) list" where
  "google_fields = [(''id'', ''sub''), (''email'', ''email''), (''name'', ''name''),
     (''picture'', ''picture''), (''given_name'', ''given_name''), (''family_name'', ''family_name''),
     (''email_verified'', ''email_verified'')]"

definition user_data_of :: "json \<Rightarrow> json" where
  "user_data_of info =
     JObj (concat (map (\<lambda>(k, src). case js_get info src of None \<Rightarrow> [] | Some v \<Rightarrow> [(k, v)])
                       google_fields))"

definition decode_jwt_payload :: "string \<Rightarrow> google_outcome" where
  "decode_jwt_payload token =
     (case jwt_segment1 token of
        None \<Rightarrow> SignInError NoPayload
      | Some seg \<Rightarrow>
          (case js_atob (map url_to_b64_char seg) of
             None \<Rightarrow> SignInError BadBase64
           | Some bin \<Rightarrow>
               (case decodeURIComponent (pct_encode bin) of
                  Inl URIMalformed \<Rightarrow> SignInError BadEncoding
                | Inl URIUnsupported \<Rightarrow> Unrepresentable
                | Inr text \<Rightarrow>
                    (case json_parse text of
                       Some (Inr JNull) \<Rightarrow> SignInError NullPayload
                     | Some (Inr info) \<Rightarrow> SignedIn (user_data_of info)
                     | Some (Inl JUnsupported) \<Rightarrow> Unrepresentable
                     | Some (Inl _) \<Rightarrow> SignInError BadJson
                     | None \<Rightarrow> Unrepresentable))))"

definition handleSuccess ::
  "string \<Rightarrow> legacy_auth \<Rightarrow> local_storage \<Rightarrow> google_outcome \<times> legacy_auth \<times> local_storage" where
  "handleSuccess token st ls =
     (case decode_jwt_payload token of
        SignedIn u \<Rightarrow> (SignedIn u, legacy_login u st ls)
      | r \<Rightarrow> (r, st, ls))"

definition b64url_char :: "nat \<Rightarrow> char" where
  "b64url_char d =
     (if d < 26 then char_of (65 + d) else if d < 52 then char_of (71 + d)
      else if d < 62 then char_of (d - 4) else if d = 62 then CHR ''-'' else CHR ''_'')"

fun b64url_encode :: "string \<Rightarrow> string" where
  "b64url_encode (a # b # c # r) =
     (let n = of_char a * 65536 + of_char b * 256 + of_char c
      in map b64url_char [n div 262144, n div 4096 mod 64, n div 64 mod 64, n mod 64] @ b64url_encode r)"
| "b64url_encode [a, b] =
     (let n = (of_char a * 256 + of_char b) * 4 in map b64url_char [n div 4096, n div 64 mod 64, n mod 64])"
| "b64url_encode [a] = (let n = of_char a * 16 in map b64url_char [n div 64, n mod 64])"
| "b64url_encode [] = []"

definition utf8_encode :: "string \<Rightarrow> string" where
  "utf8_encode s =
     concat (map (\<lambda>c. let n = of_char c :: nat in
                      if n < 128 then [c] else [char_of (192 + n div 64), char_of (128 + n mod 64)]) s)"

subsection \<open>Base64url\<close>

lemma of_char_lt_256 [simp]: "(of_char c :: nat) < 256"
  by (metis of_char_mod_256 mod_less_divisor zero_less_numeral)

lemma of_char_le_255 [simp]: "(of_char c :: nat) \<le> 255"
  using of_char_lt_256 [of c] by arith

lemma b64_value_url_char: "d < 64 \<Longrightarrow> b64_value (url_to_b64_char (b64url_char d)) = Some d"
  by (auto simp: b64_value_def url_to_b64_char_def b64url_char_def Let_def char_of_eq_iff take_bit_eq_mod)

lemma b64_value_char: "b64_value c = Some d \<Longrightarrow> \<not> ascii_ws c \<and> c \<noteq> CHR ''='' \<and> c \<noteq> CHR ''.''"
  by (auto simp: b64_value_def ascii_ws_def Let_def split: if_splits)

lemma b64url_encode_chars: "set (b64url_encode s) \<subseteq> b64url_char ` {..<64}"
proof (induction s rule: b64url_encode.induct)
  case (1 a b c' r)
  have "of_char a * 65536 + of_char b * 256 + (of_char c' :: nat) < 16777216"
    using of_char_lt_256 [of a] of_char_lt_256 [of b] of_char_lt_256 [of c'] by linarith
  then have "(of_char a * 65536 + of_char b * 256 + (of_char c' :: nat)) div 262144 < 64"
    by (simp add: div_less_iff_less_mult)
  then show ?case using 1 by (auto simp: Let_def intro!: imageI)
next
  case (2 a b)
  have "(of_char a * 256 + (of_char b :: nat)) * 4 < 262144"
    using of_char_le_255 [of a] of_char_le_255 [of b] by (simp only: distrib_right)
  then have "(of_char a * 256 + (of_char b :: nat)) * 4 div 4096 < 64"
    by (simp add: div_less_iff_less_mult)
  then show ?case using 2 by (auto simp: Let_def intro!: imageI)
next
  case (3 a)
  have "(of_char a :: nat) * 16 div 64 < 64"
    using of_char_lt_256 [of a] by (simp add: div_less_iff_less_mult)
  then show ?case using 3 by (auto simp: Let_def intro!: imageI)
qed simp

lemma div64_split: "(n::nat) div 64 = n div 4096 * 64 + n div 64 mod 64"
proof -
  have "n div 4096 = n div 64 div 64" using div_mult2_eq [of n 64 64] by simp
  then show ?thesis using div_mult_mod_eq [of "n div 64" 64] by simp
qed
lemma div4096_split: "(n::nat) div 4096 = n div 262144 * 64 + n div 4096 mod 64"
proof -
  have "n div 262144 = n div 4096 div 64" using div_mult2_eq [of n 4096 64] by simp
  then show ?thesis using div_mult_mod_eq [of "n div 4096" 64] by simp
qed
lemma sextets4: "(n::nat) div 262144 * 262144 + n div 4096 mod 64 * 4096 + n div 64 mod 64 * 64 + n mod 64 = n"
  using div_mult_mod_eq [of n 64] div64_split [of n] div4096_split [of n] by linarith
lemma sextets3: "(n::nat) div 4096 * 4096 + n div 64 mod 64 * 64 + n mod 64 = n"
  using div_mult_mod_eq [of n 64] div64_split [of n] by linarith
lemma bytes3:
  assumes "a < 256" "b < 256" "(c::nat) < 256"
  shows "(a * 65536 + b * 256 + c) div 65536 = a" "(a * 65536 + b * 256 + c) div 256 mod 256 = b"
    "(a * 65536 + b * 256 + c) mod 256 = c"
proof -
  have "b * 256 + c < 65536" using assms by linarith
  then show "(a * 65536 + b * 256 + c) div 65536 = a" by simp
  have e: "a * 65536 + b * 256 + c = c + (a * 256 + b) * 256" by simp
  show "(a * 65536 + b * 256 + c) mod 256 = c" using assms by (simp only: e mod_mult_self1 mod_less)
  have "(a * 65536 + b * 256 + c) div 256 = a * 256 + b" using assms by simp
  then show "(a * 65536 + b * 256 + c) div 256 mod 256 = b" using assms by simp
qed

lemma b64_groups_encode: "b64_groups (map (the \<circ> b64_value \<circ> url_to_b64_char) (b64url_encode s)) = s"
proof (induction s rule: b64url_encode.induct)
  case (1 a b c r)
  define n where "n = of_char a * 65536 + of_char b * 256 + (of_char c :: nat)"
  have "n < 16777216"
    using of_char_lt_256 [of a] of_char_lt_256 [of b] of_char_lt_256 [of c] unfolding n_def by linarith
  then have "n div 262144 < 64" by (simp add: div_less_iff_less_mult)
  then have m: "map (the \<circ> b64_value \<circ> url_to_b64_char) (b64url_encode (a # b # c # r)) =
      n div 262144 # n div 4096 mod 64 # n div 64 mod 64 # n mod 64 #
      map (the \<circ> b64_value \<circ> url_to_b64_char) (b64url_encode r)"
    by (simp add: n_def [symmetric] Let_def b64_value_url_char)
  have bytes: "n div 65536 = of_char a" "n div 256 mod 256 = of_char b" "n mod 256 = of_char c"
    unfolding n_def using bytes3 [of "of_char a" "of_char b" "of_char c"] by simp_all
  then have chars: "char_of (n div 65536) = a" "char_of (n div 256) = b" "char_of n = c"
    by (metis char_of_char char_of_mod_256)+
  show ?case unfolding m using chars 1 by (simp add: sextets4 Let_def comp_def)
next
  case (2 a b)
  define n where "n = (of_char a * 256 + (of_char b :: nat)) * 4"
  have "n < 262144"
    using of_char_le_255 [of a] of_char_le_255 [of b] unfolding n_def by (simp only: distrib_right)
  then have "n div 4096 < 64" by (simp add: div_less_iff_less_mult)
  then have m: "map (the \<circ> b64_value \<circ> url_to_b64_char) (b64url_encode [a, b]) =
      [n div 4096, n div 64 mod 64, n mod 64]"
    unfolding b64url_encode.simps Let_def n_def [symmetric] by (simp add: b64_value_url_char)
  have "n div 4 div 256 = of_char a" "n div 4 mod 256 = of_char b"
    using of_char_lt_256 [of b] by (simp_all add: n_def)
  then have chars: "char_of (n div 4 div 256) = a" "char_of (n div 4) = b"
    by (metis char_of_char char_of_mod_256)+
  show ?case unfolding m using chars by (simp add: sextets3)
next
  case (3 a)
  have "(of_char a :: nat) * 16 div 64 < 64"
    using of_char_lt_256 [of a] by (simp add: div_less_iff_less_mult)
  then have "map (the \<circ> b64_value \<circ> url_to_b64_char) (b64url_encode [a]) =
      [of_char a * 16 div 64, of_char a * 16 mod 64]"
    by (simp add: Let_def b64_value_url_char)
  then show ?case by (simp only: list.simps b64_groups.simps div_mult_mod_eq) simp
qed simp

lemma length_b64url_encode: "length (b64url_encode s) mod 4 \<noteq> 1"
  by (induction s rule: b64url_encode.induct) (simp_all add: Let_def)

lemma strip_padding_id:
  assumes "CHR ''='' \<notin> set t"
  shows "strip_padding t = t"
proof -
  have "drop (length t - 2) t \<noteq> ''==''" using assms by (metis in_set_dropD list.set_intros(1))
  moreover have "t \<noteq> [] \<Longrightarrow> last t \<noteq> CHR ''=''" using assms last_in_set by metis
  ultimately show ?thesis by (auto simp: strip_padding_def)
qed

lemma b64url_encode_values:
  "c \<in> set (map url_to_b64_char (b64url_encode s)) \<Longrightarrow> \<exists>d<64. b64_value c = Some d"
  using b64url_encode_chars [of s] by (auto simp: b64_value_url_char)

lemma js_atob_b64url: "js_atob (map url_to_b64_char (b64url_encode s)) = Some s"
proof -
  let ?t = "map url_to_b64_char (b64url_encode s)"
  have ws: "filter (\<lambda>c. \<not> ascii_ws c) ?t = ?t" and eq: "CHR ''='' \<notin> set ?t"
    and all: "list_all (\<lambda>c. b64_value c \<noteq> None) ?t"
    using b64url_encode_values [of _ s] b64_value_char
    by (fastforce simp: list_all_iff filter_id_conv)+
  show ?thesis
    using length_b64url_encode [of s] b64_groups_encode [of s] all
    by (simp add: js_atob_def ws strip_padding_id [OF eq] map_map)
qed

subsection \<open>Percent-encoding and UTF-8\<close>

lemma digit36_0: "digit36 0 = CHR ''0''"
  by (simp add: digit36_def char_of_eq_iff)

lemma pct_encode_char_hex:
  "pct_encode_char c = [CHR ''%'', digit36 (of_char c div 16), digit36 (of_char c mod 16)]"
proof (cases "(of_char c :: nat) < 16")
  case True
  then show ?thesis
    by (simp add: pct_encode_char_def nat_toString16.simps digit36_0)
next
  case False
  have "(of_char c :: nat) div 16 < 16" using of_char_lt_256 [of c] by (simp add: div_less_iff_less_mult)
  then show ?thesis using False
    by (simp add: pct_encode_char_def nat_toString16.simps [of "of_char c"]
        nat_toString16.simps [of "of_char c div 16"])
qed

lemma decode_pct_ascii:
  assumes "(of_char c :: nat) < 128"
  shows "decodeURIComponent (pct_encode_char c @ r) = map_sum id (Cons c) (decodeURIComponent r)"
proof -
  have "(of_char c :: nat) div 16 < 16" "(of_char c :: nat) mod 16 < 16" using assms by simp_all
  moreover have "16 * (of_char c div 16) + of_char c mod 16 = (of_char c :: nat)" by simp
  ultimately show ?thesis
    using assms by (simp add: pct_encode_char_hex hex_value_digit36 lead_ones_def)
qed

lemma decode_pct_pair:
  assumes "128 \<le> n" and "n < (256 :: nat)"
  shows "decodeURIComponent (pct_encode_char (char_of (192 + n div 64)) @
           pct_encode_char (char_of (128 + n mod 64)) @ r) =
         map_sum id (Cons (char_of n)) (decodeURIComponent r)"
proof -
  define m where "m = n mod 64"
  have "m < 64" by (simp add: m_def)
  then have b1: "(128 + m) div 16 < 16" "(128 + m) mod 16 < 16" "(128 + m) div 64 = 2"
    "16 * ((128 + m) div 16) + (128 + m) mod 16 = 128 + m"
    by (simp_all add: div_less_iff_less_mult)
  have e: "128 + m = m + 64 * 2" by simp
  have "(128 + m) mod 64 = m" using \<open>m < 64\<close> by (simp only: e mod_mult_self2 mod_less)
  note b1 = b1 this
  have n: "n div 64 * 64 + m = n" by (simp add: m_def)
  have "2 \<le> n div 64" "n div 64 < 4"
    using assms by (simp_all add: less_eq_div_iff_mult_less_eq div_less_iff_less_mult)
  then consider "n div 64 = 2" | "n div 64 = 3" by arith
  then show ?thesis
  proof cases
    case 1
    then show ?thesis using b1 n assms
      by (simp add: m_def [symmetric] pct_encode_char_hex hex_value_digit36 lead_ones_def utf8_value_def)
  next
    case 2
    then show ?thesis using b1 n assms
      by (simp add: m_def [symmetric] pct_encode_char_hex hex_value_digit36 lead_ones_def utf8_value_def)
  qed
qed

lemma pct_encode_append [simp]: "pct_encode (xs @ ys) = pct_encode xs @ pct_encode ys"
  by (simp add: pct_encode_def)

lemma decode_utf8_encode: "decodeURIComponent (pct_encode (utf8_encode s)) = Inr s"
proof (induction s)
  case Nil
  then show ?case by (simp add: pct_encode_def utf8_encode_def)
next
  case (Cons c s)
  have split: "utf8_encode (c # s) =
      (if (of_char c :: nat) < 128 then [c]
       else [char_of (192 + (of_char c :: nat) div 64), char_of (128 + (of_char c :: nat) mod 64)])
      @ utf8_encode s"
    by (simp add: utf8_encode_def Let_def)
  show ?case
  proof (cases "(of_char c :: nat) < 128")
    case True
    then show ?thesis
      using Cons by (simp add: split pct_encode_def decode_pct_ascii [unfolded pct_encode_def])
  next
    case False
    then show ?thesis
      using Cons decode_pct_pair [of "of_char c" "pct_encode (utf8_encode s)"]
      by (simp add: split pct_encode_def)
  qed
qed

subsection \<open>The token\<close>

lemma dot_not_in_b64url_encode: "CHR ''.'' \<notin> set (b64url_encode s)"
proof
  assume "CHR ''.'' \<in> set (b64url_encode s)"
  then obtain d where "d < 64" "CHR ''.'' = b64url_char d" using b64url_encode_chars [of s] by blast
  then have "b64_value (url_to_b64_char (CHR ''.'')) = Some d" using b64_value_url_char by simp
  then have "b64_value (CHR ''.'') = Some d" by (simp add: url_to_b64_char_def)
  then show False using b64_value_char by blast
qed

lemma jwt_segment1_token:
  assumes "CHR ''.'' \<notin> set h" and "CHR ''.'' \<notin> set b"
  shows "jwt_segment1 (h @ CHR ''.'' # b @ CHR ''.'' # sig) = Some b"
proof -
  have "dropWhile (\<lambda>c. c \<noteq> CHR ''.'') (h @ CHR ''.'' # b @ CHR ''.'' # sig) = CHR ''.'' # b @ CHR ''.'' # sig"
    using assms(1) by (induction h) auto
  moreover have "takeWhile (\<lambda>c. c \<noteq> CHR ''.'') (b @ CHR ''.'' # sig) = b"
    using assms(2) by (induction b) auto
  ultimately show ?thesis by (simp add: jwt_segment1_def)
qed

lemma decode_jwt_payload_token:
  assumes "json_wf p" and "p \<noteq> JNull" and "CHR ''.'' \<notin> set h"
  shows "decode_jwt_payload (h @ CHR ''.'' # b64url_encode (utf8_encode (json_stringify p)) @ CHR ''.'' # sig) =
     SignedIn (user_data_of p)"
  using assms json_parse_stringify [OF assms(1)]
  by (cases p) (simp_all add: decode_jwt_payload_def jwt_segment1_token dot_not_in_b64url_encode
      js_atob_b64url decode_utf8_encode)

lemma user_data_of_wf:
  assumes "json_wf p"
  shows "json_wf (user_data_of p)"
proof -
  have vals: "js_get p k = Some v \<Longrightarrow> json_wf v" for k v
    using assms by (cases p) (auto simp: js_get_def list_all_iff dest: map_of_in_values)
  have "distinct (map fst (concat (map (\<lambda>(k, src). case js_get p src of None \<Rightarrow> [] | Some v \<Rightarrow> [(k, v)])
                                  google_fields)))"
    by (simp add: google_fields_def split: option.split)
  moreover have "list_all json_wf (map snd (concat (map (\<lambda>(k, src). case js_get p src of None \<Rightarrow> []
                    | Some v \<Rightarrow> [(k, v)]) google_fields)))"
    using vals by (simp add: google_fields_def split: option.split)
  ultimately show ?thesis by (simp add: user_data_of_def)
qed

text \<open>
  C23. The sign-in handler decodes every token the issuer can produce: for a
  well-formed payload object whose text is UTF-8 encoded and then base64url
  encoded into the second segment of a token, the handler signs in with the seven
  fields the component copies, and stores that user exactly as
  \<^verbatim>\<open>login\<close> does; the percent-encoding detour through
  \<^verbatim>\<open>decodeURIComponent\<close> restores every 8-bit character, not only ASCII.
\<close>

theorem handleSuccess_decodes_token:
  assumes "json_wf p" and "p \<noteq> JNull" and "CHR ''.'' \<notin> set h"
  shows "handleSuccess (h @ CHR ''.'' # b64url_encode (utf8_encode (json_stringify p)) @ CHR ''.'' # sig) st ls =
     (SignedIn (user_data_of p), legacy_login (user_data_of p) st ls)"
  using decode_jwt_payload_token [OF assms] by (simp add: handleSuccess_def)

theorem handleSuccess_decodes_token_witness:
  "handleSuccess (''eyJhbGciOiJSUzI1NiJ9'' @ CHR ''.'' # b64url_encode (utf8_encode (json_stringify
       (JObj [(''sub'', JStr ''42''), (''email'', JStr ''jose@x.co''), (''name'', JStr (''Jos'' @ [CHR 0xE9]))])))
       @ CHR ''.'' # ''sig'') initial_legacy [] =
   (SignedIn (user_data_of (JObj [(''sub'', JStr ''42''), (''email'', JStr ''jose@x.co''),
       (''name'', JStr (''Jos'' @ [CHR 0xE9]))])),
    legacy_login (user_data_of (JObj [(''sub'', JStr ''42''), (''email'', JStr ''jose@x.co''),
       (''name'', JStr (''Jos'' @ [CHR 0xE9]))])) initial_legacy [])"
  by (rule handleSuccess_decodes_token) simp_all

end
