(* ===== verification/Config.thy ===== *)
theory Config
  imports Menu
begin

text \<open>
  The two configuration blocks that decide which backend the client talks to.
  \<^verbatim>\<open>src/config/firebase.js\<close> builds the Firebase configuration from the
  build environment (\<^verbatim>\<open>import.meta.env\<close>, a partial map from names to
  strings here), each value falling back to a demo value when the variable is
  unset or empty (\<^verbatim>\<open>x || d\<close>), and asks Google for the account chooser.
  \<^verbatim>\<open>src/services/contentful.js\<close> creates a Contentful client only when both
  its space and its token differ from the demo values and \<^verbatim>\<open>createClient\<close>
  does not throw; otherwise the catalogue is the mock data. The SDK calls
  themselves (\<^verbatim>\<open>initializeApp\<close>, \<^verbatim>\<open>getAuth\<close>, \<^verbatim>\<open>createClient\<close>) are
  the environment: whether \<^verbatim>\<open>createClient\<close> succeeds and what
  \<^verbatim>\<open>getEntries\<close> returns are parameters.
\<close>

type_synonym build_env = "string \<Rightarrow> string option"

definition env_or :: "build_env \<Rightarrow> string \<Rightarrow> string \<Rightarrow> string" where
  "env_or env name d = (case env name of Some v \<Rightarrow> if v = [] then d else v | None \<Rightarrow> d)"

record firebase_config =
  fc_apiKey :: string
  fc_authDomain :: string
  fc_projectId :: string
  fc_storageBucket :: string
  fc_messagingSenderId :: string
  fc_appId :: string
  fc_measurementId :: string

definition firebaseConfig :: "build_env \<Rightarrow> firebase_config" where
  "firebaseConfig env =
     \<lparr>fc_apiKey = env_or env ''VITE_FIREBASE_API_KEY'' ''demo-api-key'',
      fc_authDomain = env_or env ''VITE_FIREBASE_AUTH_DOMAIN'' ''curry2cakes-demo.firebaseapp.com'',
      fc_projectId = env_or env ''VITE_FIREBASE_PROJECT_ID'' ''curry2cakes-demo'',
      fc_storageBucket = env_or env ''VITE_FIREBASE_STORAGE_BUCKET'' ''curry2cakes-demo.appspot.com'',
      fc_messagingSenderId = env_or env ''VITE_FIREBASE_MESSAGING_SENDER_ID'' ''123456789'',
      fc_appId = env_or env ''VITE_FIREBASE_APP_ID'' ''1:123456789:web:abcdef123456'',
      fc_measurementId = env_or env ''VITE_FIREBASE_MEASUREMENT_ID'' ''G-EH6N2HGMCW''\<rparr>"

definition google_provider_parameters :: "(string \<times> string) list" where
  "google_provider_parameters = [(''prompt'', ''select_account'')]"

record contentful_config =
  cc_space :: string
  cc_accessToken :: string
  cc_host :: string

definition CONTENTFUL_CONFIG :: "build_env \<Rightarrow> contentful_config" where
  "CONTENTFUL_CONFIG env =
     \<lparr>cc_space = env_or env ''VITE_CONTENTFUL_SPACE_ID'' ''demo-space-id'',
      cc_accessToken = env_or env ''VITE_CONTENTFUL_ACCESS_TOKEN'' ''demo-access-token'',
      cc_host = ''cdn.contentful.com''\<rparr>"

definition contentfulClient :: "build_env \<Rightarrow> bool \<Rightarrow> menu_item list option \<Rightarrow> menu_source" where
  "contentfulClient env created entries =
     (if cc_space (CONTENTFUL_CONFIG env) \<noteq> ''demo-space-id'' \<and>
         cc_accessToken (CONTENTFUL_CONFIG env) \<noteq> ''demo-access-token'' \<and> created
      then Cms entries else MockOnly)"

lemma contentfulClient_unset:
  "env ''VITE_CONTENTFUL_SPACE_ID'' = None \<or> env ''VITE_CONTENTFUL_ACCESS_TOKEN'' = None \<Longrightarrow>
   contentfulClient env created entries = MockOnly"
  by (auto simp: contentfulClient_def CONTENTFUL_CONFIG_def env_or_def)

end
