(* ===== verification/LegacyViews.thy ===== *)
theory LegacyViews
  imports GoogleJwt Config
begin

text \<open>
  What the first client's invite form, \<^verbatim>\<open>src/components/InviteCodeForm.jsx\<close>,
  renders from its state and the provider's user: the error alert, the request
  status alert (green for a success, red otherwise), the two buttons with their
  labels and disabled states, the code input's disabled state and the hint asking
  to sign in. JSX truthiness decides what is shown: an empty error string shows
  no alert.

  The rest of \<^verbatim>\<open>src/components/GoogleSignIn.jsx\<close>: the button's
  \<^verbatim>\<open>isLoading\<close> flag, the parent callback each handler calls, and the
  render (a disabled spinner button while loading, Google's widget otherwise).
  \<^verbatim>\<open>handleSuccess\<close> is \<^verbatim>\<open>async\<close> but awaits nothing, so its
  \<^verbatim>\<open>setIsLoading(true)\<close> and the \<^verbatim>\<open>finally\<close> block's
  \<^verbatim>\<open>setIsLoading(false)\<close> run in one synchronous call, and React renders
  only the last value. A callback prop that is absent is not called; the model
  names the callback each path would call.

  The rest of \<^verbatim>\<open>src/contexts/AuthContext.jsx\<close>: \<^verbatim>\<open>useAuth\<close>
  outside a provider, and the Google client id, read from
  \<^verbatim>\<open>process.env\<close>. Vite gives the browser no \<^verbatim>\<open>process\<close> global:
  the dev server (\<open>ViteServe\<close>) injects only the \<^verbatim>\<open>define\<close> entries of
  \<^verbatim>\<open>vite.config.js\<close> (\<open>viteConfig\<close> has none), and a build
  (\<open>ViteBuild\<close>) rewrites \<^verbatim>\<open>process.env\<close> to an empty object. This
  behaviour of Vite is modelled from its documentation, not from repository code.
\<close>

record legacy_form_view =
  lv_input_disabled :: bool
  lv_error :: "string option"
  lv_status :: "(bool \<times> json option) option"
  lv_verify_disabled :: bool
  lv_verify_label :: string
  lv_request_disabled :: bool
  lv_request_label :: string
  lv_sign_in_hint :: bool

definition legacy_render_form :: "legacy_form \<Rightarrow> json \<Rightarrow> legacy_form_view" where
  "legacy_render_form f u =
     \<lparr>lv_input_disabled = lf_isLoading f,
      lv_error = (if lf_error f = [] then None else Some (lf_error f)),
      lv_status = map_option (\<lambda>(ty, msg). (ty = ''success'', msg)) (lf_requestStatus f),
      lv_verify_disabled = legacy_verify_disabled f,
      lv_verify_label = (if lf_isLoading f then ''Verifying...'' else ''Verify Code''),
      lv_request_disabled = legacy_request_disabled f u,
      lv_request_label = (if lf_isRequestingCode f then ''Sending Request...'' else ''Request an Invite Code''),
      lv_sign_in_hint = (\<not> js_truthy (js_get u ''email''))\<rparr>"

datatype google_callback = CallOnSuccess json | CallOnError | NoCallback

datatype google_button_view = GoogleSpinner | GoogleWidget

definition google_render :: "bool \<Rightarrow> google_button_view" where
  "google_render isLoading = (if isLoading then GoogleSpinner else GoogleWidget)"

definition google_handleSuccess ::
  "string \<Rightarrow> legacy_auth \<Rightarrow> local_storage \<Rightarrow> google_callback \<times> legacy_auth \<times> local_storage \<times> bool" where
  "google_handleSuccess token st ls =
     (case handleSuccess token st ls of
        (SignedIn u, st', ls') \<Rightarrow> (CallOnSuccess u, st', ls', False)
      | (SignInError e, st', ls') \<Rightarrow> (CallOnError, st', ls', False)
      | (Unrepresentable, st', ls') \<Rightarrow> (NoCallback, st', ls', False))"

definition google_handleError :: "google_callback \<times> bool" where
  "google_handleError = (CallOnError, False)"

definition useAuth_missing_message :: string where
  "useAuth_missing_message = ''useAuth must be used within an AuthProvider''"

definition legacy_useAuth :: "'a option \<Rightarrow> string + 'a" where
  "legacy_useAuth ctx = (case ctx of None \<Rightarrow> Inl useAuth_missing_message | Some c \<Rightarrow> Inr c)"

record vite_config =
  vc_base :: string
  vc_alias :: "(string \<times> string) list"
  vc_define :: "(string \<times> string) list"

definition viteConfig :: vite_config where
  "viteConfig = \<lparr>vc_base = ''/curry2cakes/'', vc_alias = [(''@'', ''./src'')], vc_define = []\<rparr>"

definition process_env_defined :: "vite_config \<Rightarrow> bool" where
  "process_env_defined cfg \<longleftrightarrow> (\<exists>k\<in>fst ` set (vc_define cfg). take 11 k = ''process.env'')"

datatype vite_command = ViteServe | ViteBuild

definition legacy_client_id :: "vite_config \<Rightarrow> vite_command \<Rightarrow> build_env \<Rightarrow> string + string" where
  "legacy_client_id cfg cmd env =
     (if process_env_defined cfg
      then Inr (env_or env ''REACT_APP_GOOGLE_CLIENT_ID'' ''your-google-client-id'')
      else case cmd of
             ViteServe \<Rightarrow> Inl ''ReferenceError: process is not defined''
           | ViteBuild \<Rightarrow> Inr ''your-google-client-id'')"

lemma legacy_request_blocked_without_email:
  "lv_sign_in_hint (legacy_render_form f u) \<Longrightarrow> lv_request_disabled (legacy_render_form f u)"
  by (simp add: legacy_render_form_def legacy_request_disabled_def)

lemma legacy_request_finish_green:
  "lv_status (legacy_render_form (legacy_request_finish (legacy_requestInviteCode e) f) u) =
     Some (True, Some (JStr legacy_request_message))"
  by (simp add: legacy_render_form_def legacy_request_finish_def legacy_requestInviteCode_def js_get_def)

lemma google_spinner_never_rendered:
  "google_render (snd (snd (snd (google_handleSuccess token st ls)))) = GoogleWidget \<and>
   google_render (snd google_handleError) = GoogleWidget"
  by (simp add: google_handleSuccess_def google_handleError_def google_render_def
      split: prod.split google_outcome.split)

lemma google_handleSuccess_login:
  "fst (google_handleSuccess token st ls) = CallOnSuccess u \<Longrightarrow>
   fst (snd (google_handleSuccess token st ls)) = fst (legacy_login u st ls)"
  by (auto simp: google_handleSuccess_def handleSuccess_def split: prod.splits google_outcome.splits)

text \<open>
  C22. A Google sign-in persists. For every well-formed payload object the issuer
  signs, the button's success handler decodes the token by hand, hands the user
  object to \<^verbatim>\<open>login\<close>, calls \<^verbatim>\<open>onSuccess\<close> with it and clears its
  spinner; after a reload the provider's mount effect restores the same user,
  signed in, and the invite flag storage held before (\<^verbatim>\<open>login\<close> leaves it
  alone).
\<close>

theorem google_sign_in_survives_reload:
  assumes "json_wf p" and "p \<noteq> JNull" and "CHR ''.'' \<notin> set h"
  shows "google_handleSuccess
           (h @ CHR ''.'' # b64url_encode (utf8_encode (json_stringify p)) @ CHR ''.'' # sig) st ls =
           (CallOnSuccess (user_data_of p), fst (legacy_login (user_data_of p) st ls),
            snd (legacy_login (user_data_of p) st ls), False)
    \<and> restore_session (snd (legacy_login (user_data_of p) st ls)) initial_legacy =
           Some (initial_legacy\<lparr>lg_user := user_data_of p, lg_isAuthenticated := True,
                   lg_hasValidInvite := (map_of ls invite_key = Some ''true''), lg_loading := False\<rparr>,
                 snd (legacy_login (user_data_of p) st ls))"
proof
  show "google_handleSuccess
           (h @ CHR ''.'' # b64url_encode (utf8_encode (json_stringify p)) @ CHR ''.'' # sig) st ls =
          (CallOnSuccess (user_data_of p), fst (legacy_login (user_data_of p) st ls),
           snd (legacy_login (user_data_of p) st ls), False)"
    using decode_jwt_payload_token [OF assms(1-3)]
    by (simp add: google_handleSuccess_def handleSuccess_def split: prod.split)
  show "restore_session (snd (legacy_login (user_data_of p) st ls)) initial_legacy =
          Some (initial_legacy\<lparr>lg_user := user_data_of p, lg_isAuthenticated := True,
                  lg_hasValidInvite := (map_of ls invite_key = Some ''true''), lg_loading := False\<rparr>,
                snd (legacy_login (user_data_of p) st ls))"
    using json_parse_stringify [OF user_data_of_wf [OF assms(1)]]
    by (simp add: legacy_login_def restore_session_parsed storage_simps)
qed

theorem google_sign_in_survives_reload_witness:
  "restore_session (snd (legacy_login (user_data_of (JObj [(''sub'', JStr ''42''), (''name'', JStr ''Ana'')]))
      initial_legacy [])) initial_legacy =
   Some (initial_legacy\<lparr>lg_user := user_data_of (JObj [(''sub'', JStr ''42''), (''name'', JStr ''Ana'')]),
           lg_isAuthenticated := True, lg_hasValidInvite := False, lg_loading := False\<rparr>,
         snd (legacy_login (user_data_of (JObj [(''sub'', JStr ''42''), (''name'', JStr ''Ana'')]))
           initial_legacy []))"
proof -
  have h: "json_wf (JObj [(''sub'', JStr ''42''), (''name'', JStr ''Ana'')])"
    "JObj [(''sub'', JStr ''42''), (''name'', JStr ''Ana'')] \<noteq> JNull" "CHR ''.'' \<notin> set ''hdr''"
    by simp_all
  show ?thesis
    using google_sign_in_survives_reload [OF h, of "''sig''" initial_legacy "[]"] by simp
qed

text \<open>The provider never uses a configured client id: under the dev server the
  read throws, and a build replaces \<^verbatim>\<open>process.env\<close> by an empty object, so
  the placeholder is used whatever the environment holds.\<close>

lemma legacy_client_id_ignores_env:
  "legacy_client_id viteConfig ViteServe env = Inl ''ReferenceError: process is not defined'' \<and>
   legacy_client_id viteConfig ViteBuild env = Inr ''your-google-client-id''"
  by (simp add: legacy_client_id_def process_env_defined_def viteConfig_def)

end
