(* ===== verification/Spec2Isabelle.thy ===== *)
theory Spec2Isabelle
  imports InviteScenarios AppViews DynamicMenu GoogleJwt LegacyViews
begin

text \<open>
  \<^bold>\<open>Curry2Cakes: a verification library.\<close>

  The program is an invite-only restaurant site. A Node/Express API
  (\<^verbatim>\<open>src/api/server.js\<close>) keeps an in-memory registry of invite codes
  (\<^verbatim>\<open>src/api/invite-service.js\<close>): it issues a code for an e-mail address,
  at most once per five minutes per address, and redeems a code once within 30
  days. A React client (\<^verbatim>\<open>src/App.jsx\<close>) signs the user in with Google
  through Firebase (\<^verbatim>\<open>src/services/auth.js\<close>), asks for an invite code, calls
  the API through axios (\<^verbatim>\<open>src/services/api.js\<close>) and shows the menu once
  the code is accepted. The menu page (\<^verbatim>\<open>src/components/DynamicMenu.jsx\<close>)
  loads, filters and searches the catalogue of
  \<^verbatim>\<open>src/services/contentful.js\<close>. An earlier client that no module imports
  any more (\<^verbatim>\<open>src/contexts/AuthContext.jsx\<close>,
  \<^verbatim>\<open>src/components/InviteCodeForm.jsx\<close>,
  \<^verbatim>\<open>src/components/GoogleSignIn.jsx\<close>) checked invite codes in the
  browser and kept the session in \<^verbatim>\<open>localStorage\<close>.

  \<^bold>\<open>Theories.\<close>
  \<^item> \<open>Prelude\<close>: the clock type \<open>ms\<close> (milliseconds of
    \<^verbatim>\<open>Date.now()\<close>, an \<open>int\<close>), JavaScript \<^verbatim>\<open>Map\<close>s as association
    lists updated by \<open>AList.update\<close> (replace in place, append a new key, as
    \<^verbatim>\<open>Map.set\<close> keeps insertion order), and the list and map lemmas the
    components share.
  \<^item> \<open>JsString\<close>, \<open>JsNumber\<close>, \<open>Json\<close>: the runtime functions the code
    calls on 8-bit strings (\<^verbatim>\<open>trim\<close>, \<^verbatim>\<open>toUpperCase\<close>,
    \<^verbatim>\<open>includes\<close>), \<^verbatim>\<open>toString(36)\<close> with its inverse
    \<open>parseInt36\<close>, \<^verbatim>\<open>Buffer.toString('hex')\<close>, and JSON values with
    property access, truthiness and \<^verbatim>\<open>String()\<close>.
  \<^item> \<open>InviteCode\<close>: \<^verbatim>\<open>generateInviteCode\<close>, its length, when two codes
    collide, and how many codes one millisecond can yield (C1 to C3).
  \<^item> \<open>EmailCheck\<close>: \<^verbatim>\<open>isValidEmail\<close> as the language of its regular
    expression, proved equal to a single-pass description (C4).
  \<^item> \<open>InviteService\<close>: the registry state (\<^verbatim>\<open>inviteCodes\<close>,
    \<^verbatim>\<open>emailRequests\<close>) as a record and \<^verbatim>\<open>requestInviteCode\<close>,
    \<^verbatim>\<open>validateInviteCode\<close>, \<^verbatim>\<open>getInviteStats\<close> as functions of the
    clock, the random bytes and the state, every early return a value of an error
    datatype; their behaviour on every branch (C5 to C13, C15), and the throttle
    over any number of requests for one address (C14). The mock mailer
    \<open>sendInviteEmail\<close> always reports success, so the send-failure branch is
    part of the model but unreachable.
  \<^item> \<open>InviteLifecycle\<close>: the step relation \<open>service_reach\<close> of the
    registry under a monotone clock, its invariant by rule induction (C17), the
    shape of every stored code and address (C16), and the stability of used
    records (C18). \<open>InviteScenarios\<close>: the statistics scenario of the
    specification, and for every registry a code collision that lets one code be
    redeemed twice (C19).
  \<^item> \<open>Server\<close>: each route as a function from the parsed body and the
    registry to a status, a JSON body and the new registry; the routes' contracts
    (C20, C21) and the refinement of \<open>service_reach\<close> by the server
    (\<open>server_handle_reach\<close>). The client receives the server's JSON value
    as it is: the bodies hold strings, booleans and small counts, which
    \<^verbatim>\<open>JSON.stringify\<close> and \<^verbatim>\<open>JSON.parse\<close> carry unchanged.
  \<^item> \<open>Auth\<close>: the results \<^verbatim>\<open>auth.js\<close> builds from Firebase's
    outcomes. \<open>ApiClient\<close>: axios settling and the error each call throws, and
    the composition of a client call with the server's route (C24).
  \<^item> \<open>Client\<close>: the \<^verbatim>\<open>useAuth\<close> hook, the invite form and the page
    logic of \<^verbatim>\<open>App\<close> as records and one function per handler half (before
    and after each \<^verbatim>\<open>await\<close>), the event step \<open>client_step\<close>, the
    rendering \<open>render_app\<close>, the invariant of every reachable client state
    (C25), the offline fallback (C26) and, from any state, a validation that
    settles after the sign-out and lets the next user in (C27).
    \<open>AppViews\<close>: the header, the sign-in page and the landing page's buttons,
    the screen \<^verbatim>\<open>App\<close> returns, and the menu page, which mounts the
    menu component of \<open>DynamicMenu\<close> afresh each time it is shown.
  \<^item> This theory joins registry and client: \<open>sys_reach\<close> is the joint step
    relation in which client events interleave freely with server-answered calls
    and with other clients' calls. C28 to C30 are the end-to-end properties: a
    valid code is consumed but reported invalid, the menu is unreachable while
    the server answers, and the server's refusal reasons never reach the user.
  \<^item> \<open>Menu\<close>: the catalogue service, its mock data and the display helpers;
    \<^verbatim>\<open>formatPrice\<close> rounds a price to the cent and prints it in the en-US
    format a strict reader inverts (C31), the categories are sorted and distinct
    (C32) and the per-category lists are a permutation of the items (C33), and
    the search's contract (C34). \<open>DynamicMenu\<close>: the page's React state with
    the debounce timer and the pending searches as runtime state, and the event
    step \<open>menu_step\<close>, which depends on whether a Contentful client exists:
    without one a search settles right after its timer, so the results always
    match the query (C35); with one, searches settle in any order and a late one
    overwrites a newer one (C36). The untrimmed query (C37) and the hard-coded
    category tabs (C38) complete it.
  \<^item> \<open>Config\<close>: the configuration of \<^verbatim>\<open>src/config/firebase.js\<close> and
    the choice in \<^verbatim>\<open>src/services/contentful.js\<close> between the CMS and the
    mock catalogue, both from the build environment with their demo fallbacks.
  \<^item> \<open>JsonText\<close>: \<^verbatim>\<open>JSON.stringify\<close> and \<^verbatim>\<open>JSON.parse\<close>
    on 8-bit text, numbers rounded to doubles as \<^verbatim>\<open>JSON.parse\<close> does; the
    parser never diverges (\<open>json_parse_total\<close>) and inverts the printer on
    well-formed values, whose numbers are doubles below \<open>10 ^ 21\<close>
    (\<open>json_parse_stringify\<close>).
  \<^item> \<open>LegacyAuth\<close>: the earlier provider and form, with
    \<^verbatim>\<open>localStorage\<close> as an association list and the event step
    \<open>legacy_step\<close> including a page reload; a granted invite survives a reload
    (C39) and the mount effect always settles with state and storage in agreement
    (C40). \<open>LegacyViews\<close>: what the earlier form and sign-in button
    render, \<^verbatim>\<open>useAuth\<close> outside a provider, the client id that
    \<^verbatim>\<open>vite.config.js\<close> leaves undefined (under the dev server and in a
    build, the latter from Vite's documented behaviour), and the Google sign-in
    composed with login and reload (C22).
    \<open>GoogleJwt\<close>: the hand-written JWT payload decoder (base64url,
    \<^verbatim>\<open>atob\<close>, percent-encoding, \<^verbatim>\<open>decodeURIComponent\<close>,
    \<^verbatim>\<open>JSON.parse\<close>), which inverts the issuer's encoding for every
    well-formed payload, non-ASCII characters included (C23).

  \<^bold>\<open>Bounds and environment.\<close> Each service call reads the clock once (the
  code calls \<^verbatim>\<open>Date.now()\<close> and \<^verbatim>\<open>new Date()\<close> a few microseconds
  apart; one reading is taken for all of them). The collision and entropy results
  are stated for clock values in [36^7, 36^8) ms, 1972 to 2059, the
  window in which \<^verbatim>\<open>Date.now().toString(36)\<close> has exactly 8 digits; the
  length result holds for every clock value. Randomness
  (\<^verbatim>\<open>crypto.randomBytes(4)\<close>), the Firebase and Contentful outcomes and
  the network's delivery of a response are parameters of the calls, so every
  theorem holds for all of them. No function of the model needs fuel. The
  loops of the code are structural recursions, except two. The JSON parser is a
  \<^theory_text>\<open>partial_function\<close> in the option monad, and
  \<open>json_parse_total\<close> proves it is never \<open>None\<close>. \<^verbatim>\<open>decodeURIComponent\<close> is a \<^theory_text>\<open>function\<close> whose
  termination is proved by the length of the rest of the input. Strings are
  8-bit: a JavaScript character above \<^verbatim>\<open>\u00ff\<close> that a parse or a
  decode would produce is reported as unrepresentable, not modelled. Request
  bodies hold strings (or nothing) in their fields: a client sending an array or
  an object where the server expects a string is not modelled. Prices are the
  exact rational values of the JavaScript numbers.

  \<^bold>\<open>Not modelled.\<close> Rendering beyond what each view shows and which
  alerts and buttons are active (markup, styles, icons, static text); analytics
  (\<^verbatim>\<open>gtag\<close>), console logging, CORS, \<^verbatim>\<open>dotenv\<close> and
  \<^verbatim>\<open>listen\<close>; the Firebase, Contentful and Google widget SDKs themselves
  (their outcomes are parameters); the React context objects and export lists,
  which only pass values on; the token issuer, whose encoding is stated in
  \<open>GoogleJwt\<close> only as the input the decoder is meant to invert.
\<close>

definition is_settlement :: "client_event \<Rightarrow> bool" where
  "is_settlement ev = (case ev of SubmitSettled _ _ \<Rightarrow> True | RequestSettled _ \<Rightarrow> True | _ \<Rightarrow> False)"

inductive sys_reach :: "ms \<Rightarrow> service_state \<Rightarrow> app_state \<Rightarrow> bool" where
  start: "sys_reach t initial_service initial_app"
| local: "sys_reach t srv a \<Longrightarrow> \<not> is_settlement ev \<Longrightarrow> sys_reach t srv (client_step ev a)"
| validate: "sys_reach t srv a \<Longrightarrow> t \<le> env_now env \<Longrightarrow>
     server_handle env (api_validateInviteCode_request c) srv = (resp, srv') \<Longrightarrow>
     sys_reach (env_now env) srv' (client_step (SubmitSettled c (Reply resp)) a)"
| request: "sys_reach t srv a \<Longrightarrow> t \<le> env_now env \<Longrightarrow>
     server_handle env (api_requestInviteCode_request e []) srv = (resp, srv') \<Longrightarrow>
     sys_reach (env_now env) srv' (client_step (RequestSettled (Reply resp)) a)"
| other: "sys_reach t srv a \<Longrightarrow> t \<le> env_now env \<Longrightarrow>
     sys_reach (env_now env) (snd (server_handle env req srv)) a"

definition e2e_form :: form_state where
  "e2e_form = \<lparr>f_code = '' C2C0A '', f_email = ''ana@curry2cakes.com'', f_loading = False,
     f_requestLoading = False, f_message = [], f_requestStatus = []\<rparr>"

definition e2e_app :: app_state where
  "e2e_app = \<lparr>auth = \<lparr>user = Some (app_user_of alice), isAuthenticated = True, hasValidInvite = False,
                       loading = False, authError = None\<rparr>,
              currentPage = PageInvite, form = Some e2e_form\<rparr>"

definition e2e_registry :: service_state where
  "e2e_registry = \<lparr>inviteCodes = [(''C2C0A'', new_invite 1700000000000 ''ana@curry2cakes.com'' ''Ana'')],
                   emailRequests = []\<rparr>"

definition e2e_env :: server_env where
  "e2e_env = \<lparr>env_now = 1700000000000, env_iso = ''2023-11-14T22:13:20.000Z'',
              env_random = [0xAB, 0x12, 0x34, 0x56]\<rparr>"

subsection \<open>Shared lemmas\<close>

lemma fallback_Nil: "js_toUpperCase [] \<notin> set fallback_codes"
  by (simp add: js_toUpperCase_def fallback_codes_def)

lemma validate_reply_keeps_flag:
  "hasValidInvite (snd (useAuth_validateInviteCode c
      (api_validateInviteCode (Reply (fst (server_handle env (api_validateInviteCode_request c) srv)))) st))
   = hasValidInvite st"
proof (cases "c = []")
  case True
  then show ?thesis
    by (simp add: api_validateInviteCode_request_def api_validateInviteCode_def invite_validate_route_def
        api_call_error_obj useAuth_validateInviteCode_def fallback_Nil)
next
  case False
  then show ?thesis
    by (simp add: api_validateInviteCode_request_def api_validateInviteCode_def invite_validate_route_code
        api_call_2xx validate_auth_hasValidInvite split: sum.split prod.split)
qed

lemma local_step_keeps_no_flag:
  "\<not> hasValidInvite (auth a) \<Longrightarrow> \<not> is_settlement ev \<Longrightarrow> \<not> hasValidInvite (auth (client_step ev a))"
  by (cases ev)
    (auto simp: client_step_auth is_settlement_def auth_listener_def login_start_def login_finish_def
      logout_start_def logout_finish_def split: option.split prod.split sum.split)

lemma validate_step_keeps_no_flag:
  "\<not> hasValidInvite (auth a) \<Longrightarrow> server_handle env (api_validateInviteCode_request c) srv = (resp, srv') \<Longrightarrow>
     \<not> hasValidInvite (auth (client_step (SubmitSettled c (Reply resp)) a))"
  using validate_reply_keeps_flag [of c env srv "auth a"]
  by (simp add: client_step_auth split_def Let_def)

lemma request_step_auth:
  "auth (client_step (RequestSettled r) a) = auth a"
  by (simp add: client_step_auth)

lemma server_handle_reach_step:
  "service_reach t srv \<Longrightarrow> t \<le> env_now env \<Longrightarrow> server_handle env req srv = (resp, srv') \<Longrightarrow>
     service_reach (env_now env) srv'"
  using server_handle_snd_cases [of env req srv]
  by (auto intro: service_reach.tick service_reach.request service_reach.validate)

lemma render_menu_flag: "render_app a = ViewMenu \<Longrightarrow> hasValidInvite (auth a)"
  by (simp add: render_app_def split: if_splits)

lemma submit_code_step:
  assumes "form a = Some fs" and "render_app a = ViewInvite" and "js_trim (f_code fs) \<noteq> []"
  shows "client_step SubmitCode a = a\<lparr>form := Some (fs\<lparr>f_loading := True, f_message := []\<rparr>)\<rparr>"
  using assms by (simp add: client_step_def update_form_def handleSubmit_start_def sync_form_def)

lemma validate_route_accepts:
  assumes "c \<noteq> []" and "map_of (inviteCodes srv) c = Some e" and "\<not> used e"
    and "env_now env \<le> expiresAt e"
  shows "server_handle env (api_validateInviteCode_request c) srv =
     (\<lparr>status = 200, body = JObj [(''valid'', JBool True), (''email'', JStr (inv_email e)),
                                 (''userName'', JStr (inv_userName e))]\<rparr>,
      srv\<lparr>inviteCodes := AList.update c (redeem (env_now env) e) (inviteCodes srv)\<rparr>)"
  using assms
  by (simp add: api_validateInviteCode_request_def invite_validate_route_code validateInviteCode_Some)

lemma request_settled_step:
  assumes "form a = Some fs" and "render_app a = ViewInvite" and "e \<noteq> []"
  shows "client_step (RequestSettled (Reply (fst (server_handle env (api_requestInviteCode_request e []) srv)))) a
     = a\<lparr>form := Some (fs\<lparr>f_requestStatus :=
           (if isl (fst (requestInviteCode (env_now env) (env_random env) e [] srv))
            then request_failed_status else request_sent_status), f_requestLoading := False\<rparr>)\<rparr>"
  using assms
  by (simp add: client_step_def update_form_def api_request_server useAuth_requestInviteCode_def
      handleRequestInvite_finish_def sync_form_def split: sum.split)

lemma status_green_values:
  "js_includes request_sent_status ''sent'' \<and> \<not> js_includes request_failed_status ''sent''"
  by (simp add: request_sent_status_def request_failed_status_def js_string_eval)

subsection \<open>End-to-end properties\<close>

text \<open>
  C28. A valid code is consumed and rejected. The invite form holds a code whose
  trimmed text is an unused, unexpired code of the registry. Submitting it runs
  the server's validation, which marks the record used and answers 200 with
  \<^verbatim>\<open>valid: true\<close>; but the client tests \<^verbatim>\<open>result.success\<close>, which
  that body lacks, so it leaves \<^verbatim>\<open>hasValidInvite\<close> and the page as they
  were and shows "Invalid invite code. Please try again.". The code cannot be
  used again (C9).
\<close>

theorem valid_code_consumed_but_rejected:
  assumes "form a = Some fs" and "render_app a = ViewInvite" and "js_trim (f_code fs) = c"
    and "c \<noteq> []" and "map_of (inviteCodes srv) c = Some e" and "\<not> used e"
    and "env_now env \<le> expiresAt e"
  shows "status (fst (server_handle env (api_validateInviteCode_request c) srv)) = 200 \<and>
    map_of (inviteCodes (snd (server_handle env (api_validateInviteCode_request c) srv))) c
      = Some (redeem (env_now env) e) \<and>
    client_step (SubmitSettled c (Reply (fst (server_handle env (api_validateInviteCode_request c) srv))))
        (client_step SubmitCode a)
      = a\<lparr>form := Some (fs\<lparr>f_loading := False, f_message := invalid_code_message\<rparr>)\<rparr>"
proof -
  have a1: "client_step SubmitCode a = a\<lparr>form := Some (fs\<lparr>f_loading := True, f_message := []\<rparr>)\<rparr>"
    using assms(1-4) by (simp add: submit_code_step)
  have srv: "server_handle env (api_validateInviteCode_request c) srv =
     (\<lparr>status = 200, body = JObj [(''valid'', JBool True), (''email'', JStr (inv_email e)),
                                 (''userName'', JStr (inv_userName e))]\<rparr>,
      srv\<lparr>inviteCodes := AList.update c (redeem (env_now env) e) (inviteCodes srv)\<rparr>)"
    using assms(4-7) by (rule validate_route_accepts)
  show ?thesis
    using assms(1,2) a1 srv
    by (simp add: client_step_def update_form_def api_validateInviteCode_def api_call_2xx
        useAuth_validateInviteCode_def handleSubmit_finish_def sync_form_def update_conv'
        Let_def)
qed

theorem valid_code_consumed_but_rejected_witness:
  "map_option f_message (form (client_step (SubmitSettled ''C2C0A''
      (Reply (fst (server_handle e2e_env (api_validateInviteCode_request ''C2C0A'') e2e_registry))))
      (client_step SubmitCode e2e_app)))
   = Some ''Invalid invite code. Please try again.''"
proof -
  have h: "form e2e_app = Some e2e_form" "render_app e2e_app = ViewInvite"
    "js_trim (f_code e2e_form) = ''C2C0A''" "''C2C0A'' \<noteq> []"
    "map_of (inviteCodes e2e_registry) ''C2C0A''
       = Some (new_invite 1700000000000 ''ana@curry2cakes.com'' ''Ana'')"
    "\<not> used (new_invite 1700000000000 ''ana@curry2cakes.com'' ''Ana'')"
    "env_now e2e_env \<le> expiresAt (new_invite 1700000000000 ''ana@curry2cakes.com'' ''Ana'')"
    by (simp_all add: e2e_app_def e2e_form_def render_app_def e2e_registry_def new_invite_def
        e2e_env_def invite_validity_ms_def js_string_eval)
  show ?thesis
    using valid_code_consumed_but_rejected [OF h] by (simp add: invalid_code_message_def)
qed

text \<open>
  C29. While the API server answers, the menu is never shown. In every state of
  the joint system (registry and client), reachable by client events in any
  order, by validations and requests the server answers, and by calls of other
  clients, at a clock that never runs backwards: the registry is a state of the
  lifecycle relation of C17, the client is a state of C25, and
  \<^verbatim>\<open>hasValidInvite\<close> is false, so \<^verbatim>\<open>render_app\<close> never yields the
  menu page. Only the offline fallback of C26 can set the flag.
\<close>

theorem online_menu_unreachable:
  "sys_reach t srv a \<Longrightarrow>
     service_reach t srv \<and> client_reach a \<and> \<not> hasValidInvite (auth a) \<and> render_app a \<noteq> ViewMenu"
proof (induction rule: sys_reach.induct)
  case (start t)
  have "\<not> hasValidInvite (auth initial_app)"
    by (simp add: initial_app_def initial_auth_def)
  then show ?case
    by (auto intro: service_reach.start client_reach.start dest: render_menu_flag)
next
  case (local t srv a ev)
  then show ?case
    by (auto intro: client_reach.step dest: local_step_keeps_no_flag render_menu_flag)
next
  case (validate t srv a env c resp srv')
  then show ?case
    by (auto intro: client_reach.step server_handle_reach_step
        dest: validate_step_keeps_no_flag render_menu_flag)
next
  case (request t srv a env e resp srv')
  then show ?case
    by (auto simp: request_step_auth intro: client_reach.step server_handle_reach_step
        dest: render_menu_flag)
next
  case (other t srv a env req)
  have "server_handle env req srv = (fst (server_handle env req srv), snd (server_handle env req srv))"
    by simp
  with other show ?case by (blast intro: server_handle_reach_step)
qed

theorem online_menu_unreachable_witness:
  "render_app (client_step (SubmitSettled ''C2C0A''
      (Reply (fst (server_handle e2e_env (api_validateInviteCode_request ''C2C0A'') initial_service))))
      (client_step (AuthChanged (Some alice)) initial_app)) \<noteq> ViewMenu"
proof -
  have r1: "sys_reach (env_now e2e_env) initial_service (client_step (AuthChanged (Some alice)) initial_app)"
    by (rule sys_reach.local [OF sys_reach.start]) (simp add: is_settlement_def)
  have r2: "sys_reach (env_now e2e_env)
      (snd (server_handle e2e_env (api_validateInviteCode_request ''C2C0A'') initial_service))
      (client_step (SubmitSettled ''C2C0A''
         (Reply (fst (server_handle e2e_env (api_validateInviteCode_request ''C2C0A'') initial_service))))
         (client_step (AuthChanged (Some alice)) initial_app))"
    by (rule sys_reach.validate [OF r1]) simp_all
  show ?thesis using online_menu_unreachable [OF r2] by simp
qed

text \<open>
  C30. The server's reason for refusing an invite request never reaches the user.
  After a request answered by the server, the form's status line is the success
  text exactly when the registry issued a code, and otherwise always the generic
  "Unable to send invite code at this time. Please try again later." (the
  rate-limit, invalid-address and mail-failure texts are lost, because
  \<^verbatim>\<open>api.js\<close> throws on a 400 and the hook's \<^verbatim>\<open>catch\<close> replaces the
  message); the alert is green exactly when a code was issued.
\<close>

theorem request_status_hides_server_error:
  assumes "form a = Some fs" and "render_app a = ViewInvite" and "e \<noteq> []"
  shows "map_option f_requestStatus (form (client_step (RequestSettled
            (Reply (fst (server_handle env (api_requestInviteCode_request e []) srv)))) a))
         = Some (if isl (fst (requestInviteCode (env_now env) (env_random env) e [] srv))
                 then request_failed_status else request_sent_status) \<and>
         (map_option request_status_green (form (client_step (RequestSettled
            (Reply (fst (server_handle env (api_requestInviteCode_request e []) srv)))) a))
         = Some (\<not> isl (fst (requestInviteCode (env_now env) (env_random env) e [] srv))))"
  using request_settled_step [OF assms, of env srv] status_green_values
  by (simp add: request_status_green_def)

theorem request_status_hides_server_error_witness:
  "map_option f_requestStatus (form (client_step (RequestSettled
      (Reply (fst (server_handle e2e_env (api_requestInviteCode_request ''ana@curry2cakes.com'' [])
                     \<lparr>inviteCodes = [], emailRequests = [(''ana@curry2cakes.com'',
                        \<lparr>req_timestamp = 1700000000000, req_inviteCode = ''C2C0A''\<rparr>)]\<rparr>)))) e2e_app))
   = Some ''Unable to send invite code at this time. Please try again later.''"
proof -
  have h: "form e2e_app = Some e2e_form" "render_app e2e_app = ViewInvite"
    "''ana@curry2cakes.com'' \<noteq> []"
    by (simp_all add: e2e_app_def render_app_def)
  have rl: "fst (requestInviteCode (env_now e2e_env) (env_random e2e_env)
              ''ana@curry2cakes.com'' []
              \<lparr>inviteCodes = [], emailRequests = [(''ana@curry2cakes.com'',
                 \<lparr>req_timestamp = 1700000000000, req_inviteCode = ''C2C0A''\<rparr>)]\<rparr>) = Inl RateLimited"
    by (simp add: requestInviteCode_def rate_limited_def e2e_env_def rate_limit_ms_def email_eval)
  show ?thesis
    using request_status_hides_server_error [OF h, where env = e2e_env and
        srv = "\<lparr>inviteCodes = [], emailRequests = [(''ana@curry2cakes.com'',
                 \<lparr>req_timestamp = 1700000000000, req_inviteCode = ''C2C0A''\<rparr>)]\<rparr>"] rl
    by (simp add: request_failed_status_def)
qed

end
